(* ===== verification/Prelude.thy ===== *)
theory Prelude
  imports Main "HOL-Library.Word"
begin

text \<open>
  Shared vocabulary of the development: Go's machine integers, the string functions of the
  standard library the program uses, and generic lemmas on lists and maps.

  A Go string is a sequence of bytes, which is what Isabelle's \<open>string\<close> (a list of 8-bit
  characters) is; \<open>len\<close> is \<open>length\<close>.  A Go \<open>int\<close> or \<open>int64\<close> is a \<open>64 word\<close> read by \<open>sint\<close>, an
  \<open>int32\<close> a \<open>32 word\<close>; conversions keep the low bits, as Go's do.  A duration or an instant is
  an \<open>int\<close> that counts nanoseconds.
\<close>

section \<open>Collections of the development\<close>

named_theorems go_simps \<open>unfolding of small helpers and conversions\<close>

section \<open>Machine integers\<close>

type_synonym i32 = "32 word"
type_synonym i64 = "64 word"

text \<open>Go's conversions \<open>int32(x)\<close> of an \<open>int\<close> and \<open>int64(x)\<close> of an \<open>int32\<close>.\<close>

definition int32_of :: "i64 \<Rightarrow> i32" where
  "int32_of x = ucast x"

definition int64_of :: "i32 \<Rightarrow> i64" where
  "int64_of x = scast x"

lemma sint_int32_of:
  assumes "- (2 ^ 31) \<le> sint x" and "sint x < 2 ^ 31"
  shows "sint (int32_of x) = sint x"
proof -
  have "sint (int32_of x) = signed_take_bit 31 (sint x)"
    by (simp add: int32_of_def signed_ucast_eq signed_take_bit_eq_if_positive)
       (simp add: sint_uint signed_take_bit_take_bit)
  also have "\<dots> = sint x"
    using assms by (simp add: signed_take_bit_int_eq_self)
  finally show ?thesis .
qed

lemma sint_inject:
  fixes x y :: "'a::len word"
  assumes "sint x = sint y"
  shows "x = y"
proof -
  have "(of_int (sint x) :: 'a word) = of_int (sint y)"
    by (simp only: assms)
  then show ?thesis by (simp only: of_int_sint scast_id)
qed

lemma sint_eq_0: "sint x = 0 \<Longrightarrow> x = 0" for x :: "'a::len word"
  by (rule sint_inject) simp

lemma sint_int64_of [simp]: "sint (int64_of x) = sint x"
  by (simp add: int64_of_def sint_up_scast is_up)

lemma int64_of_int32_of:
  assumes "- (2 ^ 31) \<le> sint x" and "sint x < 2 ^ 31"
  shows "int64_of (int32_of x) = x"
  by (rule sint_inject) (simp add: sint_int32_of [OF assms])

section \<open>Strings\<close>

text \<open>\<open>strings.HasPrefix\<close> and \<open>strings.TrimPrefix\<close>.\<close>

definition has_prefix :: "string \<Rightarrow> string \<Rightarrow> bool" where
  "has_prefix p s \<longleftrightarrow> take (length p) s = p"

definition trim_prefix :: "string \<Rightarrow> string \<Rightarrow> string" where
  "trim_prefix p s = (if has_prefix p s then drop (length p) s else s)"

lemma has_prefix_append [simp]: "has_prefix p (p @ s)"
  by (simp add: has_prefix_def)

lemma trim_prefix_append [simp]: "trim_prefix p (p @ s) = s"
  by (simp add: trim_prefix_def)

definition is_digit :: "char \<Rightarrow> bool" where
  "is_digit c \<longleftrightarrow> (48 :: nat) \<le> of_char c \<and> of_char c \<le> (57 :: nat)"

section \<open>Lists and options\<close>

lemma nth_0_hd: "xs \<noteq> [] \<Longrightarrow> xs ! 0 = hd xs"
  by (simp add: hd_conv_nth)

lemma find_Some_in: "List.find P xs = Some x \<Longrightarrow> x \<in> set xs \<and> P x"
  by (induction xs) (auto split: if_splits)

lemma find_None_all: "List.find P xs = None \<longleftrightarrow> (\<forall>x \<in> set xs. \<not> P x)"
  by (induction xs) auto

lemma find_cases:
  obtains "List.find P xs = None" "\<forall>x \<in> set xs. \<not> P x"
    | x where "List.find P xs = Some x" "x \<in> set xs" "P x"
  by (cases "List.find P xs") (auto simp: find_None_all dest: find_Some_in)

lemma map_of_filter_fst: "map_of (filter (\<lambda>x. P (fst x)) xs) k = (if P k then map_of xs k else None)"
  by (induction xs) auto

end
