(* ===== verification/Errors.thy ===== *)
theory Errors
  imports Prelude
begin

text \<open>
  Application errors (internal/domain/errors.go) and the three tables that turn them into what a
  client sees: \<open>response.FromError\<close> (HTTP), \<open>mapError\<close> (the gRPC server) and
  \<open>mapOrderError\<close> (errors of the upstream gRPC services).

  An error of a gRPC client call is represented by what \<open>status.FromError\<close> makes of it: a status
  (code, message, text of the error) or a plain error with its text; that classification belongs
  to google.golang.org/grpc and is not modelled.
\<close>

section \<open>Error values\<close>

datatype error_type =
    ErrorTypeValidation | ErrorTypeAuthentication | ErrorTypeAuthorization | ErrorTypeNotFound
  | ErrorTypeConflict | ErrorTypeTooMany | ErrorTypeInternal | ErrorTypeOther string

text \<open>\<open>codes.Code\<close> of google.golang.org/grpc.\<close>

datatype grpc_code =
    OK | Canceled | Unknown | InvalidArgument | DeadlineExceeded | NotFound | AlreadyExists
  | PermissionDenied | ResourceExhausted | FailedPrecondition | Aborted | OutOfRange
  | Unimplemented | Internal | Unavailable | DataLoss | Unauthenticated

datatype rpc_error =
    RpcStatus grpc_code string string  \<comment> \<open>code, message, text of the error\<close>
  | RpcPlain string

fun status_code :: "rpc_error \<Rightarrow> grpc_code" where
  "status_code (RpcStatus c _ _) = c"
| "status_code (RpcPlain _) = Unknown"

text \<open>
  Go's \<open>error\<close>: an \<open>*AppError\<close> with its wrapped error, an error of a client call, a sentinel
  (a package variable compared with \<open>errors.Is\<close>), a text, \<open>fmt.Errorf("text: %w", err)\<close>, and
  \<open>fmt.Errorf("%w: text", err)\<close>.
\<close>

datatype go_error =
    AppError error_type string int "go_error option"
  | RpcError rpc_error
  | Sentinel string
  | Text string
  | Wrapped string go_error
  | WrappedBy go_error string

fun rpc_text :: "rpc_error \<Rightarrow> string" where
  "rpc_text (RpcStatus _ _ t) = t"
| "rpc_text (RpcPlain t) = t"

text \<open>The method \<open>Error()\<close>.\<close>

fun error_text :: "go_error \<Rightarrow> string" where
  "error_text (AppError _ m _ None) = m"
| "error_text (AppError _ m _ (Some e)) = m @ '': '' @ error_text e"
| "error_text (RpcError e) = rpc_text e"
| "error_text (Sentinel m) = m"
| "error_text (Text m) = m"
| "error_text (Wrapped m e) = m @ '': '' @ error_text e"
| "error_text (WrappedBy e m) = error_text e @ '': '' @ m"

fun unwrap :: "go_error \<Rightarrow> go_error option" where
  "unwrap (AppError _ _ _ e) = e"
| "unwrap (Wrapped _ e) = Some e"
| "unwrap (WrappedBy e _) = Some e"
| "unwrap _ = None"

text \<open>\<open>errors.Is\<close> against a sentinel: follow the chain of wrapped errors.\<close>

fun errors_is :: "go_error \<Rightarrow> string \<Rightarrow> bool" where
  "errors_is (Sentinel m) t \<longleftrightarrow> m = t"
| "errors_is (AppError _ _ _ (Some e)) t \<longleftrightarrow> errors_is e t"
| "errors_is (Wrapped _ e) t \<longleftrightarrow> errors_is e t"
| "errors_is (WrappedBy e _) t \<longleftrightarrow> errors_is e t"
| "errors_is _ t \<longleftrightarrow> False"

section \<open>domain/errors.go\<close>

fun HTTPStatus :: "error_type \<Rightarrow> int" where
  "HTTPStatus ErrorTypeValidation = 400"
| "HTTPStatus ErrorTypeAuthentication = 401"
| "HTTPStatus ErrorTypeAuthorization = 403"
| "HTTPStatus ErrorTypeNotFound = 404"
| "HTTPStatus ErrorTypeConflict = 409"
| "HTTPStatus ErrorTypeTooMany = 429"
| "HTTPStatus _ = 500"

definition NewValidationError :: "string \<Rightarrow> go_error" where
  "NewValidationError m = AppError ErrorTypeValidation m 400 None"

definition NewAuthenticationError :: "string \<Rightarrow> go_error" where
  "NewAuthenticationError m = AppError ErrorTypeAuthentication m 401 None"

definition NewAuthorizationError :: "string \<Rightarrow> go_error" where
  "NewAuthorizationError m = AppError ErrorTypeAuthorization m 403 None"

definition NewNotFoundError :: "string \<Rightarrow> go_error" where
  "NewNotFoundError m = AppError ErrorTypeNotFound m 404 None"

definition NewConflictError :: "string \<Rightarrow> go_error" where
  "NewConflictError m = AppError ErrorTypeConflict m 409 None"

definition NewTooManyRequestsError :: "string \<Rightarrow> go_error" where
  "NewTooManyRequestsError m = AppError ErrorTypeTooMany m 429 None"

definition NewInternalError :: "go_error \<Rightarrow> go_error" where
  "NewInternalError e = AppError ErrorTypeInternal ''internal server error'' 500 (Some e)"

lemmas new_error_defs [go_simps] =
  NewValidationError_def NewAuthenticationError_def NewAuthorizationError_def
  NewNotFoundError_def NewConflictError_def NewTooManyRequestsError_def NewInternalError_def

text \<open>\<open>WithError\<close> replaces the wrapped error of an application error.\<close>

fun WithError :: "go_error \<Rightarrow> go_error \<Rightarrow> go_error" where
  "WithError (AppError t m c _) e = AppError t m c (Some e)"
| "WithError e' _ = e'"

text \<open>\<open>AsAppError\<close>: \<open>errors.As\<close> with an \<open>*AppError\<close> target, the first one on the chain.\<close>

fun AsAppError :: "go_error \<Rightarrow> go_error option" where
  "AsAppError (AppError t m c e) = Some (AppError t m c e)"
| "AsAppError (Wrapped _ e) = AsAppError e"
| "AsAppError (WrappedBy e _) = AsAppError e"
| "AsAppError _ = None"

definition IsAppError :: "go_error \<Rightarrow> bool" where
  "IsAppError e \<longleftrightarrow> AsAppError e \<noteq> None"

definition GetStatusCode :: "go_error \<Rightarrow> int" where
  "GetStatusCode e = (case AsAppError e of Some (AppError _ _ c _) \<Rightarrow> c | _ \<Rightarrow> 500)"

definition IsErrorType :: "go_error \<Rightarrow> error_type \<Rightarrow> bool" where
  "IsErrorType e t = (case AsAppError e of Some (AppError t' _ _ _) \<Rightarrow> t' = t | _ \<Rightarrow> False)"

definition IsValidationError :: "go_error \<Rightarrow> bool" where
  "IsValidationError e = IsErrorType e ErrorTypeValidation"

definition IsAuthenticationError :: "go_error \<Rightarrow> bool" where
  "IsAuthenticationError e = IsErrorType e ErrorTypeAuthentication"

definition IsAuthorizationError :: "go_error \<Rightarrow> bool" where
  "IsAuthorizationError e = IsErrorType e ErrorTypeAuthorization"

definition IsNotFoundError :: "go_error \<Rightarrow> bool" where
  "IsNotFoundError e = IsErrorType e ErrorTypeNotFound"

definition IsConflictError :: "go_error \<Rightarrow> bool" where
  "IsConflictError e = IsErrorType e ErrorTypeConflict"

definition IsInternalError :: "go_error \<Rightarrow> bool" where
  "IsInternalError e = IsErrorType e ErrorTypeInternal"

lemmas is_error_defs [go_simps] =
  IsValidationError_def IsAuthenticationError_def IsAuthorizationError_def
  IsNotFoundError_def IsConflictError_def IsInternalError_def

lemma AsAppError_cases:
  obtains "AsAppError e = None" | t m c w where "AsAppError e = Some (AppError t m c w)"
  by (induction e rule: AsAppError.induct) auto

section \<open>HTTP responses (transport/http/response)\<close>

text \<open>
  A response: a success with its payload, or an error body with code and message.
\<close>

datatype 'a http_response = Success int 'a | Failure int string string

definition ok :: "'a \<Rightarrow> 'a http_response" where
  "ok payload = Success 200 payload"

definition created :: "'a \<Rightarrow> 'a http_response" where
  "created payload = Success 201 payload"

definition ErrorResponse :: "int \<Rightarrow> string \<Rightarrow> string \<Rightarrow> 'a http_response" where
  "ErrorResponse status code message = Failure status code message"

definition BadRequest :: "string \<Rightarrow> 'a http_response" where
  "BadRequest message = ErrorResponse 400 ''bad_request'' message"

definition Unauthorized :: "string \<Rightarrow> string \<Rightarrow> 'a http_response" where
  "Unauthorized code message = ErrorResponse 401 code message"

definition Forbidden :: "string \<Rightarrow> 'a http_response" where
  "Forbidden message = ErrorResponse 403 ''forbidden'' message"

definition NotFoundResponse :: "string \<Rightarrow> 'a http_response" where
  "NotFoundResponse message = ErrorResponse 404 ''not_found'' message"

definition ConflictResponse :: "string \<Rightarrow> 'a http_response" where
  "ConflictResponse message = ErrorResponse 409 ''conflict'' message"

definition InternalResponse :: "'a http_response" where
  "InternalResponse = ErrorResponse 500 ''internal'' ''internal server error''"

definition FromError :: "go_error \<Rightarrow> 'a http_response" where
  "FromError e =
     (case AsAppError e of
        Some (AppError t m _ _) \<Rightarrow>
          (case t of
             ErrorTypeValidation \<Rightarrow> ErrorResponse 400 ''validation'' m
           | ErrorTypeAuthentication \<Rightarrow> ErrorResponse 401 ''unauthorized'' m
           | ErrorTypeAuthorization \<Rightarrow> ErrorResponse 403 ''forbidden'' m
           | ErrorTypeNotFound \<Rightarrow> ErrorResponse 404 ''not_found'' m
           | ErrorTypeConflict \<Rightarrow> ErrorResponse 409 ''conflict'' m
           | ErrorTypeTooMany \<Rightarrow> ErrorResponse 429 ''rate_limited'' m
           | ErrorTypeInternal \<Rightarrow> InternalResponse
           | ErrorTypeOther _ \<Rightarrow> InternalResponse)
      | _ \<Rightarrow> InternalResponse)"

lemmas response_defs [go_simps] =
  ok_def created_def ErrorResponse_def BadRequest_def Unauthorized_def Forbidden_def
  NotFoundResponse_def ConflictResponse_def InternalResponse_def

section \<open>gRPC errors\<close>

text \<open>
  \<open>mapError\<close> (transport/grpc/devicepairing_server.go): an application error as the status this
  service returns, code and message.
\<close>

definition mapError :: "go_error \<Rightarrow> grpc_code \<times> string" where
  "mapError e =
     (if IsValidationError e then (InvalidArgument, error_text e)
      else if IsAuthenticationError e then (Unauthenticated, error_text e)
      else if IsAuthorizationError e then (PermissionDenied, error_text e)
      else if IsNotFoundError e then (NotFound, error_text e)
      else if IsConflictError e then (AlreadyExists, error_text e)
      else if IsInternalError e then (Internal, ''internal error'')
      else (Internal, ''internal error''))"

text \<open>\<open>mapOrderError\<close> (service/order_service.go): an upstream gRPC error as an application error.\<close>

fun mapOrderError :: "rpc_error \<Rightarrow> go_error" where
  "mapOrderError (RpcPlain t) = NewInternalError (RpcError (RpcPlain t))"
| "mapOrderError (RpcStatus c m t) =
     (case c of
        InvalidArgument \<Rightarrow> NewValidationError m
      | NotFound \<Rightarrow> NewNotFoundError m
      | FailedPrecondition \<Rightarrow> NewConflictError m
      | AlreadyExists \<Rightarrow> NewConflictError m
      | _ \<Rightarrow> NewInternalError (RpcError (RpcStatus c m t)))"

lemma mapOrderError_app: "IsAppError (mapOrderError e)"
  by (cases e rule: mapOrderError.cases) (auto simp: go_simps IsAppError_def split: grpc_code.split)

section \<open>Properties\<close>

text \<open>
  C14. The status of the response built by \<open>FromError\<close> is the one \<open>ErrorType.HTTPStatus\<close> gives for
  the type of the first application error on the chain, and 500 when there is none; the two tables
  of the code never disagree.
\<close>

theorem FromError_status:
  "(case FromError e of Success s _ \<Rightarrow> s | Failure s _ _ \<Rightarrow> s) =
   (case AsAppError e of Some (AppError t _ _ _) \<Rightarrow> HTTPStatus t | _ \<Rightarrow> 500)"
  by (cases e rule: AsAppError_cases)
     (auto simp: FromError_def go_simps split: error_type.split)



end
