(* ===== verification/Money.thy ===== *)
theory Money
  imports Complex_Main Prelude
begin

text \<open>
  Money crosses the program twice: menu prices arrive as \<open>float64\<close> rubles and become \<open>int64\<close>
  kopecks (\<open>kopecks\<close>, service/order_service.go), order amounts arrive as kopecks and become
  \<open>float64\<close> rubles for screens (\<open>Rubles\<close>, domain/order.go).

  A \<open>float64\<close> is an IEEE 754 binary64 value: a rational of that format, an infinity or NaN (the
  sign of zero is not kept: no operation here can tell).  Each arithmetic operation is the exact
  one followed by \<open>fl\<close>, rounding to nearest, ties to even, with 53 significant bits.
\<close>

section \<open>Rounding to binary64\<close>

datatype float64 = Fin rat | PosInf | NegInf | NaN

fun lg :: "nat \<Rightarrow> nat" where
  "lg n = (if n < 2 then 0 else Suc (lg (n div 2)))"

declare lg.simps [simp del]

text \<open>\<open>\<lfloor>log2 x\<rfloor>\<close> of a positive rational.\<close>

definition ilog2 :: "rat \<Rightarrow> int" where
  "ilog2 x =
     (let (n, d) = quotient_of x; k = int (lg (nat n)) - int (lg (nat d))
      in if 2 powi k \<le> x then k else k - 1)"

definition round_even :: "rat \<Rightarrow> int" where
  "round_even x =
     (let f = \<lfloor>x\<rfloor>; r = x - of_int f
      in if r < 1 / 2 then f else if 1 / 2 < r then f + 1 else if even f then f else f + 1)"

definition exponent :: "rat \<Rightarrow> int" where
  "exponent x = max (ilog2 \<bar>x\<bar> - 52) (- 1074)"

definition fl :: "rat \<Rightarrow> float64" where
  "fl x =
     (if x = 0 then Fin 0
      else let y = of_int (round_even (x / 2 powi exponent x)) * 2 powi exponent x
           in if 2 powi 1024 \<le> \<bar>y\<bar> then (if 0 < y then PosInf else NegInf) else Fin y)"

section \<open>The operations the program uses\<close>

text \<open>\<open>float64(k)\<close>, \<open>x * 100\<close> and \<open>x / 100\<close>.\<close>

definition float64_of :: "i64 \<Rightarrow> float64" where
  "float64_of k = fl (of_int (sint k))"

fun times100 :: "float64 \<Rightarrow> float64" where
  "times100 (Fin x) = fl (x * 100)"
| "times100 x = x"

fun over100 :: "float64 \<Rightarrow> float64" where
  "over100 (Fin x) = fl (x / 100)"
| "over100 x = x"

text \<open>\<open>math.Round\<close>: to the nearest integer, halves away from zero.\<close>

definition round_away :: "rat \<Rightarrow> int" where
  "round_away x = (if x < 0 then - \<lfloor>- x + 1 / 2\<rfloor> else \<lfloor>x + 1 / 2\<rfloor>)"

fun math_round :: "float64 \<Rightarrow> float64" where
  "math_round (Fin x) = Fin (of_int (round_away x))"
| "math_round x = x"

text \<open>
  \<open>int64(f)\<close> truncates.  The language leaves an out-of-range value to the implementation; this is
  amd64's (the image the CI builds), which yields the least \<open>int64\<close>.
\<close>

definition trunc :: "rat \<Rightarrow> int" where
  "trunc x = (if x < 0 then - \<lfloor>- x\<rfloor> else \<lfloor>x\<rfloor>)"

fun int64_of_float :: "float64 \<Rightarrow> i64" where
  "int64_of_float (Fin x) =
     (if - (2 ^ 63) \<le> trunc x \<and> trunc x < 2 ^ 63 then word_of_int (trunc x)
      else word_of_int (- (2 ^ 63)))"
| "int64_of_float _ = word_of_int (- (2 ^ 63))"

definition Rubles :: "i64 \<Rightarrow> float64" where
  "Rubles k = over100 (float64_of k)"

definition kopecks :: "float64 \<Rightarrow> i64" where
  "kopecks rubles = int64_of_float (math_round (times100 rubles))"

section \<open>Accuracy of rounding\<close>

lemma lg_bounds: "0 < n \<Longrightarrow> 2 ^ lg n \<le> n \<and> n < 2 ^ Suc (lg n)"
proof (induction n rule: lg.induct)
  case (1 n)
  show ?case
  proof (cases "n < 2")
    case True
    with "1.prems" show ?thesis by (simp add: lg.simps [of n])
  next
    case False
    with "1.IH" have "2 ^ lg (n div 2) \<le> n div 2 \<and> n div 2 < 2 ^ Suc (lg (n div 2))"
      by simp
    then show ?thesis using False by (auto simp: lg.simps [of n])
  qed
qed

lemma lg_bounds_int:
  assumes "0 < n"
  shows "2 ^ lg (nat n) \<le> n" and "n < 2 * 2 ^ lg (nat n)"
proof -
  have "2 ^ lg (nat n) \<le> nat n \<and> nat n < 2 ^ Suc (lg (nat n))"
    using assms by (intro lg_bounds) simp
  then have "int (2 ^ lg (nat n)) \<le> int (nat n)" "int (nat n) < int (2 ^ Suc (lg (nat n)))"
    by (simp_all only: of_nat_le_iff of_nat_less_iff)
  then show "2 ^ lg (nat n) \<le> n" "n < 2 * 2 ^ lg (nat n)"
    using assms by simp_all
qed

lemma ilog2_bounds:
  assumes "0 < x"
  shows "2 powi ilog2 x \<le> x" and "x < 2 powi (ilog2 x + 1)"
proof -
  obtain n d where q: "quotient_of x = (n, d)" by force
  then have d: "0 < d" and x: "x = of_int n / of_int d"
    by (auto simp: quotient_of_denom_pos quotient_of_div)
  with assms have n: "0 < n" by (simp add: zero_less_divide_iff)
  let ?ln = "lg (nat n)" and ?ld = "lg (nat d)"
  have "(2::int) ^ ?ln \<le> n" "n < 2 * 2 ^ ?ln" "(2::int) ^ ?ld \<le> d" "d < 2 * 2 ^ ?ld"
    using lg_bounds_int n d by auto
  then have b: "(2::rat) ^ ?ln \<le> of_int n" "of_int n < (2::rat) * 2 ^ ?ln"
    "(2::rat) ^ ?ld \<le> of_int d" "of_int d < (2::rat) * 2 ^ ?ld"
    using of_int_le_iff [of "2 ^ ?ln" n, where 'a = rat] of_int_less_iff [of n "2 * 2 ^ ?ln", where 'a = rat]
      of_int_le_iff [of "2 ^ ?ld" d, where 'a = rat] of_int_less_iff [of d "2 * 2 ^ ?ld", where 'a = rat]
    by simp_all
  let ?k = "int ?ln - int ?ld"
  have pk: "(2::rat) powi ?k = 2 ^ ?ln / 2 ^ ?ld"
    by (simp add: power_int_diff)
  have pk1: "(2::rat) powi (?k + 1) = 2 * 2 ^ ?ln / 2 ^ ?ld"
    by (subst power_int_add) (simp_all add: pk)
  have pkm: "(2::rat) powi (?k - 1) = 2 ^ ?ln / (2 * 2 ^ ?ld)"
    by (subst power_int_diff) (simp_all add: pk)
  have dpos: "(0::rat) < of_int d" using d by simp
  have up: "x < 2 powi (?k + 1)"
  proof -
    have "of_int n * (2::rat) ^ ?ld < (2 * 2 ^ ?ln) * of_int d"
      using b(2,3) dpos n by (intro mult_less_le_imp_less) auto
    then show ?thesis
      using dpos by (simp only: x pk1) (simp add: field_simps)
  qed
  have lo: "2 powi (?k - 1) \<le> x"
  proof -
    have "(2::rat) ^ ?ln * of_int d \<le> of_int n * (2 * 2 ^ ?ld)"
      using b(1,4) dpos n by (intro mult_mono) auto
    then show ?thesis
      using dpos by (simp only: x pkm) (simp add: field_simps)
  qed
  show "2 powi ilog2 x \<le> x" "x < 2 powi (ilog2 x + 1)"
    using up lo by (auto simp: ilog2_def q Let_def)
qed

lemma round_even_error: "\<bar>of_int (round_even x) - x\<bar> \<le> 1 / 2"
proof -
  have "of_int \<lfloor>x\<rfloor> \<le> x" "x < of_int \<lfloor>x\<rfloor> + 1"
    using floor_correct [of x] by auto
  then show ?thesis by (auto simp: round_even_def Let_def abs_le_iff)
qed

lemma round_even_int [simp]: "round_even (of_int k) = k"
  by (simp add: round_even_def)

lemma powi_2_mono: "a \<le> b \<Longrightarrow> (2::rat) powi a \<le> 2 powi b"
  by (simp add: power_int_increasing)

lemma fl_normal:
  assumes "x \<noteq> 0" and "- 1022 \<le> ilog2 \<bar>x\<bar>" and "\<bar>x\<bar> < 2 powi 1023"
  shows "\<exists>y. fl x = Fin y \<and> \<bar>y - x\<bar> \<le> \<bar>x\<bar> * 2 powi (- 53)"
proof -
  let ?l = "ilog2 \<bar>x\<bar>" and ?e = "exponent x"
  let ?y = "of_int (round_even (x / 2 powi ?e)) * (2::rat) powi ?e"
  have e: "?e = ?l - 52" using assms(2) by (simp add: exponent_def)
  have pos: "(0::rat) < 2 powi ?e" by simp
  have "?y - x = (of_int (round_even (x / 2 powi ?e)) - x / 2 powi ?e) * 2 powi ?e"
    using pos by (simp add: left_diff_distrib)
  then have "\<bar>?y - x\<bar> = \<bar>of_int (round_even (x / 2 powi ?e)) - x / 2 powi ?e\<bar> * 2 powi ?e"
    using pos by (simp add: abs_mult)
  also have "\<dots> \<le> 1 / 2 * 2 powi ?e"
    using round_even_error pos by (intro mult_right_mono) auto
  also have "\<dots> = 2 powi ?l * 2 powi (- 53)"
    by (simp add: e power_int_diff power_int_minus)
  also have "\<dots> \<le> \<bar>x\<bar> * 2 powi (- 53)"
    using assms(1) by (intro mult_right_mono ilog2_bounds(1)) auto
  finally have err: "\<bar>?y - x\<bar> \<le> \<bar>x\<bar> * 2 powi (- 53)" .
  have "\<bar>x\<bar> * 2 powi (- 53) \<le> \<bar>x\<bar>"
    by (rule mult_left_le) simp_all
  with err have "\<bar>?y\<bar> \<le> 2 * \<bar>x\<bar>" by linarith
  also have "\<dots> < 2 powi 1024"
    using assms(3) power_int_add [of "2 :: rat" 1 1023] by simp
  finally have "fl x = Fin ?y"
    using assms(1) by (simp add: fl_def Let_def)
  with err show ?thesis by blast
qed

lemma ilog2_ge:
  assumes "2 powi k \<le> x"
  shows "k \<le> ilog2 x"
proof (rule ccontr)
  assume "\<not> k \<le> ilog2 x"
  have pos: "0 < x" using assms by (rule less_le_trans [rotated]) simp
  then have "x < 2 powi (ilog2 x + 1)" by (rule ilog2_bounds(2))
  also have "\<dots> \<le> 2 powi k" using \<open>\<not> k \<le> ilog2 x\<close> by (intro powi_2_mono) simp
  finally show False using assms by simp
qed

lemma fl_int:
  assumes "\<bar>k\<bar> < 2 ^ 53"
  shows "fl (of_int k) = Fin (of_int k)"
proof (cases "k = 0")
  case False
  let ?x = "of_int k :: rat"
  let ?e = "exponent ?x"
  have ax: "0 < \<bar>?x\<bar>" using False by simp
  have lt: "\<bar>?x\<bar> < 2 powi 53"
    using of_int_less_iff [of "\<bar>k\<bar>" "2 ^ 53", where 'a = rat] assms by simp
  have "\<not> 53 \<le> ilog2 \<bar>?x\<bar>"
    using ilog2_bounds(1) [OF ax] lt powi_2_mono [of 53 "ilog2 \<bar>?x\<bar>"] by force
  then have e: "?e \<le> 0" by (simp add: exponent_def)
  have "?x / 2 powi ?e = of_int (k * 2 ^ nat (- ?e))"
    using e by (simp add: power_int_def field_simps)
  then have y: "of_int (round_even (?x / 2 powi ?e)) * 2 powi ?e = ?x"
    by (metis div_by_0 divide_eq_eq power_int_eq_0_iff round_even_int zero_neq_numeral)
  have "\<bar>?x\<bar> < 2 powi 1024"
    using lt powi_2_mono [of 53 1024] by (rule less_le_trans) simp
  then show ?thesis
    using False by (simp add: fl_def Let_def y)
qed (simp add: fl_def)

section \<open>Converting back and forth\<close>

lemma round_away_near:
  assumes "\<bar>x - of_int k\<bar> < 1 / 2"
  shows "round_away x = k"
proof (cases "x < 0")
  from assms have near: "x - of_int k < 1 / 2" "of_int k - x < 1 / 2" by linarith+
  case True
  have "\<lfloor>- x + 1 / 2\<rfloor> = - k"
    using near by (intro floor_unique) simp_all
  with True show ?thesis by (simp add: round_away_def)
next
  from assms have near: "x - of_int k < 1 / 2" "of_int k - x < 1 / 2" by linarith+
  case False
  have "\<lfloor>x + 1 / 2\<rfloor> = k"
    using near by (intro floor_unique) simp_all
  with False show ?thesis by (simp add: round_away_def)
qed

lemma trunc_int [simp]: "trunc (of_int k) = k"
  by (simp add: trunc_def)

lemma int64_of_float_int:
  assumes "- (2 ^ 63) \<le> k" and "k < 2 ^ 63"
  shows "int64_of_float (Fin (of_int k)) = word_of_int k"
  using assms by simp

text \<open>A price of \<open>k\<close> kopecks that is within a relative \<open>2\<^sup>-\<^sup>5\<^sup>3\<close> of \<open>k / 100\<close> comes back as \<open>k\<close>.\<close>

lemma times100_near:
  assumes k: "\<bar>k\<bar> \<le> 2 ^ 50" and k0: "k \<noteq> 0"
    and a: "\<bar>a - of_int k / 100\<bar> \<le> \<bar>of_int k / 100\<bar> * 2 powi (- 53)"
  shows "int64_of_float (math_round (fl (a * 100))) = word_of_int k"
proof -
  let ?k = "of_int k :: rat" and ?u = "2 powi (- 53) :: rat"
  have K: "\<bar>?k\<bar> \<le> 2 ^ 50" "1 \<le> \<bar>?k\<bar>"
    using k k0 of_int_le_iff [of "\<bar>k\<bar>" "2 ^ 50", where 'a = rat]
      of_int_le_iff [of 1 "\<bar>k\<bar>", where 'a = rat] by simp_all
  have p: "\<bar>a * 100 - ?k\<bar> \<le> \<bar>?k\<bar> * ?u"
    using a by (simp add: abs_le_iff field_simps)
  have small: "\<bar>?k\<bar> * ?u \<le> 1 / 8"
    using K by simp
  from small p K have mag1: "1 / 2 \<le> \<bar>a * 100\<bar>" "\<bar>a * 100\<bar> \<le> 2 ^ 50 + 1 / 8"
    by linarith+
  then have mag: "1 / 2 \<le> \<bar>a * 100\<bar>" "\<bar>a * 100\<bar> \<le> 2 ^ 51" by simp_all
  have lo: "- 1022 \<le> ilog2 \<bar>a * 100\<bar>"
  proof (rule ilog2_ge)
    have "(2::rat) powi (- 1022) \<le> 2 powi (- 1)" by (rule powi_2_mono) simp
    also have "\<dots> \<le> \<bar>a * 100\<bar>" using mag by simp
    finally show "2 powi (- 1022) \<le> \<bar>a * 100\<bar>" .
  qed
  have hi: "\<bar>a * 100\<bar> < 2 powi 1023"
  proof -
    have "\<bar>a * 100\<bar> < 2 powi 52" using mag by simp
    also have "(2::rat) powi 52 \<le> 2 powi 1023" by (rule powi_2_mono) simp
    finally show ?thesis .
  qed
  from mag have "a * 100 \<noteq> 0" by auto
  from fl_normal [OF this lo hi] obtain g where g: "fl (a * 100) = Fin g"
    and ge: "\<bar>g - a * 100\<bar> \<le> \<bar>a * 100\<bar> * ?u" by blast
  have "\<bar>a * 100\<bar> * ?u \<le> 2 ^ 51 * ?u"
    using mag(2) by (rule mult_right_mono) simp
  with ge have "\<bar>g - a * 100\<bar> \<le> 1 / 4" by simp
  with p small have "\<bar>g - ?k\<bar> < 1 / 2" by linarith
  then show ?thesis
    using k by (simp add: g round_away_near del: int64_of_float.simps)
      (subst int64_of_float_int; simp add: abs_le_iff)
qed

lemma kopecks_exact:
  assumes "\<bar>sint k\<bar> \<le> 2 ^ 50"
  shows "kopecks (Rubles k) = k"
proof (cases "sint k = 0")
  case True
  then have "k = 0" by (rule sint_eq_0)
  then show ?thesis
    using round_away_near [of 0 0]
    by (simp add: kopecks_def Rubles_def float64_of_def fl_def trunc_def)
next
  case False
  define n where "n = sint k"
  have n: "\<bar>n\<bar> \<le> 2 ^ 50" "n \<noteq> 0" "word_of_int n = k"
    using assms False by (simp_all add: n_def)
  let ?x = "of_int n :: rat"
  have K: "\<bar>?x\<bar> \<le> 2 ^ 50" "1 \<le> \<bar>?x\<bar>"
    using n of_int_le_iff [of "\<bar>n\<bar>" "2 ^ 50", where 'a = rat]
      of_int_le_iff [of 1 "\<bar>n\<bar>", where 'a = rat] by simp_all
  have lo: "- 1022 \<le> ilog2 \<bar>?x / 100\<bar>"
  proof (rule ilog2_ge)
    have "(2::rat) powi (- 1022) \<le> 2 powi (- 7)" by (rule powi_2_mono) simp
    also have "\<dots> \<le> \<bar>?x / 100\<bar>" using K by simp
    finally show "2 powi (- 1022) \<le> \<bar>?x / 100\<bar>" .
  qed
  have hi: "\<bar>?x / 100\<bar> < 2 powi 1023"
  proof -
    have "\<bar>?x / 100\<bar> < 2 powi 50" using K by simp
    also have "(2::rat) powi 50 \<le> 2 powi 1023" by (rule powi_2_mono) simp
    finally show ?thesis .
  qed
  from n have "?x / 100 \<noteq> 0" by simp
  from fl_normal [OF this lo hi] obtain a where a: "fl (?x / 100) = Fin a"
    "\<bar>a - ?x / 100\<bar> \<le> \<bar>?x / 100\<bar> * 2 powi (- 53)" by blast
  have "Rubles k = over100 (fl ?x)"
    unfolding Rubles_def float64_of_def n_def ..
  also have "fl ?x = Fin ?x"
    by (rule fl_int) (use n in simp)
  finally have "kopecks (Rubles k) = int64_of_float (math_round (fl (a * 100)))"
    by (simp add: kopecks_def a)
  then show ?thesis
    using times100_near [OF n(1,2) a(2)] n(3) by simp
qed

text \<open>
  C13. Amounts survive the conversion to rubles: for every amount of at most \<open>2\<^sup>5\<^sup>0\<close> kopecks in
  absolute value (eleven trillion rubles), converting to \<open>float64\<close> rubles and back gives the same
  number of kopecks, although most such ruble values are not binary64 numbers.
\<close>

theorem kopecks_Rubles:
  assumes "\<bar>sint k\<bar> \<le> 2 ^ 50"
  shows "kopecks (Rubles k) = k"
  using assms by (rule kopecks_exact)

theorem kopecks_Rubles_witness: "kopecks (Rubles 29999) = 29999"
  by (rule kopecks_Rubles) simp

text \<open>Whole-ruble prices, the form most menus use, convert exactly.\<close>

lemma kopecks_whole:
  assumes "\<bar>n * 100\<bar> < 2 ^ 53"
  shows "kopecks (Fin (of_int n)) = word_of_int (n * 100)"
proof -
  have "fl (of_int (n * 100)) = Fin (of_int (n * 100))"
    by (rule fl_int) (use assms in simp)
  moreover have "round_away (of_int (n * 100)) = n * 100"
    by (rule round_away_near) simp
  ultimately show ?thesis
    using assms int64_of_float_int [of "n * 100"]
    by (simp add: kopecks_def abs_less_iff del: int64_of_float.simps)
qed

lemma kopecks_numeral [simp]:
  assumes "numeral n * 100 < (2::int) ^ 53"
  shows "kopecks (Fin (numeral n)) = word_of_int (numeral n * 100)"
  using kopecks_whole [of "numeral n"] assms by simp

end
