(* ===== verification/Upstream.thy ===== *)
theory Upstream
  imports Errors Money
begin

text \<open>
  The messages exchanged with the upstream services (the structs of gen/*/v1/*.pb.go, field by
  field) and the upstream services themselves.

  The services (kfc-order, kfc-loyalty, kfc-crm) are not part of the repository.  Each appears as a
  record of functions, one per client method of internal/client: a call takes its request and the
  world, and returns a result (an \<open>rpc_error\<close> or the response) and the new world.  Nothing is
  assumed of them unless a theorem says so.  Messages received from gRPC are never nil, except the
  optional sub-messages, which are options here.
\<close>

section \<open>Calls\<close>

type_synonym ('s, 'a) rpc = "'s \<Rightarrow> (rpc_error + 'a) \<times> 's"
type_synonym ('s, 'a) op = "'s \<Rightarrow> (go_error + 'a) \<times> 's"

type_synonym uuid = "128 word"

section \<open>gen/order/v1\<close>

record order_line =
  ol_Id :: string
  ol_ItemId :: string
  ol_ProductCode :: string
  ol_Name :: string
  ol_VariationId :: string
  ol_VariationName :: string
  ol_Quantity :: i32
  ol_UnitPrice :: i64
  ol_LineTotal :: i64

record order =
  o_Id :: string
  o_RestaurantId :: string
  o_Number :: i32
  o_BusinessDate :: string
  o_Channel :: string
  o_OrderType :: string
  o_Status :: string
  o_PaymentMethod :: string
  o_PaymentStatus :: string
  o_CustomerName :: string
  o_CustomerPhone :: string
  o_Note :: string
  o_DeviceId :: string
  o_Subtotal :: i64
  o_Total :: i64
  o_Currency :: string
  o_Lines :: "order_line list"
  o_CancelReason :: string
  o_CreatedAt :: i64
  o_UpdatedAt :: i64
  o_PreparingAt :: i64
  o_ReadyAt :: i64
  o_CompletedAt :: i64
  o_CancelledAt :: i64
  o_MemberId :: string
  o_Discount :: i64
  o_PointsRedeemed :: i32
  o_LoyaltyHoldId :: string

record create_order_line =
  cl_ItemId :: string
  cl_ProductCode :: string
  cl_Name :: string
  cl_VariationId :: string
  cl_VariationName :: string
  cl_Quantity :: i32
  cl_UnitPrice :: i64

record create_order_request =
  co_RestaurantId :: string
  co_Channel :: string
  co_OrderType :: string
  co_PaymentMethod :: string
  co_PaymentStatus :: string
  co_CustomerName :: string
  co_CustomerPhone :: string
  co_Note :: string
  co_DeviceId :: string
  co_Currency :: string
  co_Lines :: "create_order_line list"
  co_IdempotencyKey :: string
  co_MemberId :: string
  co_Discount :: i64
  co_PointsRedeemed :: i32
  co_LoyaltyHoldId :: string

text \<open>The zero value of the struct, from which composite literals start.\<close>

definition empty_create_order_request :: create_order_request where
  "empty_create_order_request =
     \<lparr>co_RestaurantId = '''', co_Channel = '''', co_OrderType = '''', co_PaymentMethod = '''',
      co_PaymentStatus = '''', co_CustomerName = '''', co_CustomerPhone = '''', co_Note = '''',
      co_DeviceId = '''', co_Currency = '''', co_Lines = [], co_IdempotencyKey = '''',
      co_MemberId = '''', co_Discount = 0, co_PointsRedeemed = 0, co_LoyaltyHoldId = ''''\<rparr>"

record list_orders_request =
  lo_RestaurantIds :: "string list"
  lo_Status :: string
  lo_Channel :: string
  lo_From :: i64
  lo_To :: i64
  lo_Limit :: i32
  lo_Offset :: i32
  lo_Number :: i32
  lo_MemberId :: string

record list_orders_response =
  lor_Orders :: "order list"
  lor_Total :: i32

record update_order_status_request =
  uo_Id :: string
  uo_Status :: string
  uo_Reason :: string
  uo_Actor :: string

section \<open>gen/loyalty/v1\<close>

record loyalty_program =
  lp_EarnPercent :: i32
  lp_MaxRedeemPercent :: i32
  lp_WelcomeBonus :: i32
  lp_PointValueKopecks :: i64

record loyalty_member =
  lm_Id :: string
  lm_Phone :: string
  lm_FirstName :: string
  lm_Email :: string
  lm_PointsBalance :: i32
  lm_PointsAvailable :: i32
  lm_LifetimePoints :: i32
  lm_CreatedAt :: i64

definition empty_loyalty_member :: loyalty_member where
  "empty_loyalty_member =
     \<lparr>lm_Id = '''', lm_Phone = '''', lm_FirstName = '''', lm_Email = '''', lm_PointsBalance = 0,
      lm_PointsAvailable = 0, lm_LifetimePoints = 0, lm_CreatedAt = 0\<rparr>"

record upsert_member_response =
  um_Member :: "loyalty_member option"
  um_Created :: bool

record loyalty_transaction =
  lt_Id :: string
  lt_Type :: string
  lt_Points :: i32
  lt_BalanceAfter :: i32
  lt_OrderId :: string
  lt_OrderNumber :: i32
  lt_RestaurantId :: string
  lt_Description :: string
  lt_CreatedAt :: i64

record list_transactions_response =
  ltr_Transactions :: "loyalty_transaction list"
  ltr_Total :: i32

record issued_member_code =
  mc_Code :: string
  mc_ExpiresAt :: i64

record loyalty_hold =
  lh_Id :: string
  lh_MemberId :: string
  lh_Points :: i32
  lh_Status :: string
  lh_OrderId :: string
  lh_ExpiresAt :: i64

record reserve_points_request =
  rp_MemberId :: string
  rp_Points :: i32
  rp_Reference :: string
  rp_OrderSubtotal :: i64

record commit_hold_request =
  ch_HoldId :: string
  ch_OrderId :: string
  ch_OrderNumber :: i32
  ch_RestaurantId :: string

section \<open>gen/menu/v1 and gen/restaurant/v1\<close>

record promotion =
  pr_Id :: string
  pr_Name :: string
  pr_DiscountType :: string
  pr_DiscountValue :: float64
  pr_OriginalPrice :: float64
  pr_DiscountedPrice :: float64
  pr_EndsAt :: i64

record variation =
  v_Id :: string
  v_Name :: string
  v_PriceDelta :: float64
  v_FinalPrice :: float64
  v_IsDefault :: bool
  v_SortOrder :: i32

record item =
  it_Id :: string
  it_ProductCode :: string
  it_Name :: string
  it_Description :: string
  it_ImageUrl :: string
  it_BasePrice :: float64
  it_FinalPrice :: float64
  it_Currency :: string
  it_IsAvailable :: bool
  it_SortOrder :: i32
  it_Promotion :: "promotion option"
  it_Variations :: "variation list"

record category =
  cat_Id :: string
  cat_Name :: string
  cat_Code :: string
  cat_ImageUrl :: string
  cat_SortOrder :: i32
  cat_Items :: "item list"

record menu =
  menu_RestaurantId :: string
  menu_GeneratedAt :: i64
  menu_Currency :: string
  menu_Categories :: "category list"
  menu_SchemaVersion :: "32 word"
  menu_ValidUntil :: i64

record region =
  rg_Id :: string
  rg_Name :: string
  rg_Code :: string
  rg_Timezone :: string
  rg_RestaurantCount :: i32

record restaurant =
  rs_Id :: string
  rs_Name :: string
  rs_Code :: string
  rs_RegionId :: string
  rs_RegionName :: string
  rs_Address :: string
  rs_City :: string
  rs_Phone :: string
  rs_Timezone :: string

section \<open>The client methods (internal/client)\<close>

record 's orders_api =
  CreateOrder :: "create_order_request \<Rightarrow> ('s, order) rpc"
  GetOrder :: "string \<Rightarrow> ('s, order) rpc"
  ListActiveOrders :: "string \<Rightarrow> string list \<Rightarrow> ('s, order list) rpc"
  ListOrders :: "list_orders_request \<Rightarrow> ('s, list_orders_response) rpc"
  UpdateOrderStatus :: "update_order_status_request \<Rightarrow> ('s, order) rpc"

record 's loyalty_api =
  GetProgram :: "('s, loyalty_program) rpc"
  GetMember :: "string \<Rightarrow> ('s, loyalty_member) rpc"
  UpsertMemberByPhone :: "string \<Rightarrow> string \<Rightarrow> ('s, upsert_member_response) rpc"
  UpdateMember :: "string \<Rightarrow> string \<Rightarrow> string \<Rightarrow> ('s, loyalty_member) rpc"
  ListTransactions :: "string \<Rightarrow> i32 \<Rightarrow> i32 \<Rightarrow> ('s, list_transactions_response) rpc"
  IssueMemberCode :: "string \<Rightarrow> ('s, issued_member_code) rpc"
  ResolveMemberCode :: "string \<Rightarrow> ('s, loyalty_member) rpc"
  ReservePoints :: "reserve_points_request \<Rightarrow> ('s, loyalty_hold) rpc"
  CommitHold :: "commit_hold_request \<Rightarrow> ('s, loyalty_hold) rpc"
  ReleaseHold :: "string \<Rightarrow> ('s, loyalty_hold) rpc"

record 's crm_api =
  crm_GetEffectiveMenu :: "string \<Rightarrow> ('s, menu) rpc"
  crm_ListRegions :: "('s, region list) rpc"
  crm_ListRestaurants :: "string \<Rightarrow> ('s, restaurant list) rpc"
  crm_GetRestaurant :: "string \<Rightarrow> ('s, restaurant) rpc"

end
