(* ===== verification/Redis.thy ===== *)
theory Redis
  imports Errors
begin

text \<open>
  Redis and go-redis, which are not part of the repository.  A client is a record of three functions
  (one command, a pipeline, a transaction) over the world; the program sees only those.  What the
  Redis documentation says of the commands used is a database with expiring keys and the relation
  \<open>answered\<close>; \<open>redis_ok\<close> says that a client behaves so, with the database changed by this program
  only, and is a named hypothesis of the theorems that need it.  A command may also fail without
  effect, or take effect with its answer lost.

  The second half holds pkg/cache/redis.go, the wrapper the repositories use.
\<close>

section \<open>Commands\<close>

datatype cmd =
    GET string | SET string string int | DEL "string list" | EXISTS string | INCR string
  | EXPIRENX string int | EXPIRE string int | TTL string | SADD string "string list"
  | SREM string string | SMEMBERS string | GETDEL string | MGET "string list"
  | SCAN nat string nat | PING

datatype reply =
    RNil | RBulk string | RInt int | RList "string option list" | RScan "string list" nat | ROk

record 's redis =
  rd :: "cmd \<Rightarrow> 's \<Rightarrow> (string + reply) \<times> 's"
  rd_pipe :: "cmd list \<Rightarrow> 's \<Rightarrow> (string + reply) list \<times> 's"
  rd_tx :: "cmd list \<Rightarrow> 's \<Rightarrow> (string + reply) list \<times> 's"

section \<open>The documented behaviour\<close>

datatype stored = VStr string | VSet "string list"

text \<open>
  Keys with their values and expiry times, the clock (nanoseconds), and for each open cursor of a
  SCAN the keys it still owes.
\<close>

record redis_db =
  now :: int
  data :: "(string \<times> stored \<times> int option) list"
  owed :: "nat \<Rightarrow> string set"

definition millisecond :: int where "millisecond = 1000000"
definition second :: int where "second = 1000000000"
definition minute :: int where "minute = 60000000000"
definition hour :: int where "hour = 3600000000000"

lemmas duration_defs = millisecond_def second_def minute_def hour_def

text \<open>go-redis sends a duration of a SET in milliseconds or seconds, of an EXPIRE in seconds.\<close>

definition in_millis :: "int \<Rightarrow> int" where
  "in_millis d = (if d < millisecond then millisecond else d div millisecond * millisecond)"

definition in_seconds :: "int \<Rightarrow> int" where
  "in_seconds d = (if 0 < d \<and> d < second then second else d div second * second)"

definition entry :: "redis_db \<Rightarrow> string \<rightharpoonup> stored \<times> int option" where
  "entry d = map_of (data d)"

definition live :: "redis_db \<Rightarrow> string \<Rightarrow> stored option" where
  "live d k =
     (case entry d k of
        None \<Rightarrow> None
      | Some (v, None) \<Rightarrow> Some v
      | Some (v, Some e) \<Rightarrow> if now d < e then Some v else None)"

definition expiry :: "redis_db \<Rightarrow> string \<Rightarrow> int option" where
  "expiry d k = (case entry d k of None \<Rightarrow> None | Some (_, e) \<Rightarrow> e)"

definition put :: "string \<Rightarrow> stored \<Rightarrow> int option \<Rightarrow> redis_db \<Rightarrow> redis_db" where
  "put k v e d = d\<lparr>data := (k, v, e) # filter (\<lambda>x. fst x \<noteq> k) (data d)\<rparr>"

definition drop_keys :: "string list \<Rightarrow> redis_db \<Rightarrow> redis_db" where
  "drop_keys ks d = d\<lparr>data := filter (\<lambda>x. fst x \<notin> set ks) (data d)\<rparr>"

definition wrong_type :: string where
  "wrong_type = ''WRONGTYPE Operation against a key holding the wrong kind of value''"

text \<open>The integer a counter holds is written in decimal; the parser and printer belong to Redis.\<close>

fun digits :: "nat \<Rightarrow> string" where
  "digits n = (if n < 10 then [char_of (48 + n)] else digits (n div 10) @ [char_of (48 + n mod 10)])"

declare digits.simps [simp del]

fun undigits :: "nat \<Rightarrow> string \<Rightarrow> nat option" where
  "undigits acc [] = Some acc"
| "undigits acc (c # cs) = (if is_digit c then undigits (acc * 10 + (of_char c - 48)) cs else None)"

fun insert_new :: "string list \<Rightarrow> string list \<Rightarrow> string list" where
  "insert_new [] xs = xs"
| "insert_new (v # vs) xs = insert_new vs (if v \<in> set xs then xs else xs @ [v])"

fun exec :: "cmd \<Rightarrow> redis_db \<Rightarrow> (string + reply) \<times> redis_db" where
  "exec (GET k) d =
     (case live d k of
        None \<Rightarrow> (Inr RNil, d) | Some (VStr v) \<Rightarrow> (Inr (RBulk v), d) | Some _ \<Rightarrow> (Inl wrong_type, d))"
| "exec (SET k v ttl) d =
     (Inr ROk, put k (VStr v) (if ttl \<le> 0 then None else Some (now d + in_millis ttl)) d)"
| "exec (DEL ks) d = (Inr (RInt (int (length (filter (\<lambda>k. live d k \<noteq> None) (remdups ks))))), drop_keys ks d)"
| "exec (EXISTS k) d = (Inr (RInt (if live d k = None then 0 else 1)), d)"
| "exec (INCR k) d =
     (case live d k of
        None \<Rightarrow> (Inr (RInt 1), put k (VStr (digits 1)) None d)
      | Some (VStr v) \<Rightarrow>
          (case (if v = '''' then None else undigits 0 v) of
             None \<Rightarrow> (Inl ''ERR value is not an integer or out of range'', d)
           | Some n \<Rightarrow>
               if 9223372036854775807 \<le> n then (Inl ''ERR increment or decrement would overflow'', d)
               else (Inr (RInt (int n + 1)), put k (VStr (digits (n + 1))) (expiry d k) d))
      | Some _ \<Rightarrow> (Inl wrong_type, d))"
| "exec (EXPIRENX k ttl) d =
     (case live d k of
        None \<Rightarrow> (Inr (RInt 0), d)
      | Some v \<Rightarrow>
          if expiry d k \<noteq> None then (Inr (RInt 0), d)
          else if in_seconds ttl \<le> 0 then (Inr (RInt 1), drop_keys [k] d)
          else (Inr (RInt 1), put k v (Some (now d + in_seconds ttl)) d))"
| "exec (EXPIRE k ttl) d =
     (case live d k of
        None \<Rightarrow> (Inr (RInt 0), d)
      | Some v \<Rightarrow>
          if in_seconds ttl \<le> 0 then (Inr (RInt 1), drop_keys [k] d)
          else (Inr (RInt 1), put k v (Some (now d + in_seconds ttl)) d))"
| "exec (TTL k) d =
     (case live d k of
        None \<Rightarrow> (Inr (RInt (-2)), d)
      | Some _ \<Rightarrow>
          (case expiry d k of
             None \<Rightarrow> (Inr (RInt (-1)), d)
           | Some e \<Rightarrow> (Inr (RInt ((e - now d + second div 2) div second)), d)))"
| "exec (SADD k vs) d =
     (case live d k of
        None \<Rightarrow> (Inr (RInt (int (length (insert_new vs [])))), put k (VSet (insert_new vs [])) None d)
      | Some (VSet xs) \<Rightarrow>
          (Inr (RInt (int (length (insert_new vs xs)) - int (length xs))),
           put k (VSet (insert_new vs xs)) (expiry d k) d)
      | Some _ \<Rightarrow> (Inl wrong_type, d))"
| "exec (SREM k v) d =
     (case live d k of
        None \<Rightarrow> (Inr (RInt 0), d)
      | Some (VSet xs) \<Rightarrow>
          if v \<notin> set xs then (Inr (RInt 0), d)
          else if removeAll v xs = [] then (Inr (RInt 1), drop_keys [k] d)
          else (Inr (RInt 1), put k (VSet (removeAll v xs)) (expiry d k) d)
      | Some _ \<Rightarrow> (Inl wrong_type, d))"
| "exec (SMEMBERS k) d =
     (case live d k of
        None \<Rightarrow> (Inr (RList []), d)
      | Some (VSet xs) \<Rightarrow> (Inr (RList (map Some xs)), d)
      | Some _ \<Rightarrow> (Inl wrong_type, d))"
| "exec (GETDEL k) d =
     (case live d k of
        None \<Rightarrow> (Inr RNil, d)
      | Some (VStr v) \<Rightarrow> (Inr (RBulk v), drop_keys [k] d)
      | Some _ \<Rightarrow> (Inl wrong_type, d))"
| "exec (MGET ks) d =
     (Inr (RList (map (\<lambda>k. case live d k of Some (VStr v) \<Rightarrow> Some v | _ \<Rightarrow> None) ks)), d)"
| "exec (SCAN c p n) d = (Inl ''unspecified'', d)"
| "exec PING d = (Inr (RBulk ''PONG''), d)"

text \<open>
  SCAN with a pattern "prefix*" returns some of the live keys with that prefix and a cursor; cursor
  0 ends the iteration, which by then has returned every key that was live throughout.
\<close>

definition scan_answer ::
  "nat \<Rightarrow> string \<Rightarrow> redis_db \<Rightarrow> (string + reply) \<Rightarrow> redis_db \<Rightarrow> bool" where
  "scan_answer c pat d r d' \<longleftrightarrow>
     (\<exists>ks next. r = Inr (RScan ks next)
        \<and> (\<forall>k \<in> set ks. live d k \<noteq> None \<and> has_prefix (butlast pat) k)
        \<and> (let open_keys = {k. has_prefix (butlast pat) k \<and> (c = 0 \<or> k \<in> owed d c)}
           in if next = 0 then d' = d \<and> {k \<in> open_keys. live d k \<noteq> None} \<subseteq> set ks
              else d' = d\<lparr>owed := (owed d)(next := {k \<in> open_keys. live d k \<noteq> None} - set ks)\<rparr>))"

fun answered :: "cmd \<Rightarrow> redis_db \<Rightarrow> (string + reply) \<Rightarrow> redis_db \<Rightarrow> bool" where
  "answered (SCAN c pat n) d r d' = scan_answer c pat d r d'"
| "answered c d r d' \<longleftrightarrow> exec c d = (r, d')"

definition at_time :: "int \<Rightarrow> redis_db \<Rightarrow> redis_db" where
  "at_time t d = d\<lparr>now := t\<rparr>"

text \<open>One command: executed at some later moment, or failed, having been executed or not.\<close>

definition served :: "cmd \<Rightarrow> redis_db \<Rightarrow> (string + reply) \<Rightarrow> redis_db \<Rightarrow> bool" where
  "served c d r d' \<longleftrightarrow>
     (\<exists>t \<ge> now d. answered c (at_time t d) r d'
        \<or> (\<exists>e. r = Inl e) \<and> (d' = at_time t d \<or> (\<exists>r'. answered c (at_time t d) r' d')))"

fun served_all :: "cmd list \<Rightarrow> redis_db \<Rightarrow> (string + reply) list \<Rightarrow> redis_db \<Rightarrow> bool" where
  "served_all [] d rs d' \<longleftrightarrow> rs = [] \<and> (\<exists>t \<ge> now d. d' = at_time t d)"
| "served_all (c # cs) d rs d' \<longleftrightarrow>
     (\<exists>r rs' d1. rs = r # rs' \<and> served c d r d1 \<and> served_all cs d1 rs' d')"

fun exec_all :: "cmd list \<Rightarrow> redis_db \<Rightarrow> (string + reply) list \<times> redis_db" where
  "exec_all [] d = ([], d)"
| "exec_all (c # cs) d =
     (case exec c d of (r, d1) \<Rightarrow> case exec_all cs d1 of (rs, d2) \<Rightarrow> (r # rs, d2))"

text \<open>A transaction is executed as one step (by the commands other than SCAN), or fails whole.\<close>

definition served_tx :: "cmd list \<Rightarrow> redis_db \<Rightarrow> (string + reply) list \<Rightarrow> redis_db \<Rightarrow> bool" where
  "served_tx cs d rs d' \<longleftrightarrow>
     (\<exists>t \<ge> now d. exec_all cs (at_time t d) = (rs, d')
        \<or> (length rs = length cs \<and> (\<forall>r \<in> set rs. \<exists>e. r = Inl e)
           \<and> (d' = at_time t d \<or> (\<exists>rs'. exec_all cs (at_time t d) = (rs', d')))))"

definition redis_ok :: "'s redis \<Rightarrow> ('s \<Rightarrow> redis_db) \<Rightarrow> bool" where
  "redis_ok R db \<longleftrightarrow>
     (\<forall>c s. served c (db s) (fst (rd R c s)) (db (snd (rd R c s))))
     \<and> (\<forall>cs s. served_all cs (db s) (fst (rd_pipe R cs s)) (db (snd (rd_pipe R cs s))))
     \<and> (\<forall>cs s. served_tx cs (db s) (fst (rd_tx R cs s)) (db (snd (rd_tx R cs s))))"

section \<open>Facts about the database\<close>

lemma entry_put [simp]: "entry (put k v e d) = (entry d)(k \<mapsto> (v, e))"
  by (auto simp: entry_def put_def map_of_filter_fst [of "\<lambda>k'. k' \<noteq> k"])

lemma entry_drop_keys [simp]:
  "entry (drop_keys ks d) k = (if k \<in> set ks then None else entry d k)"
  by (simp add: entry_def drop_keys_def map_of_filter_fst [of "\<lambda>k'. k' \<notin> set ks"])

lemma now_put [simp]: "now (put k v e d) = now d"
  by (simp add: put_def)

lemma now_drop_keys [simp]: "now (drop_keys ks d) = now d"
  by (simp add: drop_keys_def)

lemma now_at_time [simp]: "now (at_time t d) = t"
  by (simp add: at_time_def)

lemma entry_at_time [simp]: "entry (at_time t d) = entry d"
  by (simp add: entry_def at_time_def)

lemma live_put [simp]:
  "live (put k v None d) k' = (if k' = k then Some v else live d k')"
  "live (put k v (Some e) d) k' =
     (if k' = k then (if now d < e then Some v else None) else live d k')"
  by (auto simp: live_def split: option.split)

lemma live_drop_keys [simp]: "live (drop_keys ks d) k = (if k \<in> set ks then None else live d k)"
  by (auto simp: live_def split: option.split)

lemma expiry_put [simp]: "expiry (put k v e d) k' = (if k' = k then e else expiry d k')"
  by (simp add: expiry_def)

lemma expiry_drop_keys [simp]: "expiry (drop_keys ks d) k = (if k \<in> set ks then None else expiry d k)"
  by (simp add: expiry_def)

lemma expiry_at_time [simp]: "expiry (at_time t d) k = expiry d k"
  by (simp add: expiry_def)

lemma live_at_time: "live (at_time t d) k =
    (case entry d k of None \<Rightarrow> None | Some (v, None) \<Rightarrow> Some v
     | Some (v, Some e) \<Rightarrow> if t < e then Some v else None)"
  by (auto simp: live_def split: option.split)

lemma live_later: "live (at_time t d) k = Some v \<Longrightarrow> now d \<le> t \<Longrightarrow> live d k = Some v"
  by (auto simp: live_at_time live_def split: option.splits if_splits)

lemma dead_later: "live d k = None \<Longrightarrow> now d \<le> t \<Longrightarrow> live (at_time t d) k = None"
  using live_later [of t d k] by (cases "live (at_time t d) k") auto

lemma live_until:
  "live d k = Some v \<Longrightarrow> (\<And>e. expiry d k = Some e \<Longrightarrow> t < e) \<Longrightarrow> live (at_time t d) k = Some v"
  by (auto simp: live_at_time live_def expiry_def split: option.splits if_splits)

lemma in_millis_pos: "0 < in_millis d"
  by (auto simp: in_millis_def millisecond_def pos_imp_zdiv_pos_iff)

lemma in_millis_le: "0 < d \<Longrightarrow> in_millis d \<le> max d millisecond"
  using div_mult_mod_eq [of d millisecond] pos_mod_sign [of millisecond d]
  by (auto simp: in_millis_def millisecond_def max_def)

lemma in_seconds_pos: "0 < d \<Longrightarrow> 0 < in_seconds d"
  by (auto simp: in_seconds_def second_def pos_imp_zdiv_pos_iff)

section \<open>Answers\<close>

text \<open>\<open>redis.Nil\<close> and the typed results of go-redis.\<close>

definition redis_Nil :: string where
  "redis_Nil = ''redis: nil''"

definition is_nil :: "go_error \<Rightarrow> bool" where
  "is_nil e \<longleftrightarrow> e = Sentinel redis_Nil"

definition odd_reply :: go_error where
  "odd_reply = Text ''redis: unexpected type''"

fun as_bulk :: "string + reply \<Rightarrow> go_error + string" where
  "as_bulk (Inl e) = Inl (Text e)"
| "as_bulk (Inr (RBulk v)) = Inr v"
| "as_bulk (Inr RNil) = Inl (Sentinel redis_Nil)"
| "as_bulk (Inr _) = Inl odd_reply"

fun as_int :: "string + reply \<Rightarrow> go_error + int" where
  "as_int (Inl e) = Inl (Text e)"
| "as_int (Inr (RInt n)) = Inr n"
| "as_int (Inr RNil) = Inl (Sentinel redis_Nil)"
| "as_int (Inr _) = Inl odd_reply"

fun as_ok :: "string + reply \<Rightarrow> go_error + unit" where
  "as_ok (Inl e) = Inl (Text e)"
| "as_ok (Inr ROk) = Inr ()"
| "as_ok (Inr RNil) = Inl (Sentinel redis_Nil)"
| "as_ok (Inr _) = Inl odd_reply"

fun as_list :: "string + reply \<Rightarrow> go_error + string option list" where
  "as_list (Inl e) = Inl (Text e)"
| "as_list (Inr (RList xs)) = Inr xs"
| "as_list (Inr RNil) = Inl (Sentinel redis_Nil)"
| "as_list (Inr _) = Inl odd_reply"

fun as_scan :: "string + reply \<Rightarrow> go_error + (string list \<times> nat)" where
  "as_scan (Inl e) = Inl (Text e)"
| "as_scan (Inr (RScan ks next)) = Inr (ks, next)"
| "as_scan (Inr RNil) = Inl (Sentinel redis_Nil)"
| "as_scan (Inr _) = Inl odd_reply"

text \<open>The error of a pipeline is the error of its first command that failed, or was nil.\<close>

fun pipe_error :: "(string + reply) list \<Rightarrow> go_error option" where
  "pipe_error [] = None"
| "pipe_error (Inl e # rs) = Some (Text e)"
| "pipe_error (Inr RNil # rs) = Some (Sentinel redis_Nil)"
| "pipe_error (Inr _ # rs) = pipe_error rs"

text \<open>A client whose commands go through \<open>rd\<close>, as \<open>op\<close> of a given reading of the reply.\<close>

definition ask :: "'s redis \<Rightarrow> cmd \<Rightarrow> (string + reply \<Rightarrow> 'a) \<Rightarrow> 's \<Rightarrow> 'a \<times> 's" where
  "ask R c f s = (case rd R c s of (r, s1) \<Rightarrow> (f r, s1))"

lemma ask_simps [simp]:
  "fst (ask R c f s) = f (fst (rd R c s))"
  "snd (ask R c f s) = snd (rd R c s)"
  by (simp_all add: ask_def split_beta)

section \<open>pkg/cache/redis.go\<close>

text \<open>
  \<open>None\<close> is the nil slice of a missing key.  The keys quoted into the error texts (%q) are left out.
\<close>

definition GetBytes :: "'s redis \<Rightarrow> string \<Rightarrow> 's \<Rightarrow> (go_error + string option) \<times> 's" where
  "GetBytes R key s =
     (case ask R (GET key) as_bulk s of
        (Inr v, s1) \<Rightarrow> (Inr (Some v), s1)
      | (Inl e, s1) \<Rightarrow>
          if is_nil e then (Inr None, s1) else (Inl (Wrapped ''redis get'' e), s1))"

definition SetBytes :: "'s redis \<Rightarrow> string \<Rightarrow> string \<Rightarrow> int \<Rightarrow> 's \<Rightarrow> (go_error + unit) \<times> 's" where
  "SetBytes R key v ttl s =
     (case ask R (SET key v ttl) as_ok s of
        (Inr _, s1) \<Rightarrow> (Inr (), s1)
      | (Inl e, s1) \<Rightarrow> (Inl (Wrapped ''redis set'' e), s1))"

definition Del :: "'s redis \<Rightarrow> string list \<Rightarrow> 's \<Rightarrow> (go_error + unit) \<times> 's" where
  "Del R keys s =
     (if keys = [] then (Inr (), s)
      else case ask R (DEL keys) as_int s of
             (Inr _, s1) \<Rightarrow> (Inr (), s1)
           | (Inl e, s1) \<Rightarrow> (Inl (Wrapped ''redis del'' e), s1))"

section \<open>What a client that behaves as documented gives\<close>

lemma redis_ok_rd: "redis_ok R db \<Longrightarrow> served c (db s) (fst (rd R c s)) (db (snd (rd R c s)))"
  by (simp add: redis_ok_def)

lemma redis_ok_pipe:
  "redis_ok R db \<Longrightarrow> served_all cs (db s) (fst (rd_pipe R cs s)) (db (snd (rd_pipe R cs s)))"
  by (simp add: redis_ok_def)

lemma redis_ok_tx:
  "redis_ok R db \<Longrightarrow> served_tx cs (db s) (fst (rd_tx R cs s)) (db (snd (rd_tx R cs s)))"
  by (simp add: redis_ok_def)

fun is_scan :: "cmd \<Rightarrow> bool" where
  "is_scan (SCAN _ _ _) = True"
| "is_scan _ = False"

lemma answered_exec: "\<not> is_scan c \<Longrightarrow> answered c d r d' \<longleftrightarrow> exec c d = (r, d')"
  by (cases c) auto

text \<open>
  A command that is not a SCAN was executed at some moment \<open>t\<close> or had no effect; a proper answer is
  the answer of the execution.
\<close>

lemma served_cases:
  assumes "served c d r d'" and "\<not> is_scan c"
  obtains (executed) t where "now d \<le> t" and "exec c (at_time t d) = (r, d')"
    | (lost) t e where "now d \<le> t" and "r = Inl e" and "d' = snd (exec c (at_time t d))"
    | (refused) t e where "now d \<le> t" and "r = Inl e" and "d' = at_time t d"
  using assms by (auto simp: served_def answered_exec)

lemma served_Inr:
  assumes "served c d (Inr x) d'" and "\<not> is_scan c"
  obtains t where "now d \<le> t" and "exec c (at_time t d) = (Inr x, d')"
  using assms by (auto elim: served_cases)

text \<open>Without a SCAN nothing ever comes back once it has expired or been deleted, unless written.\<close>

fun writes :: "cmd \<Rightarrow> string set" where
  "writes (SET k _ _) = {k}"
| "writes (INCR k) = {k}"
| "writes (EXPIRENX k _) = {k}"
| "writes (EXPIRE k _) = {k}"
| "writes (SADD k _) = {k}"
| "writes (SREM k _) = {k}"
| "writes (GETDEL k) = {k}"
| "writes (DEL ks) = set ks"
| "writes _ = {}"

lemma exec_entry:
  "k \<notin> writes c \<Longrightarrow> \<not> is_scan c \<Longrightarrow> entry (snd (exec c d)) k = entry d k \<and> now (snd (exec c d)) = now d"
  by (cases c) (auto split: option.split stored.split)

lemma exec_now: "\<not> is_scan c \<Longrightarrow> now (snd (exec c d)) = now d"
  by (cases c) (auto split: option.split stored.split)

lemma served_entry:
  assumes "served c d r d'" and "\<not> is_scan c" and "k \<notin> writes c"
  shows "entry d' k = entry d k \<and> now d \<le> now d'"
  using assms(1,2)
proof (cases rule: served_cases)
  case (executed t)
  then show ?thesis using exec_entry [OF assms(3,2), of "at_time t d"] by simp
next
  case (lost t e)
  then show ?thesis using exec_entry [OF assms(3,2), of "at_time t d"] by simp
qed simp

lemma answered_now: "answered c d r d' \<Longrightarrow> now d' = now d"
proof (cases "is_scan c")
  case True
  then show "answered c d r d' \<Longrightarrow> now d' = now d"
    by (auto simp: scan_answer_def Let_def elim!: is_scan.elims split: if_splits)
next
  case False
  then show "answered c d r d' \<Longrightarrow> now d' = now d"
    using exec_now [of c d] by (simp add: answered_exec)
qed

lemma served_now: "served c d r d' \<Longrightarrow> now d \<le> now d'"
  by (auto simp: served_def dest!: answered_now)

lemma live_entry: "entry d' k = entry d k \<Longrightarrow> now d \<le> now d' \<Longrightarrow> live d' k = Some v \<Longrightarrow> live d k = Some v"
  by (auto simp: live_def split: option.splits if_splits)

section \<open>The clock\<close>

text \<open>
  \<open>time.Now\<close> is a function of the world; \<open>clock_ok\<close> says that the program's clock and Redis's agree
  and do not go back.
\<close>

type_synonym 's clock = "'s \<Rightarrow> int \<times> 's"

definition clock_ok :: "'s clock \<Rightarrow> ('s \<Rightarrow> redis_db) \<Rightarrow> bool" where
  "clock_ok C db \<longleftrightarrow>
     (\<forall>s. now (db s) \<le> fst (C s) \<and> db (snd (C s)) = at_time (fst (C s)) (db s))"

lemma clock_okD:
  "clock_ok C db \<Longrightarrow> C s = (t, s1) \<Longrightarrow> now (db s) \<le> t \<and> db s1 = at_time t (db s)"
  by (metis clock_ok_def fst_conv snd_conv)

section \<open>A client that behaves as documented\<close>

text \<open>The world is the database; a SCAN returns everything at once.  Used by the witnesses.\<close>

fun ref_rd :: "cmd \<Rightarrow> redis_db \<Rightarrow> (string + reply) \<times> redis_db" where
  "ref_rd (SCAN c pat n) d =
     (Inr (RScan (filter (\<lambda>k. has_prefix (butlast pat) k \<and> live d k \<noteq> None) (map fst (data d))) 0), d)"
| "ref_rd c d = exec c d"

fun ref_all :: "cmd list \<Rightarrow> redis_db \<Rightarrow> (string + reply) list \<times> redis_db" where
  "ref_all [] d = ([], d)"
| "ref_all (c # cs) d =
     (case ref_rd c d of (r, d1) \<Rightarrow> case ref_all cs d1 of (rs, d2) \<Rightarrow> (r # rs, d2))"

definition ref_redis :: "redis_db redis" where
  "ref_redis = \<lparr>rd = ref_rd, rd_pipe = ref_all, rd_tx = exec_all\<rparr>"

definition ref_clock :: "redis_db clock" where
  "ref_clock d = (now d, d)"

definition empty_db :: "int \<Rightarrow> redis_db" where
  "empty_db t = \<lparr>now = t, data = [], owed = (\<lambda>_. {})\<rparr>"

lemma at_time_now [simp]: "at_time (now d) d = d"
  by (simp add: at_time_def)

lemma live_in_data: "live d k = Some v \<Longrightarrow> k \<in> fst ` set (data d)"
  by (auto simp: live_def entry_def split: option.splits dest!: map_of_SomeD intro: rev_image_eqI)

lemma ref_rd_answered: "answered c d (fst (ref_rd c d)) (snd (ref_rd c d))"
proof (cases "is_scan c")
  case True
  then show ?thesis
    by (auto simp: scan_answer_def Let_def intro!: live_in_data elim!: is_scan.elims)
next
  case False
  then have "ref_rd c d = exec c d" by (cases c) auto
  with False show ?thesis by (simp add: answered_exec)
qed

lemma ref_all_served: "served_all cs d (fst (ref_all cs d)) (snd (ref_all cs d))"
proof (induction cs arbitrary: d)
  case Nil
  show ?case by (simp add: exI [of _ "now d"])
next
  case (Cons c cs)
  have "served c d (fst (ref_rd c d)) (snd (ref_rd c d))"
    using ref_rd_answered [of c d] by (auto simp: served_def intro: exI [of _ "now d"])
  with Cons [of "snd (ref_rd c d)"] show ?case
    by (auto simp: split_beta)
qed

lemma ref_redis_ok: "redis_ok ref_redis id"
  using ref_rd_answered ref_all_served
  by (auto simp: redis_ok_def ref_redis_def served_def served_tx_def intro!: exI [of _ "now _"])

lemma ref_clock_ok: "clock_ok ref_clock id"
  by (simp add: clock_ok_def ref_clock_def)

end
