(* ===== verification/Platform.thy ===== *)
theory Platform
  imports Upstream Redis
begin

text \<open>
  What the program takes from its surroundings besides gRPC and Redis: the clock, randomness,
  google/uuid, golang.org/x/crypto/bcrypt, golang-jwt and the digests of crypto/sha256.  The
  functions are parameters (fields of a record); \<open>platform_ok\<close> collects what their documentation
  says, as far as the theorems use it.
\<close>

section \<open>The record\<close>

record 's platform =
  Now :: "'s clock"
  uuid_String :: "uuid \<Rightarrow> string"
  uuid_Parse :: "string \<Rightarrow> go_error + uuid"
  uuid_NewString :: "'s \<Rightarrow> string \<times> 's"
  bcrypt_Generate :: "string \<Rightarrow> 's \<Rightarrow> (go_error + string) \<times> 's"
  bcrypt_Compare :: "string \<Rightarrow> string \<Rightarrow> go_error option"
  rand_digit :: "'s \<Rightarrow> (go_error + nat) \<times> 's"
  rand_Read :: "nat \<Rightarrow> 's \<Rightarrow> (go_error + string) \<times> 's"
  sha256 :: "string \<Rightarrow> string"
  hmac_sha256 :: "string \<Rightarrow> string \<Rightarrow> string"

section \<open>Time\<close>

text \<open>\<open>time.Until\<close>: the difference of two instants as a \<open>time.Duration\<close>, which saturates at 64 bits.\<close>

definition until :: "int \<Rightarrow> int \<Rightarrow> int" where
  "until e t = max (- (2 ^ 63)) (min (2 ^ 63 - 1) (e - t))"

lemma until_pos: "0 < until e t \<longleftrightarrow> t < e"
  by (auto simp: until_def)

lemma until_le: "0 < until e t \<Longrightarrow> until e t \<le> e - t"
  by (auto simp: until_def)

text \<open>\<open>time.Time.Unix\<close>: whole seconds since the epoch (rounded down).\<close>

definition unix :: "int \<Rightarrow> int" where
  "unix t = t div second"

section \<open>Hypotheses\<close>

text \<open>Calls that have nothing to do with Redis leave it alone, but take time.\<close>

definition aside :: "('s \<Rightarrow> redis_db) \<Rightarrow> ('s \<Rightarrow> 'a \<times> 's) \<Rightarrow> bool" where
  "aside db f \<longleftrightarrow> (\<forall>s. \<exists>t \<ge> now (db s). db (snd (f s)) = at_time t (db s))"

text \<open>Strings of ASCII characters.\<close>

definition plain :: "string \<Rightarrow> bool" where
  "plain s \<longleftrightarrow> (\<forall>c \<in> set s. (of_char c :: nat) < 128)"

definition platform_ok :: "'s platform \<Rightarrow> ('s \<Rightarrow> redis_db) \<Rightarrow> bool" where
  "platform_ok P db \<longleftrightarrow>
     clock_ok (Now P) db
     \<and> inj (uuid_String P) \<and> (\<forall>u. uuid_Parse P (uuid_String P u) = Inr u)
     \<and> (\<forall>u. plain (uuid_String P u)) \<and> (\<forall>s. plain (fst (uuid_NewString P s)))
     \<and> aside db (uuid_NewString P)
     \<and> (\<forall>pw. aside db (bcrypt_Generate P pw))
     \<and> (\<forall>pw h s. fst (bcrypt_Generate P pw s) = Inr h \<longrightarrow> h \<noteq> '''' \<and> bcrypt_Compare P h pw = None)
     \<and> aside db (rand_digit P) \<and> (\<forall>s d. fst (rand_digit P s) = Inr d \<longrightarrow> d < 10)
     \<and> (\<forall>n. aside db (rand_Read P n))"

lemma asideD: "aside db f \<Longrightarrow> f s = (x, s') \<Longrightarrow> \<exists>t \<ge> now (db s). db s' = at_time t (db s)"
  by (metis aside_def snd_conv)

lemma clock_aside: "clock_ok C db \<Longrightarrow> aside db C"
  by (auto simp: clock_ok_def aside_def)

lemma platform_okD:
  assumes "platform_ok P db"
  shows "clock_ok (Now P) db" "aside db (Now P)" "inj (uuid_String P)"
    "uuid_Parse P (uuid_String P u) = Inr u"
    "aside db (uuid_NewString P)" "aside db (bcrypt_Generate P pw)"
    "fst (bcrypt_Generate P pw s) = Inr h \<Longrightarrow> h \<noteq> ''''"
    "fst (bcrypt_Generate P pw s) = Inr h \<Longrightarrow> bcrypt_Compare P h pw = None"
    "aside db (rand_digit P)" "fst (rand_digit P s) = Inr d \<Longrightarrow> d < 10"
    "aside db (rand_Read P n)" "plain (uuid_String P u)" "plain (fst (uuid_NewString P s))"
  using assms clock_aside [of "Now P" db] unfolding platform_ok_def by blast+

text \<open>Redis only ages: the clock moves on, nothing is written.\<close>

definition ages :: "redis_db \<Rightarrow> redis_db \<Rightarrow> bool" where
  "ages d d' \<longleftrightarrow> now d \<le> now d' \<and> entry d' = entry d"

lemma ages_refl [simp]: "ages d d"
  by (simp add: ages_def)

lemma ages_trans [trans]: "ages d d1 \<Longrightarrow> ages d1 d2 \<Longrightarrow> ages d d2"
  by (auto simp: ages_def)

lemma ages_at_time [simp]: "now d \<le> t \<Longrightarrow> ages d (at_time t d)"
  by (simp add: ages_def)

lemma aside_ages: "aside db f \<Longrightarrow> f s = (x, s') \<Longrightarrow> ages (db s) (db s')"
  by (metis asideD ages_at_time)

lemma ages_live: "ages d d' \<Longrightarrow> live d' k = Some v \<Longrightarrow> live d k = Some v"
  by (auto simp: ages_def intro: live_entry [of d' k d])

lemma ages_dead: "ages d d' \<Longrightarrow> live d k = None \<Longrightarrow> live d' k = None"
  using ages_live [of d d' k] by (cases "live d' k") auto

section \<open>A concrete platform\<close>

text \<open>
  For the witnesses: the world is the database, uuids are written in decimal, and the digests are
  the identity with a mark.
\<close>

definition ref_parse :: "string \<Rightarrow> go_error + uuid" where
  "ref_parse v =
     (case undigits 0 v of
        Some n \<Rightarrow> if v = digits n \<and> n < 2 ^ 128 then Inr (of_nat n) else Inl (Text ''invalid UUID'')
      | None \<Rightarrow> Inl (Text ''invalid UUID''))"

definition ref_platform :: "redis_db platform" where
  "ref_platform =
     \<lparr>Now = ref_clock, uuid_String = (\<lambda>u. digits (unat u)), uuid_Parse = ref_parse,
      uuid_NewString = (\<lambda>d. (''jti'', d)),
      bcrypt_Generate = (\<lambda>pw d. (Inr (''$'' @ pw), d)),
      bcrypt_Compare = (\<lambda>h pw. if h = ''$'' @ pw then None else Some (Text ''mismatch'')),
      rand_digit = (\<lambda>d. (Inr 7, d)), rand_Read = (\<lambda>n d. (Inr (replicate n CHR ''r''), d)),
      sha256 = (\<lambda>x. ''sha:'' @ x), hmac_sha256 = (\<lambda>k x. ''mac:'' @ x)\<rparr>"

lemma undigits_append: "undigits a (xs @ [c]) =
    (case undigits a xs of Some n \<Rightarrow> if is_digit c then Some (n * 10 + (of_char c - 48)) else None
     | None \<Rightarrow> None)"
  by (induction a xs rule: undigits.induct) auto

lemma undigits_digits: "undigits 0 (digits n) = Some n"
proof (induction n rule: digits.induct)
  case (1 n)
  show ?case
  proof (cases "n < 10")
    case True
    then show ?thesis by (subst digits.simps) (simp add: is_digit_def)
  next
    case False
    have "n mod 10 < 10" by simp
    with False 1 show ?thesis
      by (subst digits.simps) (simp add: undigits_append is_digit_def)
  qed
qed

lemma plain_digits: "plain (digits n)"
proof (induction n rule: digits.induct)
  case (1 n)
  have "n mod 10 < 10" by simp
  with 1 show ?case
    by (subst digits.simps) (auto simp: plain_def)
qed

lemma ref_platform_ok: "platform_ok ref_platform id"
proof -
  have "inj (\<lambda>u :: uuid. digits (unat u))"
    by (rule injI) (metis undigits_digits option.inject word_unat_eq_iff)
  moreover have "ref_parse (digits (unat u)) = Inr u" for u :: uuid
    using unsigned_less [of u] by (simp add: ref_parse_def undigits_digits)
  ultimately show ?thesis
    by (auto simp: platform_ok_def plain_digits plain_def [of "''jti''"] ref_platform_def ref_clock_ok aside_def intro: exI [of _ "now _"])
qed

end
