(* ===== verification/Redis_Use.thy ===== *)
theory Redis_Use
  imports Platform
begin

text \<open>
  Facts about single commands and pipelines under \<open>redis_ok\<close>, shared by the repositories: what a
  command leaves unchanged, what it stores or removes when it succeeds, and what is known when it
  fails.
\<close>

section \<open>Single commands and pipelines under the hypothesis\<close>

lemma served_all_append:
  "served_all (xs @ ys) d rs d' \<Longrightarrow>
   \<exists>rs1 rs2 d1. rs = rs1 @ rs2 \<and> served_all xs d rs1 d1 \<and> served_all ys d1 rs2 d'"
proof (induction xs arbitrary: d rs)
  case Nil
  then show ?case by (intro exI [of _ "[]"] exI [of _ rs] exI [of _ d]) (auto intro: exI [of _ "now d"])
next
  case (Cons c xs)
  then obtain r rs' d1 where "rs = r # rs'" "served c d r d1" "served_all (xs @ ys) d1 rs' d'"
    by auto
  with Cons.IH obtain rs1 rs2 d2 where "rs' = rs1 @ rs2" "served_all xs d1 rs1 d2" "served_all ys d2 rs2 d'"
    by blast
  with \<open>rs = r # rs'\<close> \<open>served c d r d1\<close> show ?case
    by (intro exI [of _ "r # rs1"] exI [of _ rs2] exI [of _ d2]) auto
qed

lemma served_all_length: "served_all cs d rs d' \<Longrightarrow> length rs = length cs"
  by (induction cs arbitrary: d rs) auto

definition written :: "cmd list \<Rightarrow> string set" where
  "written cs = (\<Union>c \<in> set cs. writes c)"

lemma written_simps [simp]:
  "written [] = {}" "written (c # cs) = writes c \<union> written cs" "written (xs @ ys) = written xs \<union> written ys"
  by (auto simp: written_def)

definition no_scan :: "cmd list \<Rightarrow> bool" where
  "no_scan cs \<longleftrightarrow> (\<forall>c \<in> set cs. \<not> is_scan c)"

lemma no_scan_simps [simp]:
  "no_scan []" "no_scan (c # cs) \<longleftrightarrow> \<not> is_scan c \<and> no_scan cs"
  "no_scan (xs @ ys) \<longleftrightarrow> no_scan xs \<and> no_scan ys"
  by (auto simp: no_scan_def)

lemma served_all_entry:
  "served_all cs d rs d' \<Longrightarrow> no_scan cs \<Longrightarrow> k \<notin> written cs \<Longrightarrow> entry d' k = entry d k \<and> now d \<le> now d'"
proof (induction cs arbitrary: d rs)
  case (Cons c cs)
  then obtain r rs' d1 where "served c d r d1" "served_all cs d1 rs' d'" by auto
  with Cons.IH [of d1 rs'] Cons.prems served_entry [of c d r d1 k] show ?case by auto
qed auto

lemma served_all_now: "served_all cs d rs d' \<Longrightarrow> now d \<le> now d'"
  by (induction cs arbitrary: d rs) (auto dest: served_now intro: order_trans)

lemma served_SET:
  assumes "served (SET k v ttl) d (Inr x) d'"
  obtains t where "now d \<le> t"
    "d' = put k (VStr v) (if ttl \<le> 0 then None else Some (t + in_millis ttl)) (at_time t d)"
proof (rule served_Inr [OF assms])
  show "\<not> is_scan (SET k v ttl)" by simp
  fix t assume "now d \<le> t" "exec (SET k v ttl) (at_time t d) = (Inr x, d')"
  then show thesis by (intro that [of t]) auto
qed

lemma served_GET:
  assumes "served (GET k) d r d'"
  shows "ages d d' \<and> (\<forall>v. r = Inr (RBulk v) \<longrightarrow> live d' k = Some (VStr v))
    \<and> (r = Inr RNil \<longrightarrow> live d' k = None)"
proof -
  have ag: "\<forall>t. snd (exec (GET k) (at_time t d)) = at_time t d"
    by (simp split: option.split stored.split)
  from assms show ?thesis
  proof (rule served_cases)
    show "\<not> is_scan (GET k)" by simp
    fix t assume "now d \<le> t" "exec (GET k) (at_time t d) = (r, d')"
    then show ?thesis using ag by (auto split: option.splits stored.splits)
  next
    fix t e assume "now d \<le> t" "r = Inl e" "d' = snd (exec (GET k) (at_time t d))"
    then show ?thesis using ag by (metis Inl_Inr_False ages_at_time)
  qed simp
qed

lemma served_DEL:
  assumes "served (DEL ks) d r d'"
  shows "now d \<le> now d' \<and> (\<forall>k. k \<notin> set ks \<longrightarrow> entry d' k = entry d k)
    \<and> (\<forall>k \<in> set ks. entry d' k = entry d k \<or> entry d' k = None)
    \<and> (\<forall>x. r = Inr x \<longrightarrow> (\<forall>k \<in> set ks. entry d' k = None))"
  using assms by (rule served_cases) auto

lemma served_SREM:
  assumes "served (SREM k v) d r d'" and "k' \<noteq> k"
  shows "entry d' k' = entry d k' \<and> now d \<le> now d'"
  using served_entry [OF assms(1), of k'] assms(2) by simp

text \<open>What the database may still hold at a later time: the same entry, or nothing.\<close>

definition shrinks :: "redis_db \<Rightarrow> redis_db \<Rightarrow> string \<Rightarrow> bool" where
  "shrinks d d' k \<longleftrightarrow> now d \<le> now d' \<and> (entry d' k = entry d k \<or> entry d' k = None)"

lemma shrinks_refl [simp]: "shrinks d d k"
  by (simp add: shrinks_def)

lemma shrinks_trans: "shrinks d d1 k \<Longrightarrow> shrinks d1 d2 k \<Longrightarrow> shrinks d d2 k"
  by (auto simp: shrinks_def)

lemma ages_shrinks: "ages d d' \<Longrightarrow> shrinks d d' k"
  by (simp add: ages_def shrinks_def)

lemma shrinks_live: "shrinks d d' k \<Longrightarrow> live d' k = Some v \<Longrightarrow> live d k = Some v"
  unfolding shrinks_def live_def
  by (cases "entry d k"; cases "entry d' k") (auto split: option.splits if_splits)

lemma Del_shrinks:
  assumes "redis_ok R db" and "Del R ks s = (r, s')"
  shows "shrinks (db s) (db s') k \<and> (k \<notin> set ks \<longrightarrow> entry (db s') k = entry (db s) k)
    \<and> (r = Inr () \<longrightarrow> (\<forall>k \<in> set ks. entry (db s') k = None))"
proof (cases "ks = []")
  case True
  with assms(2) show ?thesis by (auto simp: Del_def)
next
  case False
  have "served (DEL ks) (db s) (fst (rd R (DEL ks) s)) (db (snd (rd R (DEL ks) s)))"
    by (rule redis_ok_rd [OF assms(1)])
  note D = served_DEL [OF this]
  from False assms(2) have "s' = snd (rd R (DEL ks) s)"
    and "r = Inr () \<Longrightarrow> \<exists>x. fst (rd R (DEL ks) s) = Inr x"
    by (auto simp: Del_def ask_def split: prod.splits sum.splits elim: as_int.elims)
  with D show ?thesis by (auto simp: shrinks_def)
qed

lemma pipe_error_Cons [simp]:
  "pipe_error (r # rs) = None \<longleftrightarrow> (\<exists>x. r = Inr x \<and> x \<noteq> RNil) \<and> pipe_error rs = None"
proof (cases r)
  case (Inr x)
  then show ?thesis by (cases x) auto
qed auto

lemma pipe_error_append [simp]:
  "pipe_error (xs @ ys) = None \<longleftrightarrow> pipe_error xs = None \<and> pipe_error ys = None"
  by (induction xs) auto

lemma pipe_error_None: "pipe_error rs = None \<Longrightarrow> r \<in> set rs \<Longrightarrow> \<exists>x. r = Inr x \<and> x \<noteq> RNil"
  by (induction rs) auto

lemma as_bulk_Inr: "as_bulk r = Inr v \<longleftrightarrow> r = Inr (RBulk v)"
  by (cases r rule: as_bulk.cases) auto

lemma as_bulk_nil: "as_bulk r = Inl e \<Longrightarrow> is_nil e \<Longrightarrow> r = Inr RNil"
  by (cases r rule: as_bulk.cases) (auto simp: is_nil_def odd_reply_def)

lemma served_SMEMBERS:
  assumes "served (SMEMBERS k) d r d'"
  shows "ages d d' \<and> (\<forall>y. r = Inr y \<longrightarrow> (\<exists>xs. y = RList (map Some xs)
    \<and> (live d' k = None \<and> xs = [] \<or> live d' k = Some (VSet xs))))"
proof -
  have ag: "\<forall>t. snd (exec (SMEMBERS k) (at_time t d)) = at_time t d"
    by (simp split: option.split stored.split)
  from assms show ?thesis
  proof (rule served_cases)
    show "\<not> is_scan (SMEMBERS k)" by simp
    fix t assume "now d \<le> t" "exec (SMEMBERS k) (at_time t d) = (r, d')"
    then show ?thesis using ag by (auto split: option.splits stored.splits)
  next
    fix t e assume "now d \<le> t" "r = Inl e" "d' = snd (exec (SMEMBERS k) (at_time t d))"
    then show ?thesis using ag by (metis Inl_Inr_False ages_at_time)
  qed simp
qed

lemma as_list_Inr: "as_list r = Inr ys \<longleftrightarrow> r = Inr (RList ys)"
  by (cases r rule: as_list.cases) auto

lemma as_list_nil: "as_list r = Inl e \<Longrightarrow> is_nil e \<Longrightarrow> r = Inr RNil"
  by (cases r rule: as_list.cases) (auto simp: is_nil_def odd_reply_def)

end
