(* ===== verification/Pairing_Repo.thy ===== *)
theory Pairing_Repo
  imports Redis_Use
begin

text \<open>
  Pairing codes in Redis (internal/repository/pairing_repo.go).  For a serial number two keys hold
  the bcrypt hash of its code and the metadata, with the same time to live; a set per restaurant
  lists its serial numbers, so that a new batch can replace the previous one.

  The interface \<open>PairingRepository\<close> is the locale \<open>pairing_repository\<close> over the abstract state
  \<open>code\<close>, the code and metadata a serial number has; it is interpreted on the repository.
\<close>

section \<open>Keys and data\<close>

record PairingCodeData =
  pd_DeviceID :: uuid
  pd_DeviceType :: string
  pd_RestaurantID :: uuid
  pd_ExpiresAt :: int

record RestaurantCodeEntry =
  rce_Serial :: string
  rce_CodeHash :: string
  rce_Meta :: PairingCodeData

text \<open>The repository: the Redis client, and encoding/json on the metadata.\<close>

record 's pairing_repo =
  pair_redis :: "'s redis"
  pair_platform :: "'s platform"
  pair_Marshal :: "PairingCodeData \<Rightarrow> go_error + string"
  pair_Unmarshal :: "string \<Rightarrow> go_error + PairingCodeData"

definition codeKey :: "string \<Rightarrow> string" where
  "codeKey serial = ''pair:code:'' @ serial"

definition metaKey :: "string \<Rightarrow> string" where
  "metaKey serial = ''pair:meta:'' @ serial"

definition restaurantKey :: "'s platform \<Rightarrow> uuid \<Rightarrow> string" where
  "restaurantKey P i = ''pair:restaurant:'' @ uuid_String P i"

section \<open>Operations\<close>

definition SetCode ::
  "'s pairing_repo \<Rightarrow> string \<Rightarrow> string \<Rightarrow> PairingCodeData \<Rightarrow> ('s, unit) op" where
  "SetCode R serial codeHash meta s =
     (let (t, s1) = Now (pair_platform R) s;
          ttl = until (pd_ExpiresAt meta) t;
          rkey = restaurantKey (pair_platform R) (pd_RestaurantID meta)
      in if ttl \<le> 0 then (Inl (Text ''pairing code already expired''), s1)
         else case pair_Marshal R meta of
                Inl e \<Rightarrow> (Inl (Wrapped ''marshal meta'' e), s1)
              | Inr metaJSON \<Rightarrow>
                  (case rd_pipe (pair_redis R)
                     [SET (codeKey serial) codeHash ttl, SET (metaKey serial) metaJSON ttl,
                      SADD rkey [serial], EXPIRE rkey ttl] s1 of
                     (rs, s2) \<Rightarrow>
                       (case pipe_error rs of
                          Some e \<Rightarrow> (Inl (Wrapped ''redis pipeline set code'' e), s2)
                        | None \<Rightarrow> (Inr (), s2))))"

text \<open>\<open>GetCode\<close> returns the hash and the metadata, or ("", nil) when there is no code.\<close>

definition GetCode ::
  "'s pairing_repo \<Rightarrow> string \<Rightarrow> ('s, string \<times> PairingCodeData option) op" where
  "GetCode R serial s =
     (case rd_pipe (pair_redis R) [GET (codeKey serial), GET (metaKey serial)] s of
        (rs, s1) \<Rightarrow>
          (case pipe_error rs of
             Some e \<Rightarrow>
               if \<not> is_nil e then (Inl (Wrapped ''redis pipeline get code'' e), s1)
               else (case map as_bulk rs of
                       Inl e # _ \<Rightarrow>
                         if is_nil e then (Inr ('''', None), s1)
                         else (Inl (Wrapped ''get code hash'' e), s1)
                     | Inr hash # Inl e # _ \<Rightarrow> (Inl (Wrapped ''get code meta'' e), s1)
                     | _ \<Rightarrow> (Inl odd_reply, s1))
           | None \<Rightarrow>
               (case map as_bulk rs of
                  [Inr hash, Inr metaJSON] \<Rightarrow>
                    (case pair_Unmarshal R metaJSON of
                       Inl e \<Rightarrow> (Inl (Wrapped ''unmarshal meta'' e), s1)
                     | Inr meta \<Rightarrow> (Inr (hash, Some meta), s1))
                | _ \<Rightarrow> (Inl odd_reply, s1))))"

definition DeleteCode :: "'s pairing_repo \<Rightarrow> string \<Rightarrow> ('s, unit) op" where
  "DeleteCode R serial s =
     (case ask (pair_redis R) (GET (metaKey serial)) as_bulk s of
        (Inl e, s1) \<Rightarrow>
          if is_nil e then Del (pair_redis R) [codeKey serial, metaKey serial] s1
          else (Inl (Wrapped ''get meta for delete'' e), s1)
      | (Inr metaJSON, s1) \<Rightarrow>
          let s2 = (case pair_Unmarshal R metaJSON of
                      Inr meta \<Rightarrow>
                        snd (rd (pair_redis R)
                          (SREM (restaurantKey (pair_platform R) (pd_RestaurantID meta)) serial) s1)
                    | Inl _ \<Rightarrow> s1)
          in Del (pair_redis R) [codeKey serial, metaKey serial] s2)"

text \<open>The commands of the new batch; encoding a metadata may fail, before anything is sent.\<close>

fun batch_cmds ::
  "'s pairing_repo \<Rightarrow> int \<Rightarrow> RestaurantCodeEntry list \<Rightarrow> go_error + cmd list" where
  "batch_cmds R ttl [] = Inr []"
| "batch_cmds R ttl (e # es) =
     (case pair_Marshal R (rce_Meta e) of
        Inl err \<Rightarrow> Inl (Wrapped (''marshal meta for '' @ rce_Serial e) err)
      | Inr metaJSON \<Rightarrow>
          (case batch_cmds R ttl es of
             Inl err \<Rightarrow> Inl err
           | Inr cs \<Rightarrow> Inr (SET (codeKey (rce_Serial e)) (rce_CodeHash e) ttl
                           # SET (metaKey (rce_Serial e)) metaJSON ttl # cs)))"

fun present :: "string option \<Rightarrow> string" where
  "present (Some v) = v"
| "present None = ''''"

definition ReplaceRestaurantCodes ::
  "'s pairing_repo \<Rightarrow> uuid \<Rightarrow> RestaurantCodeEntry list \<Rightarrow> int \<Rightarrow> ('s, unit) op" where
  "ReplaceRestaurantCodes R restaurantID entries ttl s =
     (let rkey = restaurantKey (pair_platform R) restaurantID;
          (read, s1) = ask (pair_redis R) (SMEMBERS rkey) as_list s
      in case (case read of Inl e \<Rightarrow> if is_nil e then Inr [] else Inl e | Inr xs \<Rightarrow> Inr (map present xs)) of
           Inl e \<Rightarrow> (Inl (Wrapped ''read old serials'' e), s1)
         | Inr oldSerials \<Rightarrow>
             (case Del (pair_redis R) (concat (map (\<lambda>x. [codeKey x, metaKey x]) oldSerials)) s1 of
                (Inl e, s2) \<Rightarrow> (Inl (Wrapped ''delete old codes'' e), s2)
              | (Inr _, s2) \<Rightarrow>
                  (case batch_cmds R ttl entries of
                     Inl e \<Rightarrow> (Inl e, s2)
                   | Inr cs \<Rightarrow>
                       (case rd_pipe (pair_redis R)
                          (cs @ [DEL [rkey]]
                           @ (if entries \<noteq> [] then [SADD rkey (map rce_Serial entries), EXPIRE rkey ttl]
                              else [])) s2 of
                          (rs, s3) \<Rightarrow>
                            (case pipe_error rs of
                               Some e \<Rightarrow> (Inl (Wrapped ''redis pipeline write batch'' e), s3)
                             | None \<Rightarrow> (Inr (), s3))))))"

section \<open>The interface\<close>

text \<open>
  What a client of \<open>PairingRepository\<close> may rely on.  \<open>code s serial\<close> is the hash and metadata a
  serial number has; it can disappear at any time (it expires), so the laws say at most what may
  still be there.
\<close>

locale pairing_repository =
  fixes getc :: "string \<Rightarrow> 's \<Rightarrow> (go_error + (string \<times> PairingCodeData option)) \<times> 's"
    and setc :: "string \<Rightarrow> string \<Rightarrow> PairingCodeData \<Rightarrow> 's \<Rightarrow> (go_error + unit) \<times> 's"
    and delc :: "string \<Rightarrow> 's \<Rightarrow> (go_error + unit) \<times> 's"
    and inv :: "'s \<Rightarrow> bool"
    and code :: "'s \<Rightarrow> string \<Rightarrow> (string \<times> PairingCodeData) option"
  assumes get_keeps: "inv s \<Longrightarrow> getc x s = (g, s') \<Longrightarrow> inv s' \<and> code s' \<subseteq>\<^sub>m code s"
    and get_found: "inv s \<Longrightarrow> getc x s = (Inr (h, Some m), s') \<Longrightarrow> code s x = Some (h, m)"
    and get_missing: "inv s \<Longrightarrow> getc x s = (Inr (h, None), s') \<Longrightarrow> h = '''' \<and> code s' x = None"
    and del_keeps: "inv s \<Longrightarrow> delc x s = (r, s') \<Longrightarrow> inv s' \<and> code s' \<subseteq>\<^sub>m code s"
    and del_gone: "inv s \<Longrightarrow> delc x s = (Inr (), s') \<Longrightarrow> code s' x = None"
    and set_others: "inv s \<Longrightarrow> setc x h m s = (r, s') \<Longrightarrow>
      inv s' \<and> (\<forall>y c. y \<noteq> x \<longrightarrow> code s' y = Some c \<longrightarrow> code s y = Some c)"
    and set_stored: "inv s \<Longrightarrow> setc x h m s = (Inr (), s') \<Longrightarrow> code s' x = Some c \<Longrightarrow> c = (h, m)"
begin

lemma get_after_del:
  assumes "inv s" and "delc x s = (Inr (), s1)" and "getc x s1 = (Inr (h, m), s2)"
  shows "m = None"
proof (cases m)
  case (Some meta)
  with get_found [of s1 x h meta s2] assms del_gone [of s x s1] del_keeps [of s x "Inr ()" s1]
  show ?thesis by simp
qed simp

lemma get_after_set:
  assumes "inv s" and "setc x h m s = (Inr (), s1)" and "getc x s1 = (Inr (h', Some m'), s2)"
  shows "h' = h \<and> m' = m"
  using assms set_others [OF assms(1,2)] get_found [of s1 x h' m' s2]
    set_stored [OF assms(1,2), of "(h', m')"] by simp

end

lemma map_le_None: "f \<subseteq>\<^sub>m g \<Longrightarrow> g k = None \<Longrightarrow> f k = None"
  by (metis domIff map_le_def)

section \<open>The repository provides it\<close>

lemma key_simps [simp]:
  "codeKey x = codeKey y \<longleftrightarrow> x = y" "metaKey x = metaKey y \<longleftrightarrow> x = y"
  "codeKey x \<noteq> metaKey y" "metaKey y \<noteq> codeKey x"
  "codeKey x \<noteq> restaurantKey P u" "restaurantKey P u \<noteq> codeKey x"
  "metaKey x \<noteq> restaurantKey P u" "restaurantKey P u \<noteq> metaKey x"
  by (simp_all add: codeKey_def metaKey_def restaurantKey_def)

definition code_in :: "'s pairing_repo \<Rightarrow> redis_db \<Rightarrow> string \<Rightarrow> (string \<times> PairingCodeData) option" where
  "code_in R d x =
     (case (live d (codeKey x), live d (metaKey x)) of
        (Some (VStr h), Some (VStr j)) \<Rightarrow>
          (case pair_Unmarshal R j of Inr m \<Rightarrow> Some (h, m) | Inl _ \<Rightarrow> None)
      | _ \<Rightarrow> None)"

definition pair_inv :: "'s pairing_repo \<Rightarrow> ('s \<Rightarrow> redis_db) \<Rightarrow> 's \<Rightarrow> bool" where
  "pair_inv R db s \<longleftrightarrow> redis_ok (pair_redis R) db \<and> platform_ok (pair_platform R) db
     \<and> (\<forall>m j. pair_Marshal R m = Inr j \<longrightarrow> pair_Unmarshal R j = Inr m)"

lemma code_in_Some:
  "code_in R d x = Some (h, m) \<longleftrightarrow>
     live d (codeKey x) = Some (VStr h)
     \<and> (\<exists>j. live d (metaKey x) = Some (VStr j) \<and> pair_Unmarshal R j = Inr m)"
  by (auto simp: code_in_def split: option.splits stored.splits sum.splits)

lemma code_in_mono:
  assumes "shrinks d d' (codeKey x)" and "shrinks d d' (metaKey x)" and "code_in R d' x = Some c"
  shows "code_in R d x = Some c"
  using assms shrinks_live by (cases c) (fastforce simp: code_in_Some)

lemma code_in_ages: "ages d d' \<Longrightarrow> code_in R d' \<subseteq>\<^sub>m code_in R d"
  using code_in_mono ages_shrinks by (fastforce simp: map_le_def)

lemma code_in_dead: "live d (codeKey x) = None \<or> live d (metaKey x) = None \<Longrightarrow> code_in R d x = None"
  by (auto simp: code_in_def split: option.splits stored.splits sum.splits)

text \<open>\<open>GetCode\<close>: two GETs.\<close>

lemma GetCode_state:
  "snd (GetCode R x s) = snd (rd_pipe (pair_redis R) [GET (codeKey x), GET (metaKey x)] s)"
  by (auto simp: GetCode_def split: prod.split option.split list.split sum.split)

lemma GetCode_pipe:
  assumes "redis_ok (pair_redis R) db" and "GetCode R x s = (r, s')"
  obtains r1 r2 d1 d2 where "served (GET (codeKey x)) (db s) r1 d1" "served (GET (metaKey x)) d1 r2 d2"
      "ages d2 (db s')" "rd_pipe (pair_redis R) [GET (codeKey x), GET (metaKey x)] s = ([r1, r2], s')"
proof -
  have "s' = snd (rd_pipe (pair_redis R) [GET (codeKey x), GET (metaKey x)] s)"
    using GetCode_state [of R x s] assms(2) by simp
  then show thesis
    using redis_ok_pipe [OF assms(1), of "[GET (codeKey x), GET (metaKey x)]" s] that
    by (cases "rd_pipe (pair_redis R) [GET (codeKey x), GET (metaKey x)] s") auto
qed

lemma GetCode_ages:
  assumes "redis_ok (pair_redis R) db" and "GetCode R x s = (r, s')"
  shows "ages (db s) (db s')"
  using GetCode_pipe [OF assms] served_GET ages_trans by metis

lemma GetCode_found:
  assumes "redis_ok (pair_redis R) db" and g: "GetCode R x s = (Inr (h, Some m), s')"
  shows "code_in R (db s) x = Some (h, m)"
proof -
  from GetCode_pipe [OF assms] obtain r1 r2 d1 d2 where
    1: "served (GET (codeKey x)) (db s) r1 d1" and 2: "served (GET (metaKey x)) d1 r2 d2"
    and p: "rd_pipe (pair_redis R) [GET (codeKey x), GET (metaKey x)] s = ([r1, r2], s')" by metis
  from g p obtain j where "r1 = Inr (RBulk h)" "r2 = Inr (RBulk j)" "pair_Unmarshal R j = Inr m"
    by (auto simp: GetCode_def as_bulk_Inr split: option.splits sum.splits if_splits list.splits)
  with served_GET [OF 1] served_GET [OF 2] show ?thesis
    by (auto simp: code_in_Some dest: ages_live)
qed

lemma GetCode_missing:
  assumes "redis_ok (pair_redis R) db" and g: "GetCode R x s = (Inr (h, None), s')"
  shows "h = '''' \<and> code_in R (db s') x = None"
proof -
  from GetCode_pipe [OF assms] obtain r1 r2 d1 d2 where
    1: "served (GET (codeKey x)) (db s) r1 d1" and 2: "served (GET (metaKey x)) d1 r2 d2"
    and a: "ages d2 (db s')"
    and p: "rd_pipe (pair_redis R) [GET (codeKey x), GET (metaKey x)] s = ([r1, r2], s')" by metis
  from g p have "h = ''''" "r1 = Inr RNil"
    by (auto simp: GetCode_def split: option.splits sum.splits if_splits list.splits dest: as_bulk_nil)
  with served_GET [OF 1] served_GET [OF 2] a show ?thesis
    by (blast intro: code_in_dead ages_dead)
qed

text \<open>\<open>DeleteCode\<close>: what is left of the keys, and what a success means.\<close>

lemma DeleteCode_db:
  assumes ok: "redis_ok (pair_redis R) db" and "DeleteCode R x s = (r, s')"
    and k: "k = codeKey y \<or> k = metaKey y"
  shows "shrinks (db s) (db s') k \<and> (y \<noteq> x \<longrightarrow> entry (db s') k = entry (db s) k)
    \<and> (r = Inr () \<longrightarrow> entry (db s') (codeKey x) = None \<and> entry (db s') (metaKey x) = None)"
proof -
  let ?R = "pair_redis R" and ?ks = "[codeKey x, metaKey x]"
  have g: "ages (db s) (db (snd (rd ?R (GET (metaKey x)) s)))"
    using served_GET [OF redis_ok_rd [OF ok]] by blast
  have srem: "entry (db (snd (rd ?R (SREM (restaurantKey P u) x) s1))) k = entry (db s1) k
      \<and> now (db s1) \<le> now (db (snd (rd ?R (SREM (restaurantKey P u) x) s1)))" for P :: "'a platform" and u s1
    using served_SREM [OF redis_ok_rd [OF ok], of k "restaurantKey P u" x s1] k by auto
  obtain r0 s1 where q: "rd ?R (GET (metaKey x)) s = (r0, s1)" by (cases "rd ?R (GET (metaKey x)) s")
  from g q have s1: "now (db s) \<le> now (db s1)" "entry (db s1) k = entry (db s) k" "ages (db s) (db s1)"
    by (auto simp: ages_def)
  consider (err) e where "r = Inl e" "s' = s1"
    | (del) s1 where "Del ?R ?ks s1 = (r, s')" "now (db s) \<le> now (db s1)" "entry (db s1) k = entry (db s) k"
  proof (cases "as_bulk r0")
    case (Inl e)
    with assms(2) q s1 that show thesis
      by (auto simp: DeleteCode_def ask_def split: if_splits)
  next
    case j: (Inr j)
    show thesis
    proof (cases "pair_Unmarshal R j")
      case (Inl e)
      with assms(2) q j s1 that(2) [of s1] show thesis
        by (simp add: DeleteCode_def ask_def)
    next
      case (Inr m)
      with assms(2) q j s1 srem [of "pair_platform R" "pd_RestaurantID m" s1]
        that(2) [of "snd (rd ?R (SREM (restaurantKey (pair_platform R) (pd_RestaurantID m)) x) s1)"]
      show thesis by (simp add: DeleteCode_def ask_def)
    qed
  qed
  then show ?thesis
  proof cases
    case err
    with s1 show ?thesis by (auto simp: ages_shrinks)
  next
    case del
    from Del_shrinks [OF ok del(1), of k] del k show ?thesis
      by (auto simp: shrinks_def)
  qed
qed

text \<open>\<open>SetCode\<close>.\<close>

lemma SetCode_db:
  assumes inv: "pair_inv R db s" and "SetCode R x h m s = (r, s')"
  shows "\<forall>y k. y \<noteq> x \<and> (k = codeKey y \<or> k = metaKey y) \<longrightarrow>
      entry (db s') k = entry (db s) k \<and> now (db s) \<le> now (db s')"
    and "r = Inr () \<Longrightarrow> \<exists>t t1 t2 j. now (db s) \<le> t \<and> t \<le> t1 \<and> t1 \<le> t2 \<and> t2 \<le> now (db s')
      \<and> 0 < until (pd_ExpiresAt m) t \<and> pair_Unmarshal R j = Inr m
      \<and> entry (db s') (codeKey x) = Some (VStr h, Some (t1 + in_millis (until (pd_ExpiresAt m) t)))
      \<and> entry (db s') (metaKey x) = Some (VStr j, Some (t2 + in_millis (until (pd_ExpiresAt m) t)))"
proof -
  have ok: "redis_ok (pair_redis R) db" and clock: "clock_ok (Now (pair_platform R)) db"
    and json: "\<And>j. pair_Marshal R m = Inr j \<Longrightarrow> pair_Unmarshal R j = Inr m"
    using inv by (auto simp: pair_inv_def dest: platform_okD(1))
  obtain t s1 where now: "Now (pair_platform R) s = (t, s1)" by (cases "Now (pair_platform R) s")
  note t = clock_okD [OF clock now]
  let ?ttl = "until (pd_ExpiresAt m) t" and ?rk = "restaurantKey (pair_platform R) (pd_RestaurantID m)"
  let ?cs = "\<lambda>j. [SET (codeKey x) h ?ttl, SET (metaKey x) j ?ttl, SADD ?rk [x], EXPIRE ?rk ?ttl]"
  have early: "\<exists>e. r = Inl e \<and> s' = s1" if "?ttl \<le> 0 \<or> (\<exists>e. pair_Marshal R m = Inl e)"
    using that assms(2) now by (auto simp: SetCode_def Let_def split: if_splits)
  have pipe: "\<exists>rs. rd_pipe (pair_redis R) (?cs j) s1 = (rs, s') \<and> (r = Inr () \<longrightarrow> pipe_error rs = None)"
    if "\<not> ?ttl \<le> 0" "pair_Marshal R m = Inr j" for j
    using that assms(2) now by (auto simp: SetCode_def Let_def split: prod.splits option.splits)
  have served: "served_all (?cs j) (db s1) rs (db s')"
    if "rd_pipe (pair_redis R) (?cs j) s1 = (rs, s')" for j rs
    using redis_ok_pipe [OF ok, of "?cs j" s1] that by simp
  show "\<forall>y k. y \<noteq> x \<and> (k = codeKey y \<or> k = metaKey y) \<longrightarrow>
      entry (db s') k = entry (db s) k \<and> now (db s) \<le> now (db s')"
  proof (intro allI impI)
    fix y k assume "y \<noteq> x \<and> (k = codeKey y \<or> k = metaKey y)"
    then have k: "k \<notin> written (?cs j)" for j by auto
    show "entry (db s') k = entry (db s) k \<and> now (db s) \<le> now (db s')"
    proof (cases "?ttl \<le> 0 \<or> (\<exists>e. pair_Marshal R m = Inl e)")
      case True
      with early t show ?thesis by auto
    next
      case False
      then obtain j rs where "rd_pipe (pair_redis R) (?cs j) s1 = (rs, s')"
        using pipe by (metis sum.exhaust)
      from served_all_entry [OF served [OF this], of k] k t show ?thesis by simp
    qed
  qed
  assume r: "r = Inr ()"
  with early have "\<not> ?ttl \<le> 0" and "\<nexists>e. pair_Marshal R m = Inl e" by auto
  then obtain j rs where j: "pair_Marshal R m = Inr j" and p: "rd_pipe (pair_redis R) (?cs j) s1 = (rs, s')"
    and none: "pipe_error rs = None"
    using pipe r by (metis sum.exhaust)
  from served [OF p] obtain r1 r2 r3 r4 d1 d2 d3 d4 where
    1: "served (SET (codeKey x) h ?ttl) (db s1) r1 d1" and 2: "served (SET (metaKey x) j ?ttl) d1 r2 d2"
    and 3: "served (SADD ?rk [x]) d2 r3 d3" and 4: "served (EXPIRE ?rk ?ttl) d3 r4 d4"
    and 5: "ages d4 (db s')" and rs: "rs = [r1, r2, r3, r4]"
    by auto
  from none rs obtain x1 x2 where x: "r1 = Inr x1" "r2 = Inr x2"
    using pipe_error_None [OF none] by (metis list.set_intros)
  obtain t1 where t1: "now (db s1) \<le> t1"
    "d1 = put (codeKey x) (VStr h) (Some (t1 + in_millis ?ttl)) (at_time t1 (db s1))"
    using 1 \<open>\<not> ?ttl \<le> 0\<close> x by (auto elim!: served_SET)
  obtain t2 where t2: "now d1 \<le> t2"
    "d2 = put (metaKey x) (VStr j) (Some (t2 + in_millis ?ttl)) (at_time t2 d1)"
    using 2 \<open>\<not> ?ttl \<le> 0\<close> x by (auto elim!: served_SET)
  have "entry d4 k = entry d2 k \<and> now d2 \<le> now d4" if "k \<noteq> ?rk" for k
    using served_entry [OF 3, of k] served_entry [OF 4, of k] that by auto
  from this [of "codeKey x"] this [of "metaKey x"] 5 t1 t2 t json [OF j] \<open>\<not> ?ttl \<le> 0\<close>
  show "\<exists>t t1 t2 j. now (db s) \<le> t \<and> t \<le> t1 \<and> t1 \<le> t2 \<and> t2 \<le> now (db s')
      \<and> 0 < until (pd_ExpiresAt m) t \<and> pair_Unmarshal R j = Inr m
      \<and> entry (db s') (codeKey x) = Some (VStr h, Some (t1 + in_millis (until (pd_ExpiresAt m) t)))
      \<and> entry (db s') (metaKey x) = Some (VStr j, Some (t2 + in_millis (until (pd_ExpiresAt m) t)))"
    by (intro exI [of _ t] exI [of _ t1] exI [of _ t2] exI [of _ j]) (auto simp: ages_def)
qed

lemma pair_inv_next: "pair_inv R db s \<Longrightarrow> pair_inv R db s'"
  by (simp add: pair_inv_def)

lemma pair_inv_ok: "pair_inv R db s \<Longrightarrow> redis_ok (pair_redis R) db"
  by (simp add: pair_inv_def)

lemma DeleteCode_le:
  assumes "redis_ok (pair_redis R) db" and "DeleteCode R x s = (r, s')"
  shows "code_in R (db s') \<subseteq>\<^sub>m code_in R (db s)"
  unfolding map_le_def
proof
  fix y assume "y \<in> dom (code_in R (db s'))"
  then obtain c where "code_in R (db s') y = Some c" by blast
  then show "code_in R (db s') y = code_in R (db s) y"
    using code_in_mono [of "db s" "db s'" y R c] DeleteCode_db [OF assms, of _ y] by simp
qed

lemma code_in_entry:
  assumes "entry d' (codeKey x) = entry d (codeKey x)" and "entry d' (metaKey x) = entry d (metaKey x)"
    and "now d \<le> now d'" and "code_in R d' x = Some c"
  shows "code_in R d x = Some c"
  using assms code_in_mono by (metis shrinks_def)

interpretation pairing: pairing_repository
  "GetCode R" "SetCode R" "DeleteCode R" "pair_inv R db" "\<lambda>s. code_in R (db s)"
  for R :: "'s pairing_repo" and db :: "'s \<Rightarrow> redis_db"
proof (unfold_locales, goal_cases)
  case (1 s x g s')
  then show ?case
    using GetCode_ages code_in_ages pair_inv_next pair_inv_ok by metis
next
  case (2 s x h m s')
  then show ?case using GetCode_found pair_inv_ok by metis
next
  case (3 s x h s')
  then show ?case using GetCode_missing pair_inv_ok by metis
next
  case (4 s x r s')
  then show ?case using DeleteCode_le pair_inv_next pair_inv_ok by metis
next
  case (5 s x s')
  then show ?case
    using DeleteCode_db [OF pair_inv_ok [OF 5(1)] 5(2), of "codeKey x" x]
    by (intro code_in_dead) (simp add: live_def)
next
  case (6 s x h m r s')
  from SetCode_db(1) [OF 6] show ?case
    using pair_inv_next [OF 6(1)] code_in_entry [of "db s'" _ "db s" R] by blast
next
  case (7 s x h m s' c)
  from SetCode_db(2) [OF 7(1,2) refl] 7(3) show ?case
    by (cases c) (auto simp: code_in_Some live_def split: option.splits if_splits)
qed

section \<open>Replacing a restaurant's codes\<close>

lemma batch_cmds_written:
  "batch_cmds R ttl es = Inr cs \<Longrightarrow> no_scan cs \<and>
   written cs = codeKey ` rce_Serial ` set es \<union> metaKey ` rce_Serial ` set es"
  by (induction es arbitrary: cs) (auto split: sum.splits)

text \<open>After the SETs of a batch every serial number of it has the hash and metadata of its last entry.\<close>

lemma batch_served:
  assumes "batch_cmds R ttl es = Inr cs" and "served_all cs d rs d'" and "pipe_error rs = None"
    and "\<And>m j. pair_Marshal R m = Inr j \<Longrightarrow> pair_Unmarshal R j = Inr m" and "x \<in> rce_Serial ` set es"
  shows "\<exists>e \<in> set es. \<exists>j t1 t2. rce_Serial e = x \<and> pair_Unmarshal R j = Inr (rce_Meta e)
    \<and> entry d' (codeKey x) = Some (VStr (rce_CodeHash e), t1) \<and> entry d' (metaKey x) = Some (VStr j, t2)"
  using assms(1,2,3,5)
proof (induction es arbitrary: cs d rs)
  case (Cons e es)
  then obtain j cs' where j: "pair_Marshal R (rce_Meta e) = Inr j" and cs': "batch_cmds R ttl es = Inr cs'"
    and cs: "cs = SET (codeKey (rce_Serial e)) (rce_CodeHash e) ttl # SET (metaKey (rce_Serial e)) j ttl # cs'"
    by (auto split: sum.splits)
  with Cons.prems(2) obtain r1 r2 rs' d1 d2 where
    1: "served (SET (codeKey (rce_Serial e)) (rce_CodeHash e) ttl) d r1 d1"
    and 2: "served (SET (metaKey (rce_Serial e)) j ttl) d1 r2 d2"
    and rest: "served_all cs' d2 rs' d'" and rs: "rs = r1 # r2 # rs'"
    by auto
  from Cons.prems(3) rs have none: "pipe_error rs' = None"
    and "\<exists>y1 y2. r1 = Inr y1 \<and> r2 = Inr y2"
    by auto
  then obtain t1 t2 where d1: "entry d1 (codeKey (rce_Serial e)) = Some (VStr (rce_CodeHash e), t1)"
    and d2: "entry d2 (metaKey (rce_Serial e)) = Some (VStr j, t2)"
    using 1 2 by (auto elim!: served_SET)
  have d1': "entry d2 (codeKey (rce_Serial e)) = entry d1 (codeKey (rce_Serial e))"
    using served_entry [OF 2, of "codeKey (rce_Serial e)"] by simp
  show ?case
  proof (cases "x \<in> rce_Serial ` set es")
    case True
    from Cons.IH [OF cs' rest none True] show ?thesis by auto
  next
    case False
    then have x: "x = rce_Serial e" using Cons.prems(4) by auto
    have "entry d' k = entry d2 k" if "k = codeKey x \<or> k = metaKey x" for k
      using served_all_entry [OF rest, of k] batch_cmds_written [OF cs'] that False
      by (auto simp: image_iff)
    with d1 d2 d1' x j assms(4) [OF j] show ?thesis
      by (intro bexI [of _ e] exI [of _ j] exI [of _ t1] exI [of _ t2]) auto
  qed
qed simp

text \<open>A successful replacement goes through all its steps.\<close>

lemma Replace_steps:
  assumes inv: "pair_inv R db s" and "ReplaceRestaurantCodes R u es ttl s = (Inr (), s')"
  obtains xs s1 s2 cs rs where "ages (db s) (db s1)"
    "live (db s1) (restaurantKey (pair_platform R) u) = None \<and> xs = []
      \<or> live (db s1) (restaurantKey (pair_platform R) u) = Some (VSet xs)"
    "Del (pair_redis R) (concat (map (\<lambda>x. [codeKey x, metaKey x]) xs)) s1 = (Inr (), s2)"
    "batch_cmds R ttl es = Inr cs" "pipe_error rs = None"
    "served_all (cs @ [DEL [restaurantKey (pair_platform R) u]]
       @ (if es \<noteq> [] then [SADD (restaurantKey (pair_platform R) u) (map rce_Serial es),
                           EXPIRE (restaurantKey (pair_platform R) u) ttl] else [])) (db s2) rs (db s')"
proof -
  note ok = pair_inv_ok [OF inv]
  let ?R = "pair_redis R" and ?rk = "restaurantKey (pair_platform R) u"
  obtain r0 s1 where q: "rd ?R (SMEMBERS ?rk) s = (r0, s1)" by (cases "rd ?R (SMEMBERS ?rk) s")
  have sv: "served (SMEMBERS ?rk) (db s) r0 (db s1)"
    using redis_ok_rd [OF ok, of "SMEMBERS ?rk" s] q by simp
  obtain y where y: "r0 = Inr y"
    using assms(2) q by (cases r0) (auto simp: ReplaceRestaurantCodes_def ask_def Let_def is_nil_def)
  then obtain xs where xs: "r0 = Inr (RList (map Some xs))"
      "live (db s1) ?rk = None \<and> xs = [] \<or> live (db s1) ?rk = Some (VSet xs)"
    and a: "ages (db s) (db s1)"
    using served_SMEMBERS [OF sv] by auto
  have m: "present \<circ> Some = id" by (rule ext) simp
  from assms(2) q xs(1) m obtain s2 where
    d: "Del ?R (concat (map (\<lambda>x. [codeKey x, metaKey x]) xs)) s1 = (Inr (), s2)"
    by (auto simp: ReplaceRestaurantCodes_def ask_def Let_def split: prod.splits sum.splits)
  with assms(2) q xs(1) m obtain cs rs where cs: "batch_cmds R ttl es = Inr cs"
    and rs: "rd_pipe ?R (cs @ [DEL [?rk]] @ (if es \<noteq> [] then [SADD ?rk (map rce_Serial es), EXPIRE ?rk ttl]
                              else [])) s2 = (rs, s')" "pipe_error rs = None"
    by (auto simp: ReplaceRestaurantCodes_def ask_def Let_def split: prod.splits sum.splits option.splits)
  from redis_ok_pipe [OF ok, of "cs @ [DEL [?rk]] @ (if es \<noteq> [] then [SADD ?rk (map rce_Serial es), EXPIRE ?rk ttl]
                              else [])" s2] rs(1)
  have "served_all (cs @ [DEL [?rk]] @ (if es \<noteq> [] then [SADD ?rk (map rce_Serial es), EXPIRE ?rk ttl]
                              else [])) (db s2) rs (db s')" by simp
  from that [OF a xs(2) d cs rs(2) this] show thesis .
qed

lemma Replace_batch:
  assumes inv: "pair_inv R db s" and r: "ReplaceRestaurantCodes R u es ttl s = (Inr (), s')"
    and c: "code_in R (db s') x = Some c" and x: "x \<in> rce_Serial ` set es"
  shows "\<exists>e \<in> set es. rce_Serial e = x \<and> c = (rce_CodeHash e, rce_Meta e)"
proof -
  let ?rk = "restaurantKey (pair_platform R) u"
  let ?tail = "[DEL [?rk]] @ (if es \<noteq> [] then [SADD ?rk (map rce_Serial es), EXPIRE ?rk ttl] else [])"
  obtain s2 cs rs where cs: "batch_cmds R ttl es = Inr cs" and none: "pipe_error rs = None"
    and sv: "served_all (cs @ ?tail) (db s2) rs (db s')"
    by (rule Replace_steps [OF inv r]) blast
  have tail: "no_scan ?tail" "codeKey y \<notin> written ?tail" "metaKey y \<notin> written ?tail" for y
    by auto
  from served_all_append [OF sv] obtain rs1 rs2 d1 where
    1: "rs = rs1 @ rs2" "served_all cs (db s2) rs1 d1" "served_all ?tail d1 rs2 (db s')" by blast
  have json: "\<And>m j. pair_Marshal R m = Inr j \<Longrightarrow> pair_Unmarshal R j = Inr m"
    using inv by (simp add: pair_inv_def)
  from batch_served [OF cs 1(2) _ json x] none 1(1) obtain e j t1 t2 where
    e: "e \<in> set es" "rce_Serial e = x" "pair_Unmarshal R j = Inr (rce_Meta e)"
      "entry d1 (codeKey x) = Some (VStr (rce_CodeHash e), t1)" "entry d1 (metaKey x) = Some (VStr j, t2)"
    by auto
  have "entry (db s') (codeKey x) = entry d1 (codeKey x)" "entry (db s') (metaKey x) = entry d1 (metaKey x)"
    using served_all_entry [OF 1(3) tail(1)] tail(2,3) by blast+
  with e(3-5) c have "c = (rce_CodeHash e, rce_Meta e)"
    by (cases c) (auto simp: code_in_Some live_def split: option.splits if_splits)
  with e(1,2) show ?thesis by auto
qed

lemma Replace_others:
  assumes inv: "pair_inv R db s" and r: "ReplaceRestaurantCodes R u es ttl s = (Inr (), s')"
    and c: "code_in R (db s') x = Some c" and x: "x \<notin> rce_Serial ` set es"
  obtains xs s1 where "ages (db s) (db s1)" "now (db s1) \<le> now (db s')" "code_in R (db s) x = Some c" "x \<notin> set xs"
    "live (db s1) (restaurantKey (pair_platform R) u) = None \<and> xs = []
      \<or> live (db s1) (restaurantKey (pair_platform R) u) = Some (VSet xs)"
proof -
  let ?rk = "restaurantKey (pair_platform R) u"
  let ?tail = "[DEL [?rk]] @ (if es \<noteq> [] then [SADD ?rk (map rce_Serial es), EXPIRE ?rk ttl] else [])"
  obtain xs s1 s2 cs rs where a: "ages (db s) (db s1)"
    and xs: "live (db s1) ?rk = None \<and> xs = [] \<or> live (db s1) ?rk = Some (VSet xs)"
    and del: "Del (pair_redis R) (concat (map (\<lambda>x. [codeKey x, metaKey x]) xs)) s1 = (Inr (), s2)"
    and cs: "batch_cmds R ttl es = Inr cs" and sv: "served_all (cs @ ?tail) (db s2) rs (db s')"
    by (rule Replace_steps [OF inv r]) blast
  have nw: "codeKey x \<notin> written (cs @ ?tail)" "metaKey x \<notin> written (cs @ ?tail)" and ns: "no_scan (cs @ ?tail)"
    using batch_cmds_written [OF cs] x by (auto simp: image_iff)
  note kept = served_all_entry [OF sv ns nw(1)] served_all_entry [OF sv ns nw(2)]
  note D = Del_shrinks [OF pair_inv_ok [OF inv] del]
  have sh: "shrinks (db s) (db s') k" if "k = codeKey x \<or> k = metaKey x" for k
    using kept D [of k] ages_shrinks [OF a, of k] that by (auto simp: shrinks_def ages_def)
  have "x \<notin> set xs"
  proof
    assume "x \<in> set xs"
    then have "codeKey x \<in> set (concat (map (\<lambda>x. [codeKey x, metaKey x]) xs))" by auto
    with D [of "codeKey x"] kept have "entry (db s') (codeKey x) = None" by auto
    with c code_in_dead [of "db s'" x R] show False by (simp add: live_def)
  qed
  moreover have "now (db s1) \<le> now (db s')"
    using D [of "codeKey x"] kept(1) by (auto simp: shrinks_def)
  moreover have "code_in R (db s) x = Some c"
    using code_in_mono [OF sh sh c] by simp
  ultimately show thesis using that a xs by blast
qed

lemma SetCode_GetCode_aux:
  assumes inv: "pair_inv R db s" and set: "SetCode R x h m s = (Inr (), s1)"
    and get: "GetCode R x s1 = (Inr (h', m'), s2)"
    and time: "now (db s2) \<le> pd_ExpiresAt m - millisecond" "pd_ExpiresAt m < now (db s) + 2 ^ 63"
  shows "h' = h \<and> m' = Some m"
proof (cases m')
  case (Some meta)
  with pairing.get_after_set [OF inv set, of h' meta s2] get show ?thesis by simp
next
  case None
  from SetCode_db(2) [OF inv set refl] obtain t t1 t2 j where
    t: "now (db s) \<le> t" "t \<le> t1" "t1 \<le> t2" "t2 \<le> now (db s1)" "0 < until (pd_ExpiresAt m) t"
      "pair_Unmarshal R j = Inr m"
    and e: "entry (db s1) (codeKey x) = Some (VStr h, Some (t1 + in_millis (until (pd_ExpiresAt m) t)))"
      "entry (db s1) (metaKey x) = Some (VStr j, Some (t2 + in_millis (until (pd_ExpiresAt m) t)))"
    by blast
  have u: "until (pd_ExpiresAt m) t = pd_ExpiresAt m - t"
    using t(1,5) time(2) by (auto simp: until_def)
  have "pd_ExpiresAt m - t - millisecond < in_millis (pd_ExpiresAt m - t)"
    using div_mult_mod_eq [of "pd_ExpiresAt m - t" millisecond]
      pos_mod_bound [of millisecond "pd_ExpiresAt m - t"]
    by (auto simp: in_millis_def millisecond_def)
  with time(1) u t have "now (db s2) < t1 + in_millis (until (pd_ExpiresAt m) t)"
    "now (db s2) < t2 + in_millis (until (pd_ExpiresAt m) t)" by auto
  moreover have "ages (db s1) (db s2)"
    using GetCode_ages [OF pair_inv_ok [OF inv] get] .
  ultimately have "code_in R (db s2) x = Some (h, m)"
    using e t(6) by (auto simp: code_in_Some live_def ages_def)
  moreover have "code_in R (db s2) x = None"
    using GetCode_missing [OF pair_inv_ok [OF inv]] get None by blast
  ultimately show ?thesis by simp
qed

section \<open>Properties\<close>


text \<open>
  A stored code is found.  After \<open>SetCode\<close> succeeds, \<open>GetCode\<close> on the same serial number, if it
  answers before the code's expiry (to the millisecond of Redis), returns exactly the hash and the
  metadata stored.
\<close>

theorem SetCode_GetCode:
  assumes inv: "pair_inv R db s" and set: "SetCode R x h m s = (Inr (), s1)"
    and get: "GetCode R x s1 = (Inr (h', m'), s2)"
    and time: "now (db s2) \<le> pd_ExpiresAt m - millisecond" "pd_ExpiresAt m < now (db s) + 2 ^ 63"
  shows "h' = h \<and> m' = Some m"
  using assms by (rule SetCode_GetCode_aux)

section \<open>Runs on a concrete client\<close>

definition demo_meta :: "int \<Rightarrow> PairingCodeData" where
  "demo_meta e = \<lparr>pd_DeviceID = 3, pd_DeviceType = ''kiosk'', pd_RestaurantID = 7, pd_ExpiresAt = e * second\<rparr>"

text \<open>An encoding of these metadata: the expiry in seconds.\<close>

definition ref_pairing :: "redis_db pairing_repo" where
  "ref_pairing =
     \<lparr>pair_redis = ref_redis, pair_platform = ref_platform,
      pair_Marshal = (\<lambda>m. if m = demo_meta (pd_ExpiresAt m div second) \<and> 0 \<le> pd_ExpiresAt m
                         then Inr (digits (nat (pd_ExpiresAt m div second))) else Inl (Text ''json'')),
      pair_Unmarshal = (\<lambda>j. case undigits 0 j of Some n \<Rightarrow> Inr (demo_meta (int n))
                           | None \<Rightarrow> Inl (Text ''json''))\<rparr>"

lemma ref_pairing_inv: "pair_inv ref_pairing id s"
proof -
  have "0 \<le> pd_ExpiresAt m \<Longrightarrow> 0 \<le> pd_ExpiresAt m div second" for m :: PairingCodeData
    by (simp add: second_def)
  then show ?thesis
    by (auto simp: pair_inv_def ref_pairing_def ref_redis_ok ref_platform_ok undigits_digits split: if_splits)
qed

lemma demo_meta_simps [simp]:
  "pd_ExpiresAt (demo_meta e) = e * second" "pd_RestaurantID (demo_meta e) = 7"
  "demo_meta e = demo_meta e' \<longleftrightarrow> e = e'"
  by (auto simp: demo_meta_def second_def)

lemma ref_marshal: "0 \<le> e \<Longrightarrow> pair_Marshal ref_pairing (demo_meta e) = Inr (digits (nat e))"
  by (simp add: ref_pairing_def second_def)

lemma ref_unmarshal: "pair_Unmarshal ref_pairing (digits n) = Inr (demo_meta (int n))"
  by (simp add: ref_pairing_def undigits_digits)

lemma ref_pairing_sel [simp]:
  "pair_redis ref_pairing = ref_redis" "pair_platform ref_pairing = ref_platform"
  "Now ref_platform = ref_clock" "uuid_String ref_platform = (\<lambda>u. digits (unat u))"
  "rd ref_redis = ref_rd" "rd_pipe ref_redis = ref_all"
  by (simp_all add: ref_pairing_def ref_platform_def ref_redis_def)

lemma digits_7: "digits 7 = ''7''"
  by code_simp

lemmas ref_run_simps =
  SetCode_def GetCode_def DeleteCode_def ReplaceRestaurantCodes_def Del_def ask_def Let_def ref_clock_def
  until_def restaurantKey_def codeKey_def metaKey_def digits_7 put_def drop_keys_def live_def entry_def
  expiry_def in_millis_def in_seconds_def duration_defs empty_db_def at_time_def ref_marshal
  ref_unmarshal is_nil_def

text \<open>
  A set that expires too early.  The expiry of a restaurant's set is that of the code stored
  last, so a short-lived code cuts it short: code A lives ten minutes, code B of the same restaurant
  one minute; two minutes later a batch that should supersede the restaurant's codes succeeds, and A
  can still be used.
\<close>

theorem superseded_code_survives:
  "\<exists>d1 d2 d3 d4.
     SetCode ref_pairing ''A'' ''hA'' (demo_meta 600) (empty_db 0) = (Inr (), d1)
     \<and> SetCode ref_pairing ''B'' ''hB'' (demo_meta 60) d1 = (Inr (), d2)
     \<and> ReplaceRestaurantCodes ref_pairing 7
          [\<lparr>rce_Serial = ''C'', rce_CodeHash = ''hC'', rce_Meta = demo_meta 700\<rparr>] (580 * second)
          (at_time (120 * second) d2) = (Inr (), d3)
     \<and> GetCode ref_pairing ''A'' d3 = (Inr (''hA'', Some (demo_meta 600)), d4)"
  by (simp add: ref_run_simps)

text \<open>A client that behaves as documented while its pipelines time out.\<close>

definition timeout_redis :: "redis_db redis" where
  "timeout_redis = ref_redis\<lparr>rd_pipe := (\<lambda>cs d. (map (\<lambda>_. Inl ''i/o timeout'') cs, d))\<rparr>"

lemma timeout_redis_ok: "redis_ok timeout_redis id"
proof -
  have "served_all cs d (map (\<lambda>_. Inl ''i/o timeout'') cs) d" for cs d
  proof (induction cs)
    case Nil
    show ?case by (simp add: exI [of _ "now d"])
  next
    case (Cons c cs)
    have "served c d (Inl ''i/o timeout'') d"
      by (auto simp: served_def intro!: exI [of _ "now d"])
    with Cons show ?case by auto
  qed
  with ref_redis_ok show ?thesis by (auto simp: redis_ok_def timeout_redis_def)
qed

lemma timeout_rd [simp]:
  "rd timeout_redis = ref_rd" "rd_pipe timeout_redis = (\<lambda>cs d. (map (\<lambda>_. Inl ''i/o timeout'') cs, d))"
  by (simp_all add: timeout_redis_def)

text \<open>
  The replacement is not atomic.  The old codes are deleted before the new ones are written: with
  a client that behaves as documented but times out on the pipeline, a restaurant's code is gone and
  no code of the batch is there, although the operation reports a failure.
\<close>

theorem replace_not_atomic:
  "\<exists>d1 d2 e.
     SetCode ref_pairing ''A'' ''hA'' (demo_meta 600) (empty_db 0) = (Inr (), d1)
     \<and> redis_ok timeout_redis id
     \<and> ReplaceRestaurantCodes (ref_pairing\<lparr>pair_redis := timeout_redis\<rparr>) 7
          [\<lparr>rce_Serial = ''C'', rce_CodeHash = ''hC'', rce_Meta = demo_meta 700\<rparr>] (580 * second) d1
        = (Inl e, d2)
     \<and> code_in ref_pairing d1 ''A'' = Some (''hA'', demo_meta 600)
     \<and> code_in ref_pairing d2 ''A'' = None \<and> code_in ref_pairing d2 ''C'' = None"
proof -
  have "pair_Marshal (ref_pairing\<lparr>pair_redis := timeout_redis\<rparr>) = pair_Marshal ref_pairing"
    "pair_platform (ref_pairing\<lparr>pair_redis := timeout_redis\<rparr>) = ref_platform"
    by simp_all
  then show ?thesis
    by (simp add: ref_run_simps code_in_def timeout_redis_ok)
qed

text \<open>A batch that supersedes a code, and a code that is found.\<close>

lemma demo_replace:
  "\<exists>d1 d2.
     SetCode ref_pairing ''A'' ''hA'' (demo_meta 600) (empty_db 0) = (Inr (), d1)
     \<and> ReplaceRestaurantCodes ref_pairing 7
          [\<lparr>rce_Serial = ''C'', rce_CodeHash = ''hC'', rce_Meta = demo_meta 700\<rparr>] (580 * second) d1
        = (Inr (), d2)
     \<and> code_in ref_pairing d2 ''C'' \<noteq> None"
  by (simp add: ref_run_simps code_in_def)


theorem SetCode_GetCode_witness:
  "\<exists>d1 d2. GetCode ref_pairing ''A'' d1 = (Inr (''hA'', Some (demo_meta 600)), d2)"
proof -
  obtain d1 h m d2 where run: "SetCode ref_pairing ''A'' ''hA'' (demo_meta 600) (empty_db 0) = (Inr (), d1)"
    "GetCode ref_pairing ''A'' d1 = (Inr (h, m), d2)" "now d2 = 0"
    by (simp add: ref_run_simps)
  have "h = ''hA'' \<and> m = Some (demo_meta 600)"
    using run(3) by (intro SetCode_GetCode [OF ref_pairing_inv run(1,2)]) (simp_all add: duration_defs empty_db_def)
  with run(2) show ?thesis by blast
qed

end
