(* ===== verification/Revocation_Repo.thy ===== *)
theory Revocation_Repo
  imports Redis_Use
begin

text \<open>
  Revoked devices and tokens in Redis (internal/repository/revocation_repo.go): a key with a time to
  live per device or token id.  The interface \<open>RevocationRepository\<close> is the locale
  \<open>revocation_repository\<close>, over the set of identities that are revoked at a moment; it is
  interpreted for devices and for tokens.
\<close>

section \<open>Operations\<close>

record 's revocation_repo =
  rev_redis :: "'s redis"
  rev_platform :: "'s platform"

definition revokedDeviceKey :: "'s platform \<Rightarrow> uuid \<Rightarrow> string" where
  "revokedDeviceKey P i = ''revoked:device:'' @ uuid_String P i"

definition revokedTokenKey :: "string \<Rightarrow> string" where
  "revokedTokenKey i = ''revoked:token:'' @ i"

definition RevokeDevice :: "'s revocation_repo \<Rightarrow> uuid \<Rightarrow> int \<Rightarrow> ('s, unit) op" where
  "RevokeDevice R deviceID ttl s =
     (case ask (rev_redis R) (SET (revokedDeviceKey (rev_platform R) deviceID) ''1'' ttl) as_ok s of
        (Inl e, s1) \<Rightarrow> (Inl (Wrapped ''revoke device'' e), s1)
      | (Inr _, s1) \<Rightarrow> (Inr (), s1))"

definition RevokeToken :: "'s revocation_repo \<Rightarrow> string \<Rightarrow> int \<Rightarrow> ('s, unit) op" where
  "RevokeToken R tokenID ttl s =
     (case ask (rev_redis R) (SET (revokedTokenKey tokenID) ''1'' ttl) as_ok s of
        (Inl e, s1) \<Rightarrow> (Inl (Wrapped ''revoke token'' e), s1)
      | (Inr _, s1) \<Rightarrow> (Inr (), s1))"

definition IsDeviceRevoked :: "'s revocation_repo \<Rightarrow> uuid \<Rightarrow> ('s, bool) op" where
  "IsDeviceRevoked R deviceID s =
     (case ask (rev_redis R) (EXISTS (revokedDeviceKey (rev_platform R) deviceID)) as_int s of
        (Inl e, s1) \<Rightarrow> (Inl (Wrapped ''check device revocation'' e), s1)
      | (Inr n, s1) \<Rightarrow> (Inr (0 < n), s1))"

definition IsTokenRevoked :: "'s revocation_repo \<Rightarrow> string \<Rightarrow> ('s, bool) op" where
  "IsTokenRevoked R tokenID s =
     (case ask (rev_redis R) (EXISTS (revokedTokenKey tokenID)) as_int s of
        (Inl e, s1) \<Rightarrow> (Inl (Wrapped ''check token revocation'' e), s1)
      | (Inr n, s1) \<Rightarrow> (Inr (0 < n), s1))"

section \<open>The interface\<close>

text \<open>
  \<open>mark s i t\<close>: with what is stored in \<open>s\<close>, identity \<open>i\<close> counts as revoked at the moment \<open>t\<close>.
  Revoking lasts for the time to live asked for, in Redis's milliseconds, and touches no other identity;
  looking never changes anything, and the answer is the truth at a moment during the call.
\<close>

locale revocation_repository =
  fixes revoke :: "'i \<Rightarrow> int \<Rightarrow> 's \<Rightarrow> (go_error + unit) \<times> 's"
    and revoked :: "'i \<Rightarrow> 's \<Rightarrow> (go_error + bool) \<times> 's"
    and inv :: "'s \<Rightarrow> bool"
    and clock :: "'s \<Rightarrow> int"
    and mark :: "'s \<Rightarrow> 'i \<Rightarrow> int \<Rightarrow> bool"
  assumes revoke_other: "inv s \<Longrightarrow> revoke i ttl s = (r, s') \<Longrightarrow>
      inv s' \<and> clock s \<le> clock s' \<and> (\<forall>j. j \<noteq> i \<longrightarrow> mark s' j = mark s j)"
    and revoke_mark: "inv s \<Longrightarrow> revoke i ttl s = (Inr (), s') \<Longrightarrow> 0 < ttl \<Longrightarrow> t < clock s + in_millis ttl \<Longrightarrow>
      mark s' i t"
    and look_keeps: "inv s \<Longrightarrow> revoked i s = (a, s') \<Longrightarrow> inv s' \<and> clock s \<le> clock s' \<and> mark s' = mark s"
    and look_true: "inv s \<Longrightarrow> revoked i s = (Inr b, s') \<Longrightarrow>
      \<exists>t. clock s \<le> t \<and> t \<le> clock s' \<and> b = mark s i t"
begin

text \<open>A revoked identity is reported as revoked for the whole time to live.\<close>

lemma revoked_for_ttl:
  assumes "inv s" and "revoke i ttl s = (Inr (), s1)" and "0 < ttl" and "inv s2" and "mark s2 i = mark s1 i"
    and "revoked i s2 = (Inr b, s3)" and "clock s3 < clock s + in_millis ttl"
  shows b
proof -
  from look_true [OF assms(4,6)] obtain t where "t \<le> clock s3" "b = mark s2 i t" by blast
  with revoke_mark [OF assms(1-3), of t] assms(5,7) show b by simp
qed

end

section \<open>The repository provides it\<close>

definition key_mark :: "redis_db \<Rightarrow> string \<Rightarrow> int \<Rightarrow> bool" where
  "key_mark d k t = (case entry d k of None \<Rightarrow> False | Some (_, None) \<Rightarrow> True | Some (_, Some e) \<Rightarrow> t < e)"

definition rev_inv :: "'s revocation_repo \<Rightarrow> ('s \<Rightarrow> redis_db) \<Rightarrow> 's \<Rightarrow> bool" where
  "rev_inv R db s \<longleftrightarrow> redis_ok (rev_redis R) db \<and> platform_ok (rev_platform R) db"

lemma key_mark_entry: "entry d' k = entry d k \<Longrightarrow> key_mark d' k = key_mark d k"
  by (simp add: key_mark_def [abs_def])

lemma key_mark_live: "live d k \<noteq> None \<longleftrightarrow> key_mark d k (now d)"
  by (auto simp: key_mark_def live_def split: option.split)

lemma in_millis_dvd: "0 < d \<Longrightarrow> millisecond dvd d \<Longrightarrow> in_millis d = d"
  by (auto simp: in_millis_def dest: zdvd_imp_le)

text \<open>The two operations on one key.\<close>

lemma mark_SET:
  assumes ok: "redis_ok R db" and q: "rd R (SET k v ttl) s = (r, s')"
  shows "now (db s) \<le> now (db s') \<and> (\<forall>k'. k' \<noteq> k \<longrightarrow> key_mark (db s') k' = key_mark (db s) k')
    \<and> (\<forall>x t. r = Inr x \<longrightarrow> 0 < ttl \<longrightarrow> t < now (db s) + in_millis ttl \<longrightarrow> key_mark (db s') k t)"
proof -
  have sv: "served (SET k v ttl) (db s) r (db s')"
    using redis_ok_rd [OF ok, of "SET k v ttl" s] q by simp
  have "key_mark (db s') k t" if r: "r = Inr x" and t: "0 < ttl" "t < now (db s) + in_millis ttl" for x t
  proof (rule served_SET)
    show "served (SET k v ttl) (db s) (Inr x) (db s')" using sv r by simp
    fix u assume u: "now (db s) \<le> u"
      "db s' = put k (VStr v) (if ttl \<le> 0 then None else Some (u + in_millis ttl)) (at_time u (db s))"
    show ?thesis
      using u t by (auto simp: key_mark_def)
  qed
  with served_entry [OF sv] served_now [OF sv] show ?thesis
    by (auto intro: key_mark_entry)
qed

lemma mark_EXISTS:
  assumes ok: "redis_ok R db" and q: "rd R (EXISTS k) s = (r, s')"
  shows "ages (db s) (db s') \<and> (\<forall>n. r = Inr (RInt n) \<longrightarrow>
    (\<exists>t. now (db s) \<le> t \<and> t \<le> now (db s') \<and> (0 < n) = key_mark (db s) k t))"
proof -
  have sv: "served (EXISTS k) (db s) r (db s')"
    using redis_ok_rd [OF ok, of "EXISTS k" s] q by simp
  have "\<exists>t. now (db s) \<le> t \<and> t \<le> now (db s') \<and> (0 < n) = key_mark (db s) k t" if r: "r = Inr (RInt n)" for n
  proof (rule served_Inr)
    show "served (EXISTS k) (db s) (Inr (RInt n)) (db s')" using sv r by simp
    fix t assume t: "now (db s) \<le> t" "exec (EXISTS k) (at_time t (db s)) = (Inr (RInt n), db s')"
    have "live (at_time t (db s)) k \<noteq> None \<longleftrightarrow> key_mark (db s) k t"
      using key_mark_live [of "at_time t (db s)" k] key_mark_entry [of "at_time t (db s)" k "db s"] by simp
    moreover have "now (db s') = t"
      using t(2) now_at_time [of t "db s"] by auto
    ultimately show ?thesis
      using t by (intro exI [of _ t]) (auto split: if_splits)
  qed simp
  moreover have "ages (db s) (db s')"
    unfolding ages_def using served_now [OF sv] served_entry [OF sv] by auto
  ultimately show ?thesis by blast
qed

lemma as_int_Inr: "as_int r = Inr n \<longleftrightarrow> r = Inr (RInt n)"
  by (cases r rule: as_int.cases) auto

lemma as_ok_Inr: "as_ok r = Inr x \<longleftrightarrow> r = Inr ROk"
  by (cases r rule: as_ok.cases) auto

lemma ages_mark: "ages d d' \<Longrightarrow> key_mark d' k = key_mark d k"
  by (rule key_mark_entry) (simp add: ages_def)

interpretation devices: revocation_repository
  "RevokeDevice R" "IsDeviceRevoked R" "rev_inv R db" "\<lambda>s. now (db s)"
  "\<lambda>s i. key_mark (db s) (revokedDeviceKey (rev_platform R) i)"
  for R :: "'s revocation_repo" and db :: "'s \<Rightarrow> redis_db"
proof (unfold_locales, goal_cases)
  case (1 s i ttl r s')
  have "revokedDeviceKey (rev_platform R) j \<noteq> revokedDeviceKey (rev_platform R) i" if "j \<noteq> i" for j
    using 1(1) that platform_okD(3) [of "rev_platform R" db]
    by (auto simp: rev_inv_def revokedDeviceKey_def dest: injD)
  with 1 mark_SET [of "rev_redis R" db "revokedDeviceKey (rev_platform R) i" "''1''" ttl s] show ?case
    by (auto simp: RevokeDevice_def ask_def rev_inv_def split: prod.splits sum.splits)
next
  case (2 s i ttl s' t)
  with mark_SET [of "rev_redis R" db "revokedDeviceKey (rev_platform R) i" "''1''" ttl s] show ?case
    by (auto simp: RevokeDevice_def ask_def rev_inv_def as_ok_Inr split: prod.splits sum.splits)
next
  case (3 s i a s')
  with mark_EXISTS [of "rev_redis R" db "revokedDeviceKey (rev_platform R) i" s] show ?case
    by (auto simp: IsDeviceRevoked_def ask_def rev_inv_def ages_mark ages_def split: prod.splits sum.splits)
next
  case (4 s i b s')
  with mark_EXISTS [of "rev_redis R" db "revokedDeviceKey (rev_platform R) i" s] show ?case
    by (auto simp: IsDeviceRevoked_def ask_def rev_inv_def as_int_Inr split: prod.splits sum.splits)
qed

interpretation tokens: revocation_repository
  "RevokeToken R" "IsTokenRevoked R" "rev_inv R db" "\<lambda>s. now (db s)"
  "\<lambda>s i. key_mark (db s) (revokedTokenKey i)"
  for R :: "'s revocation_repo" and db :: "'s \<Rightarrow> redis_db"
proof (unfold_locales, goal_cases)
  case (1 s i ttl r s')
  with mark_SET [of "rev_redis R" db "revokedTokenKey i" "''1''" ttl s] show ?case
    by (auto simp: RevokeToken_def ask_def rev_inv_def revokedTokenKey_def split: prod.splits sum.splits)
next
  case (2 s i ttl s' t)
  with mark_SET [of "rev_redis R" db "revokedTokenKey i" "''1''" ttl s] show ?case
    by (auto simp: RevokeToken_def ask_def rev_inv_def as_ok_Inr split: prod.splits sum.splits)
next
  case (3 s i a s')
  with mark_EXISTS [of "rev_redis R" db "revokedTokenKey i" s] show ?case
    by (auto simp: IsTokenRevoked_def ask_def rev_inv_def ages_mark ages_def split: prod.splits sum.splits)
next
  case (4 s i b s')
  with mark_EXISTS [of "rev_redis R" db "revokedTokenKey i" s] show ?case
    by (auto simp: IsTokenRevoked_def ask_def rev_inv_def as_int_Inr split: prod.splits sum.splits)
qed

end
