(* ===== verification/Claims.thy ===== *)
theory Claims
  imports Upstream
begin

text \<open>
  Identities carried by tokens (internal/domain/customer.go and device.go).  A \<open>uuid.UUID\<close> is its
  sixteen bytes, a \<open>128 word\<close>; instants are nanoseconds since the epoch.
\<close>

record CustomerClaims =
  cc_MemberID :: uuid
  cc_TokenID :: string
  cc_ExpiresAt :: int

record KioskLoyaltyClaims =
  kc_MemberID :: uuid
  kc_DeviceID :: uuid
  kc_ExpiresAt :: int

record DeviceTokenClaims =
  dc_DeviceID :: uuid
  dc_DeviceType :: string
  dc_SerialNumber :: string
  dc_RestaurantID :: uuid
  dc_TokenID :: string
  dc_IssuedAt :: int
  dc_NotBefore :: int
  dc_ExpiresAt :: int

definition DeviceTypeKiosk :: string where "DeviceTypeKiosk = ''kiosk''"
definition DeviceTypeKDS :: string where "DeviceTypeKDS = ''kds''"
definition DeviceTypeOrderDisplay :: string where "DeviceTypeOrderDisplay = ''order_display''"
definition DeviceTypePOS :: string where "DeviceTypePOS = ''pos''"

lemmas device_type_defs [go_simps] =
  DeviceTypeKiosk_def DeviceTypeKDS_def DeviceTypeOrderDisplay_def DeviceTypePOS_def

end
