(* ===== verification/Tokens.thy ===== *)
theory Tokens
  imports Claims Platform
begin

text \<open>
  The tokens of devices (pkg/jwt/device.go) and customers (pkg/jwt/customer.go).  golang-jwt is a
  parameter: signing a set of claims, and parsing a token with a secret, an issuer and perhaps an
  audience at a moment; \<open>jwt_ok\<close> is what its documentation says of a token it signed itself.
\<close>

section \<open>golang-jwt\<close>

datatype jclaim = JStr string | JNum int

type_synonym claims_map = "string \<rightharpoonup> jclaim"

datatype jwt_error = JwtExpired | JwtOther string

record jwt_lib =
  jwt_sign :: "string \<Rightarrow> claims_map \<Rightarrow> go_error + string"
  jwt_parse :: "string \<Rightarrow> string \<Rightarrow> string option \<Rightarrow> int \<Rightarrow> string \<Rightarrow> jwt_error + claims_map"

text \<open>
  The validator: the expiry is checked first (an expired token is reported as such whatever else is
  wrong), a time claim that is missing is not checked, the issuer and, when asked for, the audience
  must be there and equal.
\<close>

definition validated :: "string \<Rightarrow> string option \<Rightarrow> int \<Rightarrow> claims_map \<Rightarrow> (jwt_error + claims_map) \<Rightarrow> bool" where
  "validated iss aud t c r \<longleftrightarrow>
     (if \<exists>e. c ''exp'' = Some (JNum e) \<and> e * second \<le> t then r = Inl JwtExpired
      else if (\<exists>n. c ''nbf'' = Some (JNum n) \<and> t < n * second) \<or> c ''iss'' \<noteq> Some (JStr iss)
           \<or> (\<exists>a. aud = Some a \<and> c ''aud'' \<noteq> Some (JStr a))
      then \<exists>m. r = Inl (JwtOther m)
      else r = Inr c)"

text \<open>
  A token signed with a secret parses, with that secret, to its claims.  The claims travel as JSON,
  which keeps strings of ASCII characters (other valid UTF-8 too, but this is all that is used).
\<close>

definition plain_claims :: "claims_map \<Rightarrow> bool" where
  "plain_claims c \<longleftrightarrow> (\<forall>k v. c k = Some (JStr v) \<longrightarrow> plain v)"

definition jwt_ok :: "jwt_lib \<Rightarrow> bool" where
  "jwt_ok L \<longleftrightarrow>
     (\<forall>secret c raw iss aud t. jwt_sign L secret c = Inr raw \<and> plain_claims c \<longrightarrow>
        validated iss aud t c (jwt_parse L secret iss aud t raw))"

definition stringClaim :: "claims_map \<Rightarrow> string \<Rightarrow> string" where
  "stringClaim c k = (case c k of Some (JStr v) \<Rightarrow> v | _ \<Rightarrow> '''')"

text \<open>
  \<open>GetExpirationTime\<close> and its like: the instant of a time claim, nil when it is missing; using a nil
  one is a nil-pointer panic, an error here.
\<close>

definition time_claim :: "claims_map \<Rightarrow> string \<Rightarrow> int option" where
  "time_claim c k = (case c k of Some (JNum n) \<Rightarrow> Some (n * second) | _ \<Rightarrow> None)"

definition nil_panic :: go_error where
  "nil_panic = Sentinel ''panic: invalid memory address or nil pointer dereference''"

section \<open>pkg/jwt/device.go\<close>

definition ErrTokenExpired :: string where "ErrTokenExpired = ''token expired''"
definition ErrTokenInvalid :: string where "ErrTokenInvalid = ''token invalid''"

fun jwt_error_text :: "jwt_error \<Rightarrow> string" where
  "jwt_error_text JwtExpired = ''token is expired''"
| "jwt_error_text (JwtOther m) = m"

definition invalid_because :: "string \<Rightarrow> go_error" where
  "invalid_because m = WrappedBy (Sentinel ErrTokenInvalid) m"

fun parse_error :: "jwt_error \<Rightarrow> go_error" where
  "parse_error JwtExpired = Sentinel ErrTokenExpired"
| "parse_error (JwtOther m) = invalid_because m"

record DeviceTokenManager =
  dm_secret :: string
  dm_issuer :: string
  dm_ttl :: int

definition TTL_of :: "DeviceTokenManager \<Rightarrow> int" where
  "TTL_of m = dm_ttl m"

definition device_claims_map :: "'s platform \<Rightarrow> DeviceTokenManager \<Rightarrow> DeviceTokenClaims \<Rightarrow> claims_map" where
  "device_claims_map P m c =
     [''iss'' \<mapsto> JStr (dm_issuer m),
      ''sub'' \<mapsto> JStr (uuid_String P (dc_DeviceID c)),
      ''jti'' \<mapsto> JStr (dc_TokenID c),
      ''device_id'' \<mapsto> JStr (uuid_String P (dc_DeviceID c)),
      ''device_type'' \<mapsto> JStr (dc_DeviceType c),
      ''serial_number'' \<mapsto> JStr (dc_SerialNumber c),
      ''restaurant_id'' \<mapsto> JStr (uuid_String P (dc_RestaurantID c)),
      ''iat'' \<mapsto> JNum (unix (dc_IssuedAt c)),
      ''nbf'' \<mapsto> JNum (unix (dc_NotBefore c)),
      ''exp'' \<mapsto> JNum (unix (dc_ExpiresAt c))]"

definition Issue ::
  "'s platform \<Rightarrow> jwt_lib \<Rightarrow> DeviceTokenManager \<Rightarrow> uuid \<Rightarrow> string \<Rightarrow> string \<Rightarrow> uuid
     \<Rightarrow> ('s, DeviceTokenClaims \<times> string) op" where
  "Issue P L m deviceID deviceType serial restaurantID s =
     (let (t, s1) = Now P s;
          (jti, s2) = uuid_NewString P s1;
          claims = \<lparr>dc_DeviceID = deviceID, dc_DeviceType = deviceType, dc_SerialNumber = serial,
                    dc_RestaurantID = restaurantID, dc_TokenID = jti, dc_IssuedAt = t,
                    dc_NotBefore = t, dc_ExpiresAt = t + dm_ttl m\<rparr>
      in case jwt_sign L (dm_secret m) (device_claims_map P m claims) of
           Inl e \<Rightarrow> (Inl (Wrapped ''sign device token'' e), s2)
         | Inr tok \<Rightarrow> (Inr (claims, tok), s2))"

definition Verify ::
  "'s platform \<Rightarrow> jwt_lib \<Rightarrow> DeviceTokenManager \<Rightarrow> string \<Rightarrow> ('s, DeviceTokenClaims) op" where
  "Verify P L m raw s =
     (let (t, s1) = Now P s in
      case jwt_parse L (dm_secret m) (dm_issuer m) None t raw of
        Inl e \<Rightarrow> (Inl (parse_error e), s1)
      | Inr c \<Rightarrow>
          (case uuid_Parse P (stringClaim c ''device_id'') of
             Inl _ \<Rightarrow> (Inl (invalid_because ''bad device_id''), s1)
           | Inr deviceID \<Rightarrow>
               (case uuid_Parse P (stringClaim c ''restaurant_id'') of
                  Inl _ \<Rightarrow> (Inl (invalid_because ''bad restaurant_id''), s1)
                | Inr restaurantID \<Rightarrow>
                    (case (time_claim c ''exp'', time_claim c ''iat'', time_claim c ''nbf'') of
                       (Some e, Some i, Some n) \<Rightarrow>
                         (Inr \<lparr>dc_DeviceID = deviceID, dc_DeviceType = stringClaim c ''device_type'',
                               dc_SerialNumber = stringClaim c ''serial_number'',
                               dc_RestaurantID = restaurantID, dc_TokenID = stringClaim c ''jti'',
                               dc_IssuedAt = i, dc_NotBefore = n, dc_ExpiresAt = e\<rparr>, s1)
                     | _ \<Rightarrow> (Inl nil_panic, s1)))))"

section \<open>pkg/jwt/customer.go\<close>

definition audCustomer :: string where "audCustomer = ''kfc-customer''"
definition audKioskLoyalty :: string where "audKioskLoyalty = ''kfc-kiosk-loyalty''"

record CustomerTokenManager =
  cm_secret :: string
  cm_issuer :: string
  cm_accessTTL :: int
  cm_kioskTTL :: int

definition sign :: "jwt_lib \<Rightarrow> CustomerTokenManager \<Rightarrow> claims_map \<Rightarrow> go_error + string" where
  "sign L m claims =
     (case jwt_sign L (cm_secret m) claims of
        Inl e \<Rightarrow> Inl (Wrapped ''sign customer token'' e) | Inr tok \<Rightarrow> Inr tok)"

definition parse_token ::
  "'s platform \<Rightarrow> jwt_lib \<Rightarrow> CustomerTokenManager \<Rightarrow> string \<Rightarrow> string \<Rightarrow> ('s, claims_map) op" where
  "parse_token P L m raw audience s =
     (let (t, s1) = Now P s in
      case jwt_parse L (cm_secret m) (cm_issuer m) (Some audience) t raw of
        Inl e \<Rightarrow> (Inl (parse_error e), s1)
      | Inr c \<Rightarrow> (Inr c, s1))"

definition IssueAccess ::
  "'s platform \<Rightarrow> jwt_lib \<Rightarrow> CustomerTokenManager \<Rightarrow> uuid \<Rightarrow> ('s, string \<times> int) op" where
  "IssueAccess P L m memberID s =
     (let (t0, s1) = Now P s;
          e = t0 + cm_accessTTL m;
          (jti, s2) = uuid_NewString P s1;
          (t1, s3) = Now P s2
      in case sign L m [''iss'' \<mapsto> JStr (cm_issuer m), ''aud'' \<mapsto> JStr audCustomer,
                        ''sub'' \<mapsto> JStr (uuid_String P memberID), ''jti'' \<mapsto> JStr jti,
                        ''iat'' \<mapsto> JNum (unix t1), ''exp'' \<mapsto> JNum (unix e)] of
           Inl err \<Rightarrow> (Inl err, s3)
         | Inr tok \<Rightarrow> (Inr (tok, e), s3))"

definition VerifyAccess ::
  "'s platform \<Rightarrow> jwt_lib \<Rightarrow> CustomerTokenManager \<Rightarrow> string \<Rightarrow> ('s, CustomerClaims) op" where
  "VerifyAccess P L m raw s =
     (case parse_token P L m raw audCustomer s of
        (Inl e, s1) \<Rightarrow> (Inl e, s1)
      | (Inr c, s1) \<Rightarrow>
          (case uuid_Parse P (stringClaim c ''sub'') of
             Inl _ \<Rightarrow> (Inl (invalid_because ''bad sub''), s1)
           | Inr memberID \<Rightarrow>
               (case time_claim c ''exp'' of
                  None \<Rightarrow> (Inl nil_panic, s1)
                | Some e \<Rightarrow> (Inr \<lparr>cc_MemberID = memberID, cc_TokenID = stringClaim c ''jti'',
                                  cc_ExpiresAt = e\<rparr>, s1))))"

definition IssueKioskSession ::
  "'s platform \<Rightarrow> jwt_lib \<Rightarrow> CustomerTokenManager \<Rightarrow> uuid \<Rightarrow> uuid \<Rightarrow> ('s, string \<times> int) op" where
  "IssueKioskSession P L m memberID deviceID s =
     (let (t0, s1) = Now P s;
          e = t0 + cm_kioskTTL m;
          (t1, s2) = Now P s1
      in case sign L m [''iss'' \<mapsto> JStr (cm_issuer m), ''aud'' \<mapsto> JStr audKioskLoyalty,
                        ''sub'' \<mapsto> JStr (uuid_String P memberID),
                        ''device_id'' \<mapsto> JStr (uuid_String P deviceID),
                        ''iat'' \<mapsto> JNum (unix t1), ''exp'' \<mapsto> JNum (unix e)] of
           Inl err \<Rightarrow> (Inl err, s2)
         | Inr tok \<Rightarrow> (Inr (tok, e), s2))"

definition VerifyKioskSession ::
  "'s platform \<Rightarrow> jwt_lib \<Rightarrow> CustomerTokenManager \<Rightarrow> string \<Rightarrow> ('s, KioskLoyaltyClaims) op" where
  "VerifyKioskSession P L m raw s =
     (case parse_token P L m raw audKioskLoyalty s of
        (Inl e, s1) \<Rightarrow> (Inl e, s1)
      | (Inr c, s1) \<Rightarrow>
          (case (uuid_Parse P (stringClaim c ''sub''), uuid_Parse P (stringClaim c ''device_id'')) of
             (Inr memberID, Inr deviceID) \<Rightarrow>
               (case time_claim c ''exp'' of
                  None \<Rightarrow> (Inl nil_panic, s1)
                | Some e \<Rightarrow> (Inr \<lparr>kc_MemberID = memberID, kc_DeviceID = deviceID, kc_ExpiresAt = e\<rparr>, s1))
           | _ \<Rightarrow> (Inl (invalid_because ''bad claims''), s1)))"

section \<open>Lemmas\<close>

lemma jwt_okD:
  "jwt_ok L \<Longrightarrow> jwt_sign L secret c = Inr raw \<Longrightarrow> plain_claims c \<Longrightarrow>
   validated iss aud t c (jwt_parse L secret iss aud t raw)"
  unfolding jwt_ok_def by blast

lemma unix_le: "unix t * second \<le> t"
  using div_mult_mod_eq [of t second] pos_mod_sign [of second t] by (simp add: unix_def second_def)

lemma unix_gt: "t - second < unix t * second"
  using div_mult_mod_eq [of t second] pos_mod_bound [of second t] by (simp add: unix_def second_def)

lemma plain_claims_empty [simp]: "plain_claims Map.empty"
  by (simp add: plain_claims_def)

lemma plain_claims_upd:
  assumes "plain_claims c" and "case v of JStr x \<Rightarrow> plain x | JNum _ \<Rightarrow> True"
  shows "plain_claims (c(k \<mapsto> v))"
  using assms by (auto simp: plain_claims_def)

lemma Now_ages: "platform_ok P db \<Longrightarrow> Now P s = (t, s') \<Longrightarrow> ages (db s) (db s')"
  using aside_ages platform_okD(2) by metis

lemma NewString_ages: "platform_ok P db \<Longrightarrow> uuid_NewString P s = (u, s') \<Longrightarrow> ages (db s) (db s')"
  using aside_ages platform_okD(5) by metis

text \<open>Issuing and verifying tokens never touches what is stored in Redis.\<close>

lemma Issue_ages:
  assumes "platform_ok P db" and "Issue P L m d ty se r s = (x, s')"
  shows "ages (db s) (db s')"
proof -
  obtain t s1 where 1: "Now P s = (t, s1)" by (cases "Now P s")
  obtain j s2 where 2: "uuid_NewString P s1 = (j, s2)" by (cases "uuid_NewString P s1")
  from 1 2 assms(2) have "s' = s2"
    by (auto simp: Issue_def Let_def split: sum.splits)
  with Now_ages [OF assms(1) 1] NewString_ages [OF assms(1) 2] show ?thesis
    using ages_trans by blast
qed

lemma device_token_roundtrip_aux:
  assumes P: "platform_ok P db" and L: "jwt_ok L"
    and issue: "Issue P L m d ty se r s = (Inr (claims, raw), s1)"
    and plain: "plain (dm_issuer m)" "plain ty" "plain se"
    and later: "now (db s1) \<le> now (db s2)" and verify: "Verify P L m raw s2 = (x, s3)"
  shows "if now (db s3) < unix (dc_ExpiresAt claims) * second
    then \<exists>c. x = Inr c \<and> dc_DeviceID c = d \<and> dc_DeviceType c = ty \<and> dc_SerialNumber c = se
      \<and> dc_RestaurantID c = r \<and> dc_TokenID c = dc_TokenID claims
      \<and> dc_ExpiresAt c = unix (dc_ExpiresAt claims) * second
    else x = Inl (Sentinel ErrTokenExpired)"
proof -
  obtain t0 u1 where n: "Now P s = (t0, u1)" by (cases "Now P s")
  obtain j u2 where j: "uuid_NewString P u1 = (j, u2)" by (cases "uuid_NewString P u1")
  from issue n j have claims: "claims = \<lparr>dc_DeviceID = d, dc_DeviceType = ty, dc_SerialNumber = se,
      dc_RestaurantID = r, dc_TokenID = j, dc_IssuedAt = t0, dc_NotBefore = t0, dc_ExpiresAt = t0 + dm_ttl m\<rparr>"
    and sign: "jwt_sign L (dm_secret m) (device_claims_map P m claims) = Inr raw" and s1: "s1 = u2"
    by (auto simp: Issue_def Let_def split: sum.splits)
  obtain t u3 where n2: "Now P s2 = (t, u3)" by (cases "Now P s2")
  have db: "now (db s) \<le> t0" "now (db u1) = t0" "now (db s2) \<le> t" "db u3 = at_time t (db s2)"
    using clock_okD [OF platform_okD(1) [OF P] n] clock_okD [OF platform_okD(1) [OF P] n2] by auto
  have t0: "t0 \<le> t"
    using db later s1 NewString_ages [OF P j] by (simp add: ages_def)
  have V: "validated (dm_issuer m) None t (device_claims_map P m claims)
     (jwt_parse L (dm_secret m) (dm_issuer m) None t raw)"
  proof (rule jwt_okD [OF L sign])
    have "plain j" using platform_okD(13) [OF P, of u1] j by simp
    with plain platform_okD(12) [OF P] show "plain_claims (device_claims_map P m claims)"
      unfolding device_claims_map_def claims
      by (intro plain_claims_upd plain_claims_empty) simp_all
  qed
  have s3: "s3 = u3"
    using verify n2 by (auto simp: Verify_def Let_def split: sum.splits prod.splits option.splits)
  have nbf: "unix t0 * second \<le> t"
    using unix_le [of t0] t0 by simp
  show ?thesis
  proof (cases "t < unix (dc_ExpiresAt claims) * second")
    case True
    then have "jwt_parse L (dm_secret m) (dm_issuer m) None t raw = Inr (device_claims_map P m claims)"
      using V nbf by (auto simp: validated_def device_claims_map_def claims)
    with verify n2 True s3 db platform_okD(4) [OF P] show ?thesis
      by (auto simp: Verify_def device_claims_map_def stringClaim_def time_claim_def claims)
  next
    case False
    then have "jwt_parse L (dm_secret m) (dm_issuer m) None t raw = Inl JwtExpired"
      using V by (auto simp: validated_def device_claims_map_def claims)
    with verify n2 False s3 db show ?thesis
      by (auto simp: Verify_def)
  qed
qed

section \<open>Properties\<close>

text \<open>
  C19. A device token means what it was issued for.  A token issued for a device is accepted, by the
  manager that issued it, at any later moment before its expiry (to the second), with exactly the
  device, type, serial number, restaurant and token id it was issued with; from its expiry on it is
  rejected as expired.
\<close>

theorem device_token_roundtrip:
  assumes P: "platform_ok P db" and L: "jwt_ok L"
    and issue: "Issue P L m d ty se r s = (Inr (claims, raw), s1)"
    and plain: "plain (dm_issuer m)" "plain ty" "plain se"
    and later: "now (db s1) \<le> now (db s2)" and verify: "Verify P L m raw s2 = (x, s3)"
  shows "if now (db s3) < unix (dc_ExpiresAt claims) * second
    then \<exists>c. x = Inr c \<and> dc_DeviceID c = d \<and> dc_DeviceType c = ty \<and> dc_SerialNumber c = se
      \<and> dc_RestaurantID c = r \<and> dc_TokenID c = dc_TokenID claims
      \<and> dc_ExpiresAt c = unix (dc_ExpiresAt claims) * second
    else x = Inl (Sentinel ErrTokenExpired)"
  using assms by (rule device_token_roundtrip_aux)

text \<open>The two kinds of customer tokens, signed.\<close>

definition access_claims :: "'s platform \<Rightarrow> CustomerTokenManager \<Rightarrow> uuid \<Rightarrow> string \<Rightarrow> int \<Rightarrow> int \<Rightarrow> claims_map" where
  "access_claims P m u jti i e =
     [''iss'' \<mapsto> JStr (cm_issuer m), ''aud'' \<mapsto> JStr audCustomer, ''sub'' \<mapsto> JStr (uuid_String P u),
      ''jti'' \<mapsto> JStr jti, ''iat'' \<mapsto> JNum i, ''exp'' \<mapsto> JNum e]"

definition kiosk_claims :: "'s platform \<Rightarrow> CustomerTokenManager \<Rightarrow> uuid \<Rightarrow> uuid \<Rightarrow> int \<Rightarrow> int \<Rightarrow> claims_map" where
  "kiosk_claims P m u d i e =
     [''iss'' \<mapsto> JStr (cm_issuer m), ''aud'' \<mapsto> JStr audKioskLoyalty, ''sub'' \<mapsto> JStr (uuid_String P u),
      ''device_id'' \<mapsto> JStr (uuid_String P d), ''iat'' \<mapsto> JNum i, ''exp'' \<mapsto> JNum e]"

lemma audience_defs: "audCustomer \<noteq> audKioskLoyalty" "plain audCustomer" "plain audKioskLoyalty"
  by (simp_all add: audCustomer_def audKioskLoyalty_def plain_def)

lemma customer_claims_plain:
  assumes "platform_ok P db" and "plain (cm_issuer m)"
  shows "plain jti \<Longrightarrow> plain_claims (access_claims P m u jti i e)"
    and "plain_claims (kiosk_claims P m u d i e)"
  using assms platform_okD(12) [OF assms(1)] audience_defs
  by (auto simp: access_claims_def kiosk_claims_def intro!: plain_claims_upd)

lemma IssueAccess_sign:
  assumes P: "platform_ok P db" and "IssueAccess P L m u s = (Inr (raw, e), s1)"
  shows "\<exists>jti i. plain jti \<and> jwt_sign L (cm_secret m) (access_claims P m u jti i (unix e)) = Inr raw
    \<and> ages (db s) (db s1) \<and> e \<le> now (db s1) + cm_accessTTL m \<and> now (db s) + cm_accessTTL m \<le> e"
proof -
  obtain t0 u1 where 0: "Now P s = (t0, u1)" by (cases "Now P s")
  obtain j u2 where 1: "uuid_NewString P u1 = (j, u2)" by (cases "uuid_NewString P u1")
  obtain t1 u3 where 2: "Now P u2 = (t1, u3)" by (cases "Now P u2")
  from assms(2) 0 1 2 have sg: "jwt_sign L (cm_secret m) (access_claims P m u j (unix t1) (unix e)) = Inr raw"
    and e: "e = t0 + cm_accessTTL m" and s1: "s1 = u3"
    by (auto simp: IssueAccess_def sign_def access_claims_def Let_def split: sum.splits)
  have a: "ages (db u1) (db u3)"
    using NewString_ages [OF P 1] Now_ages [OF P 2] ages_trans by blast
  have "now (db s) \<le> t0 \<and> now (db u1) = t0"
    using clock_okD [OF platform_okD(1) [OF P] 0] by simp
  with sg e s1 a Now_ages [OF P 0] platform_okD(13) [OF P, of u1] 1 show ?thesis
    by (intro exI [of _ j] exI [of _ "unix t1"]) (auto simp: ages_def)
qed

lemma IssueKioskSession_sign:
  assumes P: "platform_ok P db" and "IssueKioskSession P L m u d s = (Inr (raw, e), s1)"
  shows "\<exists>i. jwt_sign L (cm_secret m) (kiosk_claims P m u d i (unix e)) = Inr raw
    \<and> ages (db s) (db s1) \<and> e \<le> now (db s1) + cm_kioskTTL m"
proof -
  obtain t0 u1 where 0: "Now P s = (t0, u1)" by (cases "Now P s")
  obtain t1 u2 where 1: "Now P u1 = (t1, u2)" by (cases "Now P u1")
  from assms(2) 0 1 have sg: "jwt_sign L (cm_secret m) (kiosk_claims P m u d (unix t1) (unix e)) = Inr raw"
    and e: "e = t0 + cm_kioskTTL m" and s1: "s1 = u2"
    by (auto simp: IssueKioskSession_def sign_def kiosk_claims_def Let_def split: sum.splits)
  have "now (db u1) = t0"
    using clock_okD [OF platform_okD(1) [OF P] 0] by simp
  with sg e s1 Now_ages [OF P 0] Now_ages [OF P 1] show ?thesis
    by (intro exI [of _ "unix t1"]) (auto simp: ages_def)
qed

lemma IssueAccess_ages:
  assumes P: "platform_ok P db" and "IssueAccess P L m u s = (x, s1)"
  shows "ages (db s) (db s1)"
proof -
  obtain t0 u1 where 0: "Now P s = (t0, u1)" by (cases "Now P s")
  obtain j u2 where 1: "uuid_NewString P u1 = (j, u2)" by (cases "uuid_NewString P u1")
  obtain t1 u3 where 2: "Now P u2 = (t1, u3)" by (cases "Now P u2")
  from assms(2) 0 1 2 have "s1 = u3" by (auto simp: IssueAccess_def Let_def split: sum.splits)
  with Now_ages [OF P 0] NewString_ages [OF P 1] Now_ages [OF P 2] show ?thesis
    using ages_trans by blast
qed

text \<open>
  C20. A kiosk session binds a member to one kiosk.  The session token issued for a member at a device
  verifies, while it lasts, to exactly that member and device; once it has expired it is rejected.
\<close>

theorem kiosk_session_roundtrip:
  assumes P: "platform_ok P db" and L: "jwt_ok L" and iss: "plain (cm_issuer m)"
    and issue: "IssueKioskSession P L m u d s = (Inr (raw, e), s1)"
    and verify: "VerifyKioskSession P L m raw s2 = (x, s3)"
  shows "if now (db s3) < unix e * second
    then x = Inr \<lparr>kc_MemberID = u, kc_DeviceID = d, kc_ExpiresAt = unix e * second\<rparr>
    else x = Inl (Sentinel ErrTokenExpired)"
proof -
  obtain i where sg: "jwt_sign L (cm_secret m) (kiosk_claims P m u d i (unix e)) = Inr raw"
    using IssueKioskSession_sign [OF P issue] by blast
  obtain t u3 where n: "Now P s2 = (t, u3)" by (cases "Now P s2")
  have V: "validated (cm_issuer m) (Some audKioskLoyalty) t (kiosk_claims P m u d i (unix e))
      (jwt_parse L (cm_secret m) (cm_issuer m) (Some audKioskLoyalty) t raw)"
    by (rule jwt_okD [OF L sg customer_claims_plain(2) [OF P iss]])
  have s3: "s3 = u3"
    using verify n
    by (auto simp: VerifyKioskSession_def parse_token_def Let_def split: sum.splits prod.splits option.splits)
  have t: "now (db s3) = t"
    using clock_okD [OF platform_okD(1) [OF P] n] s3 by simp
  show ?thesis
  proof (cases "t < unix e * second")
    case True
    then have "jwt_parse L (cm_secret m) (cm_issuer m) (Some audKioskLoyalty) t raw
        = Inr (kiosk_claims P m u d i (unix e))"
      using V by (auto simp: validated_def kiosk_claims_def)
    with verify n True t platform_okD(4) [OF P] show ?thesis
      by (auto simp: VerifyKioskSession_def parse_token_def kiosk_claims_def stringClaim_def time_claim_def)
  next
    case False
    then have "jwt_parse L (cm_secret m) (cm_issuer m) (Some audKioskLoyalty) t raw = Inl JwtExpired"
      using V by (auto simp: validated_def kiosk_claims_def)
    with verify n False t show ?thesis
      by (auto simp: VerifyKioskSession_def parse_token_def)
  qed
qed

text \<open>
  The two kinds of customer token are not interchangeable: an access token is never accepted as a
  kiosk session, nor a kiosk session as an access token, at any time.
\<close>

theorem token_kinds_separate:
  assumes P: "platform_ok P db" and L: "jwt_ok L" and iss: "plain (cm_issuer m)"
  shows "(IssueAccess P L m u s = (Inr (raw, e), s1) \<longrightarrow> (\<exists>err. fst (VerifyKioskSession P L m raw s2) = Inl err))
    \<and> (IssueKioskSession P L m u d s = (Inr (raw, e), s1) \<longrightarrow> (\<exists>err. fst (VerifyAccess P L m raw s2) = Inl err))"
proof (intro conjI impI)
  obtain t u3 where n: "Now P s2 = (t, u3)" by (cases "Now P s2")
  { assume "IssueAccess P L m u s = (Inr (raw, e), s1)"
    then obtain jti i where j: "plain jti" "jwt_sign L (cm_secret m) (access_claims P m u jti i (unix e)) = Inr raw"
      using IssueAccess_sign [OF P] by blast
    have "validated (cm_issuer m) (Some audKioskLoyalty) t (access_claims P m u jti i (unix e))
      (jwt_parse L (cm_secret m) (cm_issuer m) (Some audKioskLoyalty) t raw)"
      by (rule jwt_okD [OF L j(2) customer_claims_plain(1) [OF P iss j(1)]])
    then have "\<exists>err. jwt_parse L (cm_secret m) (cm_issuer m) (Some audKioskLoyalty) t raw = Inl err"
      using audience_defs(1) by (auto simp: validated_def access_claims_def split: if_splits)
    then show "\<exists>err. fst (VerifyKioskSession P L m raw s2) = Inl err"
      using n by (auto simp: VerifyKioskSession_def parse_token_def) }
  { assume "IssueKioskSession P L m u d s = (Inr (raw, e), s1)"
    then obtain i where i: "jwt_sign L (cm_secret m) (kiosk_claims P m u d i (unix e)) = Inr raw"
      using IssueKioskSession_sign [OF P] by blast
    have "validated (cm_issuer m) (Some audCustomer) t (kiosk_claims P m u d i (unix e))
      (jwt_parse L (cm_secret m) (cm_issuer m) (Some audCustomer) t raw)"
      by (rule jwt_okD [OF L i customer_claims_plain(2) [OF P iss]])
    then have "\<exists>err. jwt_parse L (cm_secret m) (cm_issuer m) (Some audCustomer) t raw = Inl err"
      using audience_defs(1) by (auto simp: validated_def kiosk_claims_def split: if_splits)
    then show "\<exists>err. fst (VerifyAccess P L m raw s2) = Inl err"
      using n by (auto simp: VerifyAccess_def parse_token_def) }
qed

section \<open>A library that behaves as documented\<close>

text \<open>For the witnesses: it knows how to write one set of claims, and refuses the rest.\<close>

definition ref_jwt :: "claims_map \<Rightarrow> jwt_lib" where
  "ref_jwt c0 =
     \<lparr>jwt_sign = (\<lambda>_ c. if c = c0 then Inr ''token'' else Inl (Text ''unsupported claims'')),
      jwt_parse = (\<lambda>_ iss aud t _.
        if \<exists>e. c0 ''exp'' = Some (JNum e) \<and> e * second \<le> t then Inl JwtExpired
        else if (\<exists>n. c0 ''nbf'' = Some (JNum n) \<and> t < n * second) \<or> c0 ''iss'' \<noteq> Some (JStr iss)
           \<or> (\<exists>a. aud = Some a \<and> c0 ''aud'' \<noteq> Some (JStr a)) then Inl (JwtOther ''invalid'')
        else Inr c0)\<rparr>"

lemma ref_jwt_ok: "jwt_ok (ref_jwt c0)"
  by (auto simp: jwt_ok_def ref_jwt_def validated_def split: if_splits)

definition demo_devices :: DeviceTokenManager where
  "demo_devices = \<lparr>dm_secret = ''secret'', dm_issuer = ''kfc'', dm_ttl = 10 * second\<rparr>"

definition demo_claims :: DeviceTokenClaims where
  "demo_claims = \<lparr>dc_DeviceID = 3, dc_DeviceType = ''kiosk'', dc_SerialNumber = ''K-1'', dc_RestaurantID = 7,
     dc_TokenID = ''jti'', dc_IssuedAt = 0, dc_NotBefore = 0, dc_ExpiresAt = 10 * second\<rparr>"

definition demo_jwt :: jwt_lib where
  "demo_jwt = ref_jwt (device_claims_map ref_platform demo_devices demo_claims)"

lemma demo_jwt_ok: "jwt_ok demo_jwt"
  by (simp add: demo_jwt_def ref_jwt_ok)

lemma demo_issue:
  "Issue ref_platform demo_jwt demo_devices 3 ''kiosk'' ''K-1'' 7 (empty_db 0)
     = (Inr (demo_claims, ''token''), empty_db 0)"
  by (simp add: Issue_def ref_platform_def ref_clock_def empty_db_def demo_jwt_def ref_jwt_def
        demo_devices_def demo_claims_def)

theorem device_token_roundtrip_witness:
  "\<exists>c. fst (Verify ref_platform demo_jwt demo_devices ''token'' (empty_db (3 * second))) = Inr c
     \<and> dc_DeviceID c = 3 \<and> dc_SerialNumber c = ''K-1''"
proof -
  obtain x d where v: "Verify ref_platform demo_jwt demo_devices ''token'' (empty_db (3 * second)) = (x, d)"
    by (cases "Verify ref_platform demo_jwt demo_devices ''token'' (empty_db (3 * second))")
  then have d: "d = empty_db (3 * second)"
    by (auto simp: Verify_def Let_def ref_platform_def ref_clock_def
          split: sum.splits prod.splits option.splits)
  have "plain (dm_issuer demo_devices)" "plain ''kiosk''" "plain ''K-1''"
    by (simp_all add: demo_devices_def plain_def)
  from device_token_roundtrip [OF ref_platform_ok demo_jwt_ok demo_issue this _ v]
  have "\<exists>c. x = Inr c \<and> dc_DeviceID c = 3 \<and> dc_SerialNumber c = ''K-1''"
    by (auto simp: d empty_db_def demo_claims_def unix_def second_def demo_jwt_def [symmetric])
  with v show ?thesis by simp
qed

definition demo_customers :: CustomerTokenManager where
  "demo_customers = \<lparr>cm_secret = ''secret'', cm_issuer = ''kfc'', cm_accessTTL = 10 * second,
                    cm_kioskTTL = 5 * second\<rparr>"

definition demo_kiosk_jwt :: jwt_lib where
  "demo_kiosk_jwt = ref_jwt (kiosk_claims ref_platform demo_customers 5 3 0 5)"

lemma demo_kiosk_jwt_ok: "jwt_ok demo_kiosk_jwt"
  by (simp add: demo_kiosk_jwt_def ref_jwt_ok)

lemma demo_kiosk_issue:
  "IssueKioskSession ref_platform demo_kiosk_jwt demo_customers 5 3 (empty_db 0)
     = (Inr (''token'', 5 * second), empty_db 0)"
  by (simp add: IssueKioskSession_def sign_def ref_platform_def ref_clock_def empty_db_def
        demo_kiosk_jwt_def ref_jwt_def demo_customers_def kiosk_claims_def unix_def second_def)

lemma demo_customers_plain: "plain (cm_issuer demo_customers)"
  by (simp add: demo_customers_def plain_def)

theorem kiosk_session_roundtrip_witness:
  "\<exists>c. fst (VerifyKioskSession ref_platform demo_kiosk_jwt demo_customers ''token'' (empty_db (3 * second)))
         = Inr c \<and> kc_MemberID c = 5 \<and> kc_DeviceID c = 3"
proof -
  obtain x d where v: "VerifyKioskSession ref_platform demo_kiosk_jwt demo_customers ''token''
      (empty_db (3 * second)) = (x, d)"
    by (cases "VerifyKioskSession ref_platform demo_kiosk_jwt demo_customers ''token'' (empty_db (3 * second))")
  then have d: "d = empty_db (3 * second)"
    by (auto simp: VerifyKioskSession_def parse_token_def Let_def ref_platform_def ref_clock_def
          split: sum.splits prod.splits option.splits)
  from kiosk_session_roundtrip [OF ref_platform_ok demo_kiosk_jwt_ok
      demo_customers_plain demo_kiosk_issue v] v
  show ?thesis by (simp add: d empty_db_def unix_def second_def)
qed

theorem token_kinds_separate_witness:
  "\<exists>err. fst (VerifyAccess ref_platform demo_kiosk_jwt demo_customers ''token'' (empty_db 0)) = Inl err"
  using token_kinds_separate [OF ref_platform_ok demo_kiosk_jwt_ok demo_customers_plain,
      where u = 5 and d = 3 and s = "empty_db 0" and raw = "''token''" and e = "5 * second"
        and ?s1.0 = "empty_db 0" and ?s2.0 = "empty_db 0"] demo_kiosk_issue
  by simp

end
