(* ===== verification/Device_Auth.thy ===== *)
theory Device_Auth
  imports Pairing_Repo Revocation_Repo Tokens
begin

text \<open>
  Pairing and revoking devices: internal/service/device_auth_service.go and
  internal/service/pairing_service.go.  The theory \<open>Middleware\<close> has what then lets a device in.

  The services see the repositories through the interfaces \<open>PairingRepository\<close> and
  \<open>RevocationRepository\<close>, records of functions here.  The lemmas on pairing are proved once, in a
  locale over the laws of the interface, and hold for the repository by interpretation.
\<close>

section \<open>The interfaces and the services\<close>

record 's pairing_api =
  pa_SetCode :: "string \<Rightarrow> string \<Rightarrow> PairingCodeData \<Rightarrow> ('s, unit) op"
  pa_GetCode :: "string \<Rightarrow> ('s, string \<times> PairingCodeData option) op"
  pa_DeleteCode :: "string \<Rightarrow> ('s, unit) op"
  pa_ReplaceRestaurantCodes :: "uuid \<Rightarrow> RestaurantCodeEntry list \<Rightarrow> int \<Rightarrow> ('s, unit) op"

definition NewPairingRepository :: "'s pairing_repo \<Rightarrow> 's pairing_api" where
  "NewPairingRepository R =
     \<lparr>pa_SetCode = SetCode R, pa_GetCode = GetCode R, pa_DeleteCode = DeleteCode R,
      pa_ReplaceRestaurantCodes = ReplaceRestaurantCodes R\<rparr>"

record 's revocation_api =
  ra_RevokeDevice :: "uuid \<Rightarrow> int \<Rightarrow> ('s, unit) op"
  ra_RevokeToken :: "string \<Rightarrow> int \<Rightarrow> ('s, unit) op"
  ra_IsDeviceRevoked :: "uuid \<Rightarrow> ('s, bool) op"
  ra_IsTokenRevoked :: "string \<Rightarrow> ('s, bool) op"

definition NewRevocationRepository :: "'s revocation_repo \<Rightarrow> 's revocation_api" where
  "NewRevocationRepository R =
     \<lparr>ra_RevokeDevice = RevokeDevice R, ra_RevokeToken = RevokeToken R,
      ra_IsDeviceRevoked = IsDeviceRevoked R, ra_IsTokenRevoked = IsTokenRevoked R\<rparr>"

lemma New_repo_sel [simp]:
  "pa_SetCode (NewPairingRepository R) = SetCode R" "pa_GetCode (NewPairingRepository R) = GetCode R"
  "pa_DeleteCode (NewPairingRepository R) = DeleteCode R"
  "pa_ReplaceRestaurantCodes (NewPairingRepository R) = ReplaceRestaurantCodes R"
  "ra_RevokeDevice (NewRevocationRepository V) = RevokeDevice V"
  "ra_RevokeToken (NewRevocationRepository V) = RevokeToken V"
  "ra_IsDeviceRevoked (NewRevocationRepository V) = IsDeviceRevoked V"
  "ra_IsTokenRevoked (NewRevocationRepository V) = IsTokenRevoked V"
  by (simp_all add: NewPairingRepository_def NewRevocationRepository_def)

record 's device_auth_service =
  da_pairing :: "'s pairing_api"
  da_revoke :: "'s revocation_api"
  da_tokens :: DeviceTokenManager
  da_platform :: "'s platform"
  da_jwt :: jwt_lib

record PairResult =
  pres_Token :: string
  pres_ExpiresAt :: int
  pres_DeviceID :: uuid
  pres_DeviceType :: string
  pres_RestaurantID :: uuid

section \<open>device_auth_service.go\<close>

text \<open>\<open>Pair\<close> in its two halves: the checks (steps 1 to 3), and using up the code (4 and 5).\<close>

definition pair_check :: "'s device_auth_service \<Rightarrow> string \<Rightarrow> string \<Rightarrow> ('s, PairingCodeData) op" where
  "pair_check S serial code s =
     (if serial = '''' \<or> code = '''' then
        (Inl (NewValidationError ''serial and code are required''), s)
      else
        case pa_GetCode (da_pairing S) serial s of
          (Inl e, s1) \<Rightarrow> (Inl e, s1)
        | (Inr (hash, meta), s1) \<Rightarrow>
            (case (hash = '''', meta) of
               (False, Some m) \<Rightarrow>
                 (case bcrypt_Compare (da_platform S) hash code of
                    Some _ \<Rightarrow> (Inl (NewValidationError ''invalid or expired pairing code''), s1)
                  | None \<Rightarrow> (Inr m, s1))
             | _ \<Rightarrow> (Inl (NewValidationError ''invalid or expired pairing code''), s1)))"

definition pair_finish :: "'s device_auth_service \<Rightarrow> string \<Rightarrow> PairingCodeData \<Rightarrow> ('s, PairResult) op" where
  "pair_finish S serial m s =
     (case pa_DeleteCode (da_pairing S) serial s of
        (Inl e, s1) \<Rightarrow> (Inl e, s1)
      | (Inr _, s1) \<Rightarrow>
          (case Issue (da_platform S) (da_jwt S) (da_tokens S) (pd_DeviceID m) (pd_DeviceType m)
                  serial (pd_RestaurantID m) s1 of
             (Inl e, s2) \<Rightarrow> (Inl (NewInternalError (Wrapped ''issue token'' e)), s2)
           | (Inr (claims, token), s2) \<Rightarrow>
               (Inr \<lparr>pres_Token = token, pres_ExpiresAt = dc_ExpiresAt claims,
                     pres_DeviceID = pd_DeviceID m, pres_DeviceType = pd_DeviceType m,
                     pres_RestaurantID = pd_RestaurantID m\<rparr>, s2)))"

definition Pair :: "'s device_auth_service \<Rightarrow> string \<Rightarrow> string \<Rightarrow> ('s, PairResult) op" where
  "Pair S serial code s =
     (case pair_check S serial code s of
        (Inl e, s1) \<Rightarrow> (Inl e, s1)
      | (Inr m, s1) \<Rightarrow> pair_finish S serial m s1)"

definition Revoke :: "'s device_auth_service \<Rightarrow> uuid \<Rightarrow> ('s, unit) op" where
  "Revoke S deviceID s =
     (if deviceID = 0 then (Inl (NewValidationError ''device_id is required''), s)
      else case ra_RevokeDevice (da_revoke S) deviceID (TTL_of (da_tokens S)) s of
             (Inl e, s1) \<Rightarrow> (Inl e, s1)
           | (Inr _, s1) \<Rightarrow> (Inr (), s1))"

definition RevokeTokenByID :: "'s device_auth_service \<Rightarrow> string \<Rightarrow> ('s, unit) op" where
  "RevokeTokenByID S tokenID s =
     (if tokenID = '''' then (Inl (NewValidationError ''token_id is required''), s)
      else case ra_RevokeToken (da_revoke S) tokenID (TTL_of (da_tokens S)) s of
             (Inl e, s1) \<Rightarrow> (Inl e, s1)
           | (Inr _, s1) \<Rightarrow> (Inr (), s1))"

section \<open>pairing_service.go\<close>

record CodeEntry =
  ce_SerialNumber :: string
  ce_DeviceID :: uuid
  ce_DeviceType :: string
  ce_Code :: string

record CacheCodesRequest =
  ccs_RestaurantID :: uuid
  ccs_ExpiresAt :: int
  ccs_Codes :: "CodeEntry list"

record CacheCodeRequest =
  ccr_RestaurantID :: uuid
  ccr_SerialNumber :: string
  ccr_DeviceID :: uuid
  ccr_DeviceType :: string
  ccr_Code :: string
  ccr_ExpiresAt :: int

record 's pairing_service =
  ps_repo :: "'s pairing_api"
  ps_platform :: "'s platform"

fun hash_codes ::
  "'s pairing_service \<Rightarrow> CacheCodesRequest \<Rightarrow> CodeEntry list \<Rightarrow> ('s, RestaurantCodeEntry list) op" where
  "hash_codes S req [] s = (Inr [], s)"
| "hash_codes S req (c # cs) s =
     (if ce_SerialNumber c = '''' \<or> ce_Code c = '''' then
        (Inl (NewValidationError ''serial_number and code are required''), s)
      else
        case bcrypt_Generate (ps_platform S) (ce_Code c) s of
          (Inl e, s1) \<Rightarrow> (Inl (NewInternalError e), s1)
        | (Inr hash, s1) \<Rightarrow>
            (case hash_codes S req cs s1 of
               (Inl e, s2) \<Rightarrow> (Inl e, s2)
             | (Inr es, s2) \<Rightarrow>
                 (Inr (\<lparr>rce_Serial = ce_SerialNumber c, rce_CodeHash = hash,
                        rce_Meta = \<lparr>pd_DeviceID = ce_DeviceID c, pd_DeviceType = ce_DeviceType c,
                          pd_RestaurantID = ccs_RestaurantID req, pd_ExpiresAt = ccs_ExpiresAt req\<rparr>\<rparr>
                       # es), s2)))"

definition CacheCodes :: "'s pairing_service \<Rightarrow> CacheCodesRequest \<Rightarrow> ('s, nat) op" where
  "CacheCodes S req s =
     (if ccs_Codes req = [] then (Inl (NewValidationError ''no codes provided''), s)
      else
        let (t, s1) = Now (ps_platform S) s in
        if \<not> t < ccs_ExpiresAt req then
          (Inl (NewValidationError ''expires_at must be in the future''), s1)
        else
          let (t', s2) = Now (ps_platform S) s1;
              ttl = until (ccs_ExpiresAt req) t'
          in case hash_codes S req (ccs_Codes req) s2 of
               (Inl e, s3) \<Rightarrow> (Inl e, s3)
             | (Inr entries, s3) \<Rightarrow>
                 (case pa_ReplaceRestaurantCodes (ps_repo S) (ccs_RestaurantID req) entries ttl s3 of
                    (Inl e, s4) \<Rightarrow> (Inl e, s4)
                  | (Inr _, s4) \<Rightarrow> (Inr (length entries), s4)))"

definition CacheCode :: "'s pairing_service \<Rightarrow> CacheCodeRequest \<Rightarrow> ('s, unit) op" where
  "CacheCode S req s =
     (if ccr_SerialNumber req = '''' \<or> ccr_Code req = '''' then
        (Inl (NewValidationError ''serial_number and code are required''), s)
      else
        let (t, s1) = Now (ps_platform S) s in
        if \<not> t < ccr_ExpiresAt req then
          (Inl (NewValidationError ''expires_at must be in the future''), s1)
        else case bcrypt_Generate (ps_platform S) (ccr_Code req) s1 of
          (Inl e, s2) \<Rightarrow> (Inl (NewInternalError e), s2)
        | (Inr hash, s2) \<Rightarrow>
            (case pa_SetCode (ps_repo S) (ccr_SerialNumber req) hash
                \<lparr>pd_DeviceID = ccr_DeviceID req, pd_DeviceType = ccr_DeviceType req,
                 pd_RestaurantID = ccr_RestaurantID req, pd_ExpiresAt = ccr_ExpiresAt req\<rparr> s2 of
               (Inl e, s3) \<Rightarrow> (Inl e, s3)
             | (Inr _, s3) \<Rightarrow> (Inr (), s3)))"

definition RevokeCode :: "'s pairing_service \<Rightarrow> string \<Rightarrow> ('s, unit) op" where
  "RevokeCode S serial s =
     (if serial = '''' then (Inl (NewValidationError ''serial_number is required''), s)
      else case pa_DeleteCode (ps_repo S) serial s of
             (Inl e, s1) \<Rightarrow> (Inl e, s1)
           | (Inr _, s1) \<Rightarrow> (Inr (), s1))"

section \<open>Pairing, over the interface\<close>

text \<open>
  The service in front of any repository that keeps the laws, with token issuing that leaves codes
  alone.
\<close>

locale device_pairing =
  pairing_repository "pa_GetCode (da_pairing S)" "pa_SetCode (da_pairing S)" "pa_DeleteCode (da_pairing S)"
    inv code
  for S :: "'s device_auth_service" and inv :: "'s \<Rightarrow> bool"
    and code :: "'s \<Rightarrow> string \<Rightarrow> (string \<times> PairingCodeData) option" +
  assumes issue_keeps: "inv s \<Longrightarrow>
      Issue (da_platform S) (da_jwt S) (da_tokens S) d ty se r s = (x, s') \<Longrightarrow>
      inv s' \<and> code s' \<subseteq>\<^sub>m code s"
begin

lemma check_keeps:
  "inv s \<Longrightarrow> pair_check S serial c s = (x, s') \<Longrightarrow> inv s' \<and> code s' \<subseteq>\<^sub>m code s"
  using get_keeps [of s serial]
  by (auto simp: pair_check_def split: if_splits prod.splits sum.splits option.splits bool.splits)

lemma check_Inr:
  assumes "inv s" and "pair_check S serial c s = (Inr m, s')"
  shows "\<exists>h. code s serial = Some (h, m) \<and> bcrypt_Compare (da_platform S) h c = None"
proof -
  from assms(2) obtain h where "pa_GetCode (da_pairing S) serial s = (Inr (h, Some m), s')"
    "bcrypt_Compare (da_platform S) h c = None"
    by (auto simp: pair_check_def split: if_splits prod.splits sum.splits option.splits bool.splits)
  with get_found [OF assms(1)] show ?thesis by blast
qed

lemma finish_keeps:
  assumes "inv s" and "pair_finish S serial m s = (x, s')"
  shows "inv s' \<and> code s' \<subseteq>\<^sub>m code s"
proof -
  obtain r s1 where 1: "pa_DeleteCode (da_pairing S) serial s = (r, s1)"
    by (cases "pa_DeleteCode (da_pairing S) serial s")
  note k = del_keeps [OF assms(1) 1]
  show ?thesis
  proof (cases r)
    case (Inl e)
    with 1 k assms(2) show ?thesis by (simp add: pair_finish_def)
  next
    case (Inr u)
    obtain y s2 where 2: "Issue (da_platform S) (da_jwt S) (da_tokens S) (pd_DeviceID m)
        (pd_DeviceType m) serial (pd_RestaurantID m) s1 = (y, s2)"
      by (metis prod.exhaust)
    from 1 2 Inr assms(2) have "s' = s2"
      by (auto simp: pair_finish_def split: sum.splits prod.splits)
    with issue_keeps [OF conjunct1 [OF k] 2] k show ?thesis
      using map_le_trans by blast
  qed
qed

lemma finish_Inr:
  assumes "inv s" and "pair_finish S serial m s = (Inr res, s')"
  shows "code s' serial = None \<and> pres_DeviceID res = pd_DeviceID m
    \<and> pres_DeviceType res = pd_DeviceType m \<and> pres_RestaurantID res = pd_RestaurantID m"
proof -
  from assms(2) obtain s1 claims where 1: "pa_DeleteCode (da_pairing S) serial s = (Inr (), s1)"
    and 2: "Issue (da_platform S) (da_jwt S) (da_tokens S) (pd_DeviceID m) (pd_DeviceType m) serial
              (pd_RestaurantID m) s1 = (Inr (claims, pres_Token res), s')"
    and res: "pres_DeviceID res = pd_DeviceID m" "pres_DeviceType res = pd_DeviceType m"
      "pres_RestaurantID res = pd_RestaurantID m"
    by (auto simp: pair_finish_def split: sum.splits prod.splits)
  have "code s1 serial = None" using del_gone [OF assms(1) 1] .
  moreover have "code s' \<subseteq>\<^sub>m code s1"
    using issue_keeps [OF conjunct1 [OF del_keeps [OF assms(1) 1]] 2] by blast
  ultimately have "code s' serial = None"
    by (metis domIff map_le_def)
  with res show ?thesis by simp
qed

lemma pair_keeps:
  assumes "inv s" and "Pair S serial c s = (x, s')"
  shows "inv s' \<and> code s' \<subseteq>\<^sub>m code s"
proof -
  obtain r s1 where 1: "pair_check S serial c s = (r, s1)" by (cases "pair_check S serial c s")
  note k = check_keeps [OF assms(1) 1]
  show ?thesis
  proof (cases r)
    case (Inl e)
    with 1 k assms(2) show ?thesis by (simp add: Pair_def)
  next
    case (Inr m)
    with 1 assms(2) have "pair_finish S serial m s1 = (x, s')" by (simp add: Pair_def)
    from finish_keeps [OF conjunct1 [OF k] this] k show ?thesis using map_le_trans by blast
  qed
qed

lemma pair_Inr:
  assumes "inv s" and "Pair S serial c s = (Inr res, s')"
  shows "(\<exists>h m. code s serial = Some (h, m) \<and> bcrypt_Compare (da_platform S) h c = None
      \<and> pres_DeviceID res = pd_DeviceID m \<and> pres_DeviceType res = pd_DeviceType m
      \<and> pres_RestaurantID res = pd_RestaurantID m)
    \<and> code s' serial = None \<and> inv s' \<and> code s' \<subseteq>\<^sub>m code s"
proof -
  from assms(2) obtain m s1 where 1: "pair_check S serial c s = (Inr m, s1)"
    and 2: "pair_finish S serial m s1 = (Inr res, s')"
    by (auto simp: Pair_def split: prod.splits sum.splits)
  from check_Inr [OF assms(1) 1] finish_Inr [OF conjunct1 [OF check_keeps [OF assms(1) 1]] 2]
    pair_keeps [OF assms] show ?thesis by auto
qed

lemma pair_without_code:
  assumes "inv s" and "code s serial = None"
  shows "\<exists>e. fst (Pair S serial c s) = Inl e"
proof (cases "fst (Pair S serial c s)")
  case (Inr res)
  then obtain s' where "Pair S serial c s = (Inr res, s')" by (metis prod.collapse)
  from pair_Inr [OF assms(1) this] assms(2) show ?thesis by auto
qed blast

end

section \<open>The service as wired\<close>

text \<open>\<open>NewDeviceAuthService\<close> on the repositories of the program.\<close>

definition NewDeviceAuthService ::
  "'s pairing_repo \<Rightarrow> 's revocation_repo \<Rightarrow> DeviceTokenManager \<Rightarrow> 's platform \<Rightarrow> jwt_lib
     \<Rightarrow> 's device_auth_service" where
  "NewDeviceAuthService R V m P L =
     \<lparr>da_pairing = NewPairingRepository R, da_revoke = NewRevocationRepository V, da_tokens = m,
      da_platform = P, da_jwt = L\<rparr>"

lemma NewDeviceAuthService_sel [simp]:
  "da_pairing (NewDeviceAuthService R V m P L) = NewPairingRepository R"
  "da_revoke (NewDeviceAuthService R V m P L) = NewRevocationRepository V"
  "da_tokens (NewDeviceAuthService R V m P L) = m"
  "da_platform (NewDeviceAuthService R V m P L) = P" "da_jwt (NewDeviceAuthService R V m P L) = L"
  by (simp_all add: NewDeviceAuthService_def)

interpretation pairing_service: device_pairing
  "NewDeviceAuthService R V m P L" "\<lambda>s. pair_inv R db s \<and> platform_ok P db" "\<lambda>s. code_in R (db s)"
  for R :: "'s pairing_repo" and V m P L and db :: "'s \<Rightarrow> redis_db"
proof (unfold_locales, goal_cases)
  case (1 s x g s')
  then show ?case using pairing.get_keeps [of R db s x g s'] by simp
next
  case (2 s x h m s')
  then show ?case using pairing.get_found [of R db s x h m s'] by simp
next
  case (3 s x h s')
  then show ?case using pairing.get_missing [of R db s x h s'] by simp
next
  case (4 s x r s')
  then show ?case using pairing.del_keeps [of R db s x r s'] by simp
next
  case (5 s x s')
  then show ?case using pairing.del_gone [of R db s x s'] by simp
next
  case (6 s x h m r s')
  then show ?case using pairing.set_others [of R db s x h m r s'] by simp
next
  case (7 s x h m s' c)
  then show ?case using pairing.set_stored [of R db s x h m s' c] by simp
next
  case (8 s d ty se r x s')
  then show ?case
    using Issue_ages [of P db L m d ty se r s x s'] code_in_ages [of "db s" "db s'" R]
    by (auto simp: pair_inv_def)
qed

section \<open>Properties\<close>

text \<open>
  C16. A pairing code works once.  A pairing succeeds only with a code that matches the hash stored
  for the serial number, and pairs the device, type and restaurant stored with that hash; afterwards,
  as long as no new code is stored (Redis holds no code it did not hold right after), no pairing of
  that serial number succeeds, with any code.
\<close>

theorem pair_single_use:
  assumes inv: "pair_inv R db s" "platform_ok P db"
    and pair: "Pair (NewDeviceAuthService R V m P L) serial c s = (Inr res, s1)"
    and later: "code_in R (db s2) \<subseteq>\<^sub>m code_in R (db s1)"
  shows "(\<exists>h meta. code_in R (db s) serial = Some (h, meta) \<and> bcrypt_Compare P h c = None
      \<and> pres_DeviceID res = pd_DeviceID meta \<and> pres_DeviceType res = pd_DeviceType meta
      \<and> pres_RestaurantID res = pd_RestaurantID meta)
    \<and> (\<exists>e. fst (Pair (NewDeviceAuthService R V m P L) serial c' s2) = Inl e)"
proof -
  have i: "pair_inv R db s \<and> platform_ok P db" using inv by simp
  note p = pairing_service.pair_Inr [OF i pair]
  have "code_in R (db s2) serial = None"
    using map_le_None [OF later] p by blast
  moreover have "pair_inv R db s2 \<and> platform_ok P db"
    using inv(2) pair_inv_next [OF inv(1)] by simp
  ultimately show ?thesis
    using p pairing_service.pair_without_code [of R db s2 P serial V m L c'] by auto
qed

text \<open>
  Pairing is no oracle for serial numbers.  As long as Redis answers, an unknown or expired
  serial number and a wrong code are told apart by nothing: the same validation error (status 400),
  and nothing is consumed.
\<close>

theorem pair_no_oracle:
  assumes "serial \<noteq> ''''" and "c \<noteq> ''''" and "fst (GetCode R serial s) = Inr (h, meta)"
    and "meta = None \<or> h = '''' \<or> bcrypt_Compare P h c \<noteq> None"
  shows "Pair (NewDeviceAuthService R V m P L) serial c s
      = (Inl (NewValidationError ''invalid or expired pairing code''), snd (GetCode R serial s))
    \<and> FromError (NewValidationError ''invalid or expired pairing code'')
      = Failure 400 ''validation'' ''invalid or expired pairing code''"
proof -
  obtain s1 where "GetCode R serial s = (Inr (h, meta), s1)"
    using assms(3) by (cases "GetCode R serial s") auto
  with assms(1,2,4) show ?thesis
    by (auto simp: Pair_def pair_check_def FromError_def go_simps split: option.split bool.split)
qed

text \<open>
  A cached code pairs its device.  After \<open>CacheCode\<close> succeeds, a pairing attempt with that serial
  number and code before the expiry passes the checks with the device, type and restaurant of the
  request, unless Redis fails to answer.
\<close>

theorem cached_code_pairs:
  assumes inv: "pair_inv R db s" "platform_ok P db"
    and cache: "CacheCode \<lparr>ps_repo = NewPairingRepository R, ps_platform = P\<rparr> req s = (Inr (), s1)"
    and check: "pair_check (NewDeviceAuthService R V m P L) (ccr_SerialNumber req) (ccr_Code req) s1 = (x, s2)"
    and time: "now (db s2) \<le> ccr_ExpiresAt req - millisecond" "ccr_ExpiresAt req < now (db s) + 2 ^ 63"
  shows "x = Inr \<lparr>pd_DeviceID = ccr_DeviceID req, pd_DeviceType = ccr_DeviceType req,
              pd_RestaurantID = ccr_RestaurantID req, pd_ExpiresAt = ccr_ExpiresAt req\<rparr>
    \<or> (\<exists>e. fst (GetCode R (ccr_SerialNumber req) s1) = Inl e \<and> x = Inl e)"
proof -
  let ?meta = "\<lparr>pd_DeviceID = ccr_DeviceID req, pd_DeviceType = ccr_DeviceType req,
              pd_RestaurantID = ccr_RestaurantID req, pd_ExpiresAt = ccr_ExpiresAt req\<rparr>"
  obtain t u1 where 1: "Now P s = (t, u1)" by (cases "Now P s")
  obtain r u2 where 2: "bcrypt_Generate P (ccr_Code req) u1 = (r, u2)" by (cases "bcrypt_Generate P (ccr_Code req) u1")
  from cache 1 2 obtain h where ne: "ccr_SerialNumber req \<noteq> ''''" "ccr_Code req \<noteq> ''''" and h: "r = Inr h"
    and set: "SetCode R (ccr_SerialNumber req) h ?meta u2 = (Inr (), s1)"
    by (auto simp: CacheCode_def Let_def split: if_splits sum.splits prod.splits)
  have bc: "h \<noteq> ''''" "bcrypt_Compare P h (ccr_Code req) = None"
    using platform_okD(7,8) [OF inv(2), of "ccr_Code req" u1 h] 2 h by auto
  have "now (db s) \<le> now (db u2)"
    using Now_ages [OF inv(2) 1] aside_ages [OF platform_okD(6) [OF inv(2)] 2] by (auto simp: ages_def)
  with time(2) have e: "pd_ExpiresAt ?meta < now (db u2) + 2 ^ 63" by simp
  obtain g u3 where g: "GetCode R (ccr_SerialNumber req) s1 = (g, u3)" by (cases "GetCode R (ccr_SerialNumber req) s1")
  show ?thesis
  proof (cases g)
    case (Inl e)
    with check g ne show ?thesis by (auto simp: pair_check_def)
  next
    case (Inr hm)
    obtain h' m' where hm: "hm = (h', m')" by (cases hm)
    from check g Inr hm ne have "s2 = u3"
      by (auto simp: pair_check_def split: bool.splits option.splits)
    with time(1) have "now (db u3) \<le> pd_ExpiresAt ?meta - millisecond" by simp
    from SetCode_GetCode_aux [OF pair_inv_next [OF inv(1)] set _ this e, of h' m'] g Inr hm
    have "h' = h \<and> m' = Some ?meta" by simp
    with check g Inr hm ne bc show ?thesis by (simp add: pair_check_def)
  qed
qed

text \<open>
  Two pairings at the same time.  Looking a code up and deleting it are two steps, and deleting
  a code that is gone already succeeds: when a second request runs its checks before the first one
  deletes, both pair, and one code has issued two tokens.
\<close>

theorem pair_race:
  "\<exists>d0 m1 d1 m2 d2 r1 d3 r2 d4.
     let S = NewDeviceAuthService ref_pairing \<lparr>rev_redis = ref_redis, rev_platform = ref_platform\<rparr>
       demo_devices ref_platform demo_jwt in
     SetCode ref_pairing ''K-1'' ''$1234'' (demo_meta 600) (empty_db 0) = (Inr (), d0)
     \<and> pair_check S ''K-1'' ''1234'' d0 = (Inr m1, d1) \<and> pair_check S ''K-1'' ''1234'' d1 = (Inr m2, d2)
     \<and> pair_finish S ''K-1'' m1 d2 = (Inr r1, d3) \<and> pair_finish S ''K-1'' m2 d3 = (Inr r2, d4)
     \<and> pres_DeviceID r1 = 3 \<and> pres_DeviceID r2 = 3"
proof -
  have "pd_DeviceID (demo_meta e) = 3 \<and> pd_DeviceType (demo_meta e) = ''kiosk''" for e
    by (simp add: demo_meta_def)
  moreover have "bcrypt_Compare ref_platform ''$1234'' ''1234'' = None"
    by (simp add: ref_platform_def)
  moreover have "Issue ref_platform demo_jwt demo_devices 3 ''kiosk'' ''K-1'' 7 d = (Inr (demo_claims, ''token''), d)"
    if "now d = 0" for d
    using that by (simp add: Issue_def ref_platform_def ref_clock_def demo_jwt_def ref_jwt_def
        demo_devices_def demo_claims_def)
  ultimately show ?thesis
    by (simp add: ref_run_simps pair_check_def pair_finish_def)
qed

section \<open>The properties on the concrete client\<close>

definition ref_revocation :: "redis_db revocation_repo" where
  "ref_revocation = \<lparr>rev_redis = ref_redis, rev_platform = ref_platform\<rparr>"

abbreviation ref_device_auth :: "redis_db device_auth_service" where
  "ref_device_auth \<equiv> NewDeviceAuthService ref_pairing ref_revocation demo_devices ref_platform demo_jwt"

lemma demo_meta_more [simp]: "pd_DeviceID (demo_meta e) = 3" "pd_DeviceType (demo_meta e) = ''kiosk''"
  by (simp_all add: demo_meta_def)

lemma ref_compare [simp]: "bcrypt_Compare ref_platform ''$1234'' ''1234'' = None"
    "bcrypt_Compare ref_platform ''$1234'' ''9999'' = Some (Text ''mismatch'')"
  by (simp_all add: ref_platform_def)

lemma ref_Issue [simp]:
  "now d = 0 \<Longrightarrow> Issue ref_platform demo_jwt demo_devices 3 ''kiosk'' ''K-1'' 7 d = (Inr (demo_claims, ''token''), d)"
  by (simp add: Issue_def ref_platform_def ref_clock_def demo_jwt_def ref_jwt_def demo_devices_def demo_claims_def)

lemma demo_pair_run:
  "\<exists>d0 res d1. SetCode ref_pairing ''K-1'' ''$1234'' (demo_meta 600) (empty_db 0) = (Inr (), d0)
     \<and> Pair ref_device_auth ''K-1'' ''1234'' d0 = (Inr res, d1)"
  by (simp add: ref_run_simps Pair_def pair_check_def pair_finish_def)

theorem pair_single_use_witness:
  "\<exists>d0 res d1 e. Pair ref_device_auth ''K-1'' ''1234'' d0 = (Inr res, d1)
     \<and> fst (Pair ref_device_auth ''K-1'' ''1234'' d1) = Inl e"
proof -
  obtain d0 res d1 where "Pair ref_device_auth ''K-1'' ''1234'' d0 = (Inr res, d1)"
    using demo_pair_run by blast
  with pair_single_use [OF ref_pairing_inv ref_platform_ok this, of d1 "''1234''"] show ?thesis by auto
qed

theorem pair_no_oracle_witness:
  "fst (Pair ref_device_auth ''K-2'' ''1234'' (empty_db 0))
     = Inl (NewValidationError ''invalid or expired pairing code'')"
proof -
  have "fst (GetCode ref_pairing ''K-2'' (empty_db 0)) = Inr ('''', None)"
    by (simp add: ref_run_simps)
  from pair_no_oracle [OF _ _ this, THEN conjunct1, of "''1234''" ref_platform ref_revocation demo_devices demo_jwt]
  show ?thesis by (metis fst_conv list.distinct(1))
qed

definition demo_cache :: CacheCodeRequest where
  "demo_cache = \<lparr>ccr_RestaurantID = 7, ccr_SerialNumber = ''K-1'', ccr_DeviceID = 3, ccr_DeviceType = ''kiosk'',
     ccr_Code = ''1234'', ccr_ExpiresAt = 600 * second\<rparr>"

lemma ref_Generate [simp]: "bcrypt_Generate ref_platform ''1234'' d = (Inr ''$1234'', d)"
  by (simp add: ref_platform_def)

lemma second_pos: "0 < second"
  by (simp add: second_def)

theorem cached_code_pairs_witness:
  "\<exists>d1 d2. pair_check ref_device_auth ''K-1'' ''1234'' d1 = (Inr (demo_meta 600), d2)"
proof -
  have m: "\<lparr>pd_DeviceID = 3, pd_DeviceType = ''kiosk'', pd_RestaurantID = 7, pd_ExpiresAt = 600 * second\<rparr> = demo_meta 600"
    by (simp add: demo_meta_def)
  obtain d1 x d2 where run: "SetCode ref_pairing ''K-1'' ''$1234'' (demo_meta 600) (empty_db 0) = (Inr (), d1)"
    "pair_check ref_device_auth ''K-1'' ''1234'' d1 = (x, d2)" "now d2 = 0"
    "\<not> (\<exists>e. fst (GetCode ref_pairing ''K-1'' d1) = Inl e)"
    by (simp add: ref_run_simps pair_check_def)
  have cache: "CacheCode \<lparr>ps_repo = NewPairingRepository ref_pairing, ps_platform = ref_platform\<rparr> demo_cache
      (empty_db 0) = (Inr (), d1)"
    using run(1) second_pos by (simp add: CacheCode_def demo_cache_def ref_clock_def empty_db_def m)
  have "x = Inr (demo_meta 600)"
    using cached_code_pairs [OF ref_pairing_inv ref_platform_ok cache, of ref_revocation demo_devices demo_jwt x d2]
      run(2-4) m by (simp add: demo_cache_def duration_defs empty_db_def)
  with run(2) show ?thesis by blast
qed

end
