(* ===== verification/Middleware.thy ===== *)
theory Middleware
  imports Device_Auth
begin

text \<open>
  Who gets in: the bearer token of a request, the middleware for devices, device types and customers
  (internal/transport/http/middleware), and the device endpoints of
  internal/transport/http/handler/device_auth_handler.go.  A handler is a function of the world that
  returns a response; middleware takes the handler it guards.
\<close>

section \<open>Handlers\<close>

type_synonym ('s, 'a) handler = "'s \<Rightarrow> 'a http_response \<times> 's"

text \<open>\<open>extractBearer\<close>: the Authorization header, empty when it is missing.\<close>

definition extractBearer :: "string \<Rightarrow> string + string" where
  "extractBearer auth =
     (if auth = '''' then Inl ''missing authorization header''
      else if \<not> has_prefix ''Bearer '' auth then Inl ''invalid authorization scheme''
      else if trim_prefix ''Bearer '' auth = '''' then Inl ''empty token''
      else Inr (trim_prefix ''Bearer '' auth))"

definition unauthorizedCode :: "string \<Rightarrow> string \<Rightarrow> 'a http_response" where
  "unauthorizedCode code msg = Failure 401 code msg"

definition unauthorized :: "string \<Rightarrow> 'a http_response" where
  "unauthorized msg = unauthorizedCode ''unauthorized'' msg"

definition auth_unavailable :: "'a http_response" where
  "auth_unavailable = Failure 503 ''auth_unavailable'' ''authorization unavailable''"

section \<open>device_auth.go\<close>

definition DeviceAuth ::
  "'s platform \<Rightarrow> jwt_lib \<Rightarrow> DeviceTokenManager \<Rightarrow> 's revocation_api \<Rightarrow> string
     \<Rightarrow> (DeviceTokenClaims \<Rightarrow> ('s, 'a) handler) \<Rightarrow> ('s, 'a) handler" where
  "DeviceAuth P L m rva auth inner s =
     (case extractBearer auth of
        Inl err \<Rightarrow> (unauthorized err, s)
      | Inr raw \<Rightarrow>
          (case Verify P L m raw s of
             (Inl err, s1) \<Rightarrow>
               (if errors_is err ErrTokenExpired
                then unauthorizedCode ''token_expired'' ''device token expired; re-pair required''
                else unauthorizedCode ''invalid_token'' ''invalid token'', s1)
           | (Inr claims, s1) \<Rightarrow>
               (case ra_IsDeviceRevoked rva (dc_DeviceID claims) s1 of
                  (Inl _, s2) \<Rightarrow> (auth_unavailable, s2)
                | (Inr True, s2) \<Rightarrow> (unauthorizedCode ''revoked'' ''device access revoked'', s2)
                | (Inr False, s2) \<Rightarrow>
                    (case ra_IsTokenRevoked rva (dc_TokenID claims) s2 of
                       (Inl _, s3) \<Rightarrow> (auth_unavailable, s3)
                     | (Inr True, s3) \<Rightarrow> (unauthorizedCode ''revoked'' ''token revoked'', s3)
                     | (Inr False, s3) \<Rightarrow> inner claims s3))))"

section \<open>device_type.go and customer_auth.go\<close>

definition RequireDeviceType ::
  "string list \<Rightarrow> DeviceTokenClaims option \<Rightarrow> ('s, 'a) handler \<Rightarrow> ('s, 'a) handler" where
  "RequireDeviceType types claims inner s =
     (case claims of
        None \<Rightarrow> (unauthorized ''missing device context'', s)
      | Some c \<Rightarrow>
          if dc_DeviceType c \<notin> set types then
            (Failure 403 ''wrong_device_type'' ''this device type cannot use this endpoint'', s)
          else inner s)"

definition CustomerAuth ::
  "'s platform \<Rightarrow> jwt_lib \<Rightarrow> CustomerTokenManager \<Rightarrow> string
     \<Rightarrow> (CustomerClaims \<Rightarrow> ('s, 'a) handler) \<Rightarrow> ('s, 'a) handler" where
  "CustomerAuth P L m auth inner s =
     (case extractBearer auth of
        Inl err \<Rightarrow> (unauthorized err, s)
      | Inr raw \<Rightarrow>
          (case VerifyAccess P L m raw s of
             (Inl err, s1) \<Rightarrow>
               (if errors_is err ErrTokenExpired
                then unauthorizedCode ''token_expired'' ''session expired''
                else unauthorizedCode ''invalid_token'' ''invalid token'', s1)
           | (Inr claims, s1) \<Rightarrow> inner claims s1))"

section \<open>device_auth_handler.go\<close>

record PairRequest =
  prq_SerialNumber :: string
  prq_Code :: string

record PairResponse =
  prs_Token :: string
  prs_TokenType :: string
  prs_ExpiresAt :: int
  prs_DeviceID :: string
  prs_DeviceType :: string
  prs_RestaurantID :: string

text \<open>The body, as parsed by fiber (nothing when it cannot be).\<close>

definition PairHandler :: "'s device_auth_service \<Rightarrow> PairRequest option \<Rightarrow> ('s, PairResponse) handler" where
  "PairHandler S body s =
     (case body of
        None \<Rightarrow> (BadRequest ''invalid request body'', s)
      | Some req \<Rightarrow>
          if prq_SerialNumber req = '''' \<or> prq_Code req = '''' then
            (BadRequest ''serial_number and code are required'', s)
          else
            case Pair S (prq_SerialNumber req) (prq_Code req) s of
              (Inl e, s1) \<Rightarrow> (FromError e, s1)
            | (Inr r, s1) \<Rightarrow>
                (ok \<lparr>prs_Token = pres_Token r, prs_TokenType = ''Bearer'',
                     prs_ExpiresAt = unix (pres_ExpiresAt r),
                     prs_DeviceID = uuid_String (da_platform S) (pres_DeviceID r),
                     prs_DeviceType = pres_DeviceType r,
                     prs_RestaurantID = uuid_String (da_platform S) (pres_RestaurantID r)\<rparr>, s1))"

record WhoamiResponse =
  who_DeviceID :: string
  who_DeviceType :: string
  who_SerialNumber :: string
  who_RestaurantID :: string
  who_RestaurantName :: string
  who_RestaurantCode :: string
  who_Address :: string
  who_ExpiresAt :: int

definition Whoami ::
  "'s platform \<Rightarrow> 's crm_api \<Rightarrow> DeviceTokenClaims option \<Rightarrow> ('s, WhoamiResponse) handler" where
  "Whoami P crm claims s =
     (case claims of
        None \<Rightarrow> (Unauthorized ''unauthorized'' ''missing device context'', s)
      | Some c \<Rightarrow>
          let out = \<lparr>who_DeviceID = uuid_String P (dc_DeviceID c), who_DeviceType = dc_DeviceType c,
                     who_SerialNumber = dc_SerialNumber c,
                     who_RestaurantID = uuid_String P (dc_RestaurantID c), who_RestaurantName = '''',
                     who_RestaurantCode = '''', who_Address = '''', who_ExpiresAt = unix (dc_ExpiresAt c)\<rparr>
          in case crm_GetRestaurant crm (who_RestaurantID out) s of
               (Inr r, s1) \<Rightarrow>
                 (ok (out\<lparr>who_RestaurantName := rs_Name r, who_RestaurantCode := rs_Code r,
                          who_Address := rs_Address r\<rparr>), s1)
             | (Inl _, s1) \<Rightarrow> (ok out, s1))"

lemma DeviceAuth_cases:
  "(\<exists>raw claims s1 s2 s3. extractBearer auth = Inr raw \<and> Verify P L m raw s = (Inr claims, s1)
      \<and> ra_IsDeviceRevoked rva (dc_DeviceID claims) s1 = (Inr False, s2)
      \<and> ra_IsTokenRevoked rva (dc_TokenID claims) s2 = (Inr False, s3)
      \<and> DeviceAuth P L m rva auth inner s = inner claims s3)
    \<or> (\<exists>code msg. fst (DeviceAuth P L m rva auth inner s) = Failure 401 code msg)
    \<or> (fst (DeviceAuth P L m rva auth inner s) = Failure 503 ''auth_unavailable'' ''authorization unavailable''
       \<and> (\<exists>raw claims s1 s2 e. Verify P L m raw s = (Inr claims, s1)
            \<and> (fst (ra_IsDeviceRevoked rva (dc_DeviceID claims) s1) = Inl e
               \<or> fst (ra_IsTokenRevoked rva (dc_TokenID claims) s2) = Inl e)))"
proof (cases "extractBearer auth")
  case (Inl e)
  then show ?thesis by (simp add: DeviceAuth_def unauthorized_def unauthorizedCode_def)
next
  case raw: (Inr raw)
  obtain v s1 where v: "Verify P L m raw s = (v, s1)" by (cases "Verify P L m raw s")
  show ?thesis
  proof (cases v)
    case (Inl e)
    with raw v show ?thesis by (simp add: DeviceAuth_def unauthorizedCode_def)
  next
    case claims: (Inr claims)
    obtain a s2 where a: "ra_IsDeviceRevoked rva (dc_DeviceID claims) s1 = (a, s2)"
      by (cases "ra_IsDeviceRevoked rva (dc_DeviceID claims) s1")
    obtain b s3 where b: "ra_IsTokenRevoked rva (dc_TokenID claims) s2 = (b, s3)"
      by (cases "ra_IsTokenRevoked rva (dc_TokenID claims) s2")
    consider e where "a = Inl e" | "a = Inr True" | e where "a = Inr False" "b = Inl e"
      | "a = Inr False" "b = Inr True" | "a = Inr False" "b = Inr False"
      by (metis (full_types) sum.exhaust)
    then show ?thesis
    proof cases
      case 1
      with raw v claims a show ?thesis
        by (auto simp: DeviceAuth_def auth_unavailable_def) (metis fst_conv)
    next
      case 2
      with raw v claims a show ?thesis by (simp add: DeviceAuth_def unauthorizedCode_def)
    next
      case 3
      with raw v claims a b show ?thesis
        by (auto simp: DeviceAuth_def auth_unavailable_def) (metis fst_conv)
    next
      case 4
      with raw v claims a b show ?thesis by (simp add: DeviceAuth_def unauthorizedCode_def)
    next
      case 5
      with raw v claims a b show ?thesis by (auto simp: DeviceAuth_def)
    qed
  qed
qed

section \<open>Properties\<close>

text \<open>
  Who gets through \<open>DeviceAuth\<close>.  The handler runs only with claims of a bearer token that
  verified in this very request, for a device and a token id that Redis, asked after the
  verification, both reported as not revoked.  In every other case the response is 401 or, when the
  revocation lists cannot be read, 503: the check fails closed.
\<close>

theorem DeviceAuth_admits:
  "(\<exists>raw claims s1 s2 s3. extractBearer auth = Inr raw \<and> Verify P L m raw s = (Inr claims, s1)
      \<and> ra_IsDeviceRevoked rva (dc_DeviceID claims) s1 = (Inr False, s2)
      \<and> ra_IsTokenRevoked rva (dc_TokenID claims) s2 = (Inr False, s3)
      \<and> DeviceAuth P L m rva auth inner s = inner claims s3)
    \<or> (\<exists>code msg. fst (DeviceAuth P L m rva auth inner s) = Failure 401 code msg)
    \<or> (fst (DeviceAuth P L m rva auth inner s) = Failure 503 ''auth_unavailable'' ''authorization unavailable''
       \<and> (\<exists>raw claims s1 s2 e. Verify P L m raw s = (Inr claims, s1)
            \<and> (fst (ra_IsDeviceRevoked rva (dc_DeviceID claims) s1) = Inl e
               \<or> fst (ra_IsTokenRevoked rva (dc_TokenID claims) s2) = Inl e)))"
  by (rule DeviceAuth_cases)

text \<open>The state of the revocation of a device, as stored.\<close>

abbreviation device_mark :: "'s revocation_repo \<Rightarrow> ('s \<Rightarrow> redis_db) \<Rightarrow> 's \<Rightarrow> uuid \<Rightarrow> int \<Rightarrow> bool" where
  "device_mark V db s d \<equiv> key_mark (db s) (revokedDeviceKey (rev_platform V) d)"

lemma Verify_ages:
  assumes "platform_ok P db" and "Verify P L m raw s = (x, s')"
  shows "ages (db s) (db s')"
proof -
  obtain t s1 where 1: "Now P s = (t, s1)" by (cases "Now P s")
  with assms(2) have "s' = s1"
    by (auto simp: Verify_def Let_def split: sum.splits prod.splits option.splits)
  with Now_ages [OF assms(1) 1] show ?thesis by simp
qed

text \<open>
  Revoking a device ends all its tokens.  After \<open>Revoke\<close> succeeds for a device, a token issued
  for it before that moment is never admitted again, as long as the revocation is not overwritten:
  while the mark lasts it is refused as revoked, and when the mark expires the token has expired.
  (For a token lifetime in whole milliseconds, ASCII strings in the token, and a lookup that, when
  the token still verified, is answered within the token lifetime from the revocation.)
\<close>

theorem revoked_device_stays_out:
  assumes V: "rev_inv V db s1" and P: "platform_ok P db" and L: "jwt_ok L"
    and ttl: "0 < dm_ttl m" "millisecond dvd dm_ttl m" and plain: "plain (dm_issuer m)" "plain ty" "plain se"
    and issue: "Issue P L m d ty se r s = (Inr (claims, raw), s0)" and before: "now (db s0) \<le> now (db s1)"
    and revoke: "Revoke (NewDeviceAuthService R V m P L) d s1 = (Inr (), s2)"
    and kept: "now (db s2) \<le> now (db s3)" "device_mark V db s3 d = device_mark V db s2 d"
    and auth: "extractBearer auth = Inr raw"
    and prompt: "\<And>c u1 a u2. Verify P L m raw s3 = (Inr c, u1) \<Longrightarrow> IsDeviceRevoked V d u1 = (a, u2) \<Longrightarrow>
      now (db u2) < now (db s1) + dm_ttl m"
  shows "\<exists>status code msg. fst (DeviceAuth P L m (NewRevocationRepository V) auth inner s3) = Failure status code msg
    \<and> (status = 401 \<or> status = 503)"
proof -
  obtain x u1 where v: "Verify P L m raw s3 = (x, u1)" by (cases "Verify P L m raw s3")
  obtain t0 w1 j w2 where n: "Now P s = (t0, w1)" "uuid_NewString P w1 = (j, w2)"
    by (metis prod.exhaust)
  from issue n have claims: "dc_ExpiresAt claims = t0 + dm_ttl m" and s0: "s0 = w2"
    by (auto simp: Issue_def Let_def split: sum.splits)
  have t0: "t0 \<le> now (db s1)"
    using clock_okD [OF platform_okD(1) [OF P] n(1)] NewString_ages [OF P n(2)] before s0
    by (simp add: ages_def)
  have rv: "RevokeDevice V d (dm_ttl m) s1 = (Inr (), s2)"
    using revoke by (auto simp: Revoke_def TTL_of_def split: if_splits prod.splits sum.splits)
  have V': "rev_inv V db u" for u using V by (simp add: rev_inv_def)
  have later: "now (db s0) \<le> now (db s3)"
    using before kept(1) devices.revoke_other [OF V rv] by simp
  note rt = device_token_roundtrip_aux [OF P L issue plain later v]
  show ?thesis
  proof (cases "now (db u1) < unix (dc_ExpiresAt claims) * second")
    case False
    with rt have "x = Inl (Sentinel ErrTokenExpired)" by simp
    with auth v show ?thesis by (simp add: DeviceAuth_def unauthorizedCode_def)
  next
    case True
    then obtain c where x: "x = Inr c" and c: "dc_DeviceID c = d" using rt by auto
    obtain a u2 where look: "IsDeviceRevoked V d u1 = (a, u2)" by (cases "IsDeviceRevoked V d u1")
    show ?thesis
    proof (cases a)
      case (Inl e)
      with auth v x c look show ?thesis by (simp add: DeviceAuth_def auth_unavailable_def)
    next
      case (Inr b)
      have "device_mark V db u1 d = device_mark V db s2 d"
        using ages_mark [OF Verify_ages [OF P v]] kept(2) by simp
      moreover obtain t where t: "t \<le> now (db u2)" "b = device_mark V db u1 d t"
        using devices.look_true [OF V' look [unfolded Inr]] by blast
      moreover have "t < now (db s1) + in_millis (dm_ttl m) \<longrightarrow> device_mark V db s2 d t"
        using devices.revoke_mark [OF V rv ttl(1)] by blast
      moreover have "now (db u2) < now (db s1) + dm_ttl m"
        using prompt [OF v [unfolded x] look] .
      ultimately have b using in_millis_dvd [OF ttl] by simp
      with auth v x c look Inr show ?thesis by (simp add: DeviceAuth_def unauthorizedCode_def)
    qed
  qed
qed

section \<open>The properties on the concrete client\<close>

lemma ref_revoke_run:
  "\<exists>d1. Revoke ref_device_auth 3 (empty_db 0) = (Inr (), d1) \<and> now d1 = 0"
  by (simp add: Revoke_def RevokeDevice_def ref_revocation_def TTL_of_def demo_devices_def ask_def empty_db_def)

lemma ref_Verify_now:
  assumes "Verify ref_platform demo_jwt demo_devices raw d = (x, d')"
  shows "d' = d"
  using assms by (auto simp: Verify_def Let_def ref_clock_def split: sum.splits prod.splits option.splits)

lemma ref_IsDeviceRevoked_now: "IsDeviceRevoked ref_revocation i d = (a, d') \<Longrightarrow> d' = d"
  by (auto simp: IsDeviceRevoked_def ask_def ref_revocation_def split: sum.splits prod.splits)

theorem revoked_device_stays_out_witness:
  "\<exists>d1 status code msg. Revoke ref_device_auth 3 (empty_db 0) = (Inr (), d1)
     \<and> fst (DeviceAuth ref_platform demo_jwt demo_devices (NewRevocationRepository ref_revocation)
              ''Bearer token'' (\<lambda>c d. (ok c, d)) d1) = Failure status code msg"
proof -
  obtain d1 where d1: "Revoke ref_device_auth 3 (empty_db 0) = (Inr (), d1)" "now d1 = 0"
    using ref_revoke_run by blast
  have V: "rev_inv ref_revocation id (empty_db 0)"
    by (simp add: rev_inv_def ref_revocation_def ref_redis_ok ref_platform_ok)
  have ttl: "0 < dm_ttl demo_devices" "millisecond dvd dm_ttl demo_devices"
    by (simp_all add: demo_devices_def duration_defs)
  have plain: "plain (dm_issuer demo_devices)" "plain ''kiosk''" "plain ''K-1''"
    by (simp_all add: demo_devices_def plain_def)
  have auth: "extractBearer ''Bearer token'' = Inr ''token''"
    by (simp add: extractBearer_def has_prefix_def trim_prefix_def)
  have e0: "now (id (empty_db 0)) \<le> now (id (empty_db 0))" "now (id d1) \<le> now (id d1)" by simp_all
  have prompt: "now (id d2) < now (id (empty_db 0)) + dm_ttl demo_devices"
    if "Verify ref_platform demo_jwt demo_devices ''token'' d1 = (Inr c, u1)"
      "IsDeviceRevoked ref_revocation 3 u1 = (a, d2)" for c u1 a d2
  proof -
    have "u1 = d1" "d2 = u1"
      using ref_Verify_now [OF that(1)] ref_IsDeviceRevoked_now [OF that(2)] by simp_all
    with d1(2) show ?thesis by (simp add: empty_db_def demo_devices_def second_def)
  qed
  have "\<exists>status code msg. fst (DeviceAuth ref_platform demo_jwt demo_devices
      (NewRevocationRepository ref_revocation) ''Bearer token'' (\<lambda>c d. (ok c, d)) d1) = Failure status code msg
    \<and> (status = 401 \<or> status = 503)"
    by (rule revoked_device_stays_out [OF V ref_platform_ok demo_jwt_ok ttl plain demo_issue e0(1) d1(1) e0(2)
          refl auth]) (rule prompt)
  with d1(1) show ?thesis by blast
qed

end
