(* ===== verification/Redis_Bytes.thy ===== *)
theory Redis_Bytes
  imports Redis_Use
begin

text \<open>
  What the wrapper's \<open>GetBytes\<close> and \<open>SetBytes\<close> (pkg/cache/redis.go), a read and a transaction do to
  the database, for the repositories that keep one value per key.
\<close>

lemma map_leI: "(\<And>k v. m' k = Some v \<Longrightarrow> m k = Some v) \<Longrightarrow> m' \<subseteq>\<^sub>m m"
  by (auto simp: map_le_def)

lemma served_reads:
  assumes "served c d r d'" and "\<not> is_scan c" and "writes c = {}"
  shows "ages d d'"
  using served_entry [OF assms(1,2)] served_now [OF assms(1)] assms(3) by (auto simp: ages_def)

lemma GetBytes_db:
  assumes ok: "redis_ok R db" and "GetBytes R k s = (g, s')"
  shows "ages (db s) (db s') \<and> (\<forall>v. g = Inr (Some v) \<longrightarrow> live (db s') k = Some (VStr v))
    \<and> (g = Inr None \<longrightarrow> live (db s') k = None)"
proof -
  obtain r s1 where q: "rd R (GET k) s = (r, s1)" by (cases "rd R (GET k) s")
  have sv: "served (GET k) (db s) r (db s1)"
    using redis_ok_rd [OF ok, of "GET k" s] q by simp
  from assms(2) q have "s' = s1" "\<And>v. g = Inr (Some v) \<Longrightarrow> r = Inr (RBulk v)" "g = Inr None \<Longrightarrow> r = Inr RNil"
    by (auto simp: GetBytes_def ask_def as_bulk_Inr dest: as_bulk_nil split: sum.splits if_splits)
  with served_GET [OF sv] show ?thesis by blast
qed

lemma served_SET_any:
  assumes "served (SET k v ttl) d r d'"
  shows "\<exists>t \<ge> now d. now d' = t \<and> (entry d' k = entry d k
    \<or> entry d' k = Some (VStr v, if ttl \<le> 0 then None else Some (t + in_millis ttl)))"
  using assms
proof (rule served_cases)
  fix t assume t: "now d \<le> t" "exec (SET k v ttl) (at_time t d) = (r, d')"
  then have "d' = put k (VStr v) (if ttl \<le> 0 then None else Some (t + in_millis ttl)) (at_time t d)"
    by auto
  with t(1) show ?thesis by (intro exI [of _ t]) simp
next
  fix t e assume t: "now d \<le> t" "d' = snd (exec (SET k v ttl) (at_time t d))"
  then show ?thesis by (intro exI [of _ t]) simp
qed auto

lemma SetBytes_db:
  assumes ok: "redis_ok R db" and "SetBytes R k v ttl s = (g, s')"
  shows "now (db s) \<le> now (db s') \<and> (\<forall>k'. k' \<noteq> k \<longrightarrow> entry (db s') k' = entry (db s) k')
    \<and> (entry (db s') k = entry (db s) k
       \<or> (\<exists>t \<ge> now (db s). t \<le> now (db s') \<and> entry (db s') k = Some (VStr v, if ttl \<le> 0 then None else Some (t + in_millis ttl))))"
proof -
  obtain r s1 where q: "rd R (SET k v ttl) s = (r, s1)" by (cases "rd R (SET k v ttl) s")
  have sv: "served (SET k v ttl) (db s) r (db s1)"
    using redis_ok_rd [OF ok, of "SET k v ttl" s] q by simp
  from assms(2) q have s': "s' = s1"
    by (auto simp: SetBytes_def ask_def split: sum.splits)
  have "entry (db s1) k = entry (db s) k
      \<or> (\<exists>t \<ge> now (db s). t \<le> now (db s1) \<and> entry (db s1) k = Some (VStr v, if ttl \<le> 0 then None else Some (t + in_millis ttl)))"
    using served_SET_any [OF sv] by auto
  with served_entry [OF sv] served_now [OF sv] s' show ?thesis by auto
qed

lemma served_MGET:
  assumes "served (MGET ks) d r d'"
  shows "ages d d' \<and> (\<forall>y. r = Inr y \<longrightarrow>
    y = RList (map (\<lambda>k. case live d' k of Some (VStr v) \<Rightarrow> Some v | _ \<Rightarrow> None) ks))"
  using assms by (rule served_cases) (auto simp: ages_def)

lemma exec_all_entry:
  "no_scan cs \<Longrightarrow> k \<notin> written cs \<Longrightarrow>
   entry (snd (exec_all cs d)) k = entry d k \<and> now (snd (exec_all cs d)) = now d"
proof (induction cs arbitrary: d)
  case (Cons c cs)
  obtain r d1 where 1: "exec c d = (r, d1)" by (cases "exec c d")
  obtain rs d2 where 2: "exec_all cs d1 = (rs, d2)" by (cases "exec_all cs d1")
  from Cons.prems exec_entry [of k c d] 1 have "entry d1 k = entry d k \<and> now d1 = now d" by simp
  with Cons.IH [of d1] Cons.prems 1 2 show ?case by simp
qed simp

lemma served_tx_entry:
  assumes "served_tx cs d rs d'" and "no_scan cs" and "k \<notin> written cs"
  shows "entry d' k = entry d k \<and> now d \<le> now d'"
proof -
  obtain t where "now d \<le> t" and "d' = snd (exec_all cs (at_time t d)) \<or> d' = at_time t d"
    using assms(1) unfolding served_tx_def by (metis snd_conv)
  then show ?thesis using exec_all_entry [OF assms(2,3), of "at_time t d"] by auto
qed

end
