(* ===== verification/Encodings.thy ===== *)
theory Encodings
  imports Platform "HOL-Library.Signed_Division"
begin

text \<open>
  The parts of Go's standard library that write values as text: strconv for integers, encoding/hex,
  base64.RawURLEncoding, and \<open>time.Duration.Seconds\<close> with the conversion of its float64 to int.
\<close>

section \<open>Integers as text\<close>

text \<open>\<open>strconv.FormatInt(n, 10)\<close> and \<open>strconv.ParseInt(s, 10, 64)\<close>.\<close>

definition format_int :: "int \<Rightarrow> string" where
  "format_int n = (if n < 0 then CHR ''-'' # digits (nat (- n)) else digits (nat n))"

fun parse_int :: "string \<Rightarrow> int option" where
  "parse_int [] = None"
| "parse_int (c # cs) =
     (if c = CHR ''-'' then
        (if cs = [] then None
         else case undigits 0 cs of
                Some n \<Rightarrow> if n \<le> 2 ^ 63 then Some (- int n) else None | None \<Rightarrow> None)
      else
        (let ds = (if c = CHR ''+'' then cs else c # cs) in
         if ds = [] then None
         else case undigits 0 ds of
                Some n \<Rightarrow> if n < 2 ^ 63 then Some (int n) else None | None \<Rightarrow> None))"

lemma digits_not_Nil: "digits n \<noteq> []"
  by (subst digits.simps) simp

lemma digits_digit: "c \<in> set (digits n) \<Longrightarrow> is_digit c"
proof (induction n rule: digits.induct)
  case (1 n)
  have "n mod 10 < 10" by simp
  then have "is_digit (char_of (48 + n mod 10))"
    and "n < 10 \<Longrightarrow> is_digit (char_of (48 + n))"
    by (auto simp: is_digit_def)
  with 1 show ?case
    by (subst (asm) (2) digits.simps) (auto split: if_splits)
qed

lemma parse_format:
  assumes "- (2 ^ 63) \<le> n" and "n < 2 ^ 63"
  shows "parse_int (format_int n) = Some n"
proof (cases "n < 0")
  case True
  with assms(1) have "nat (- n) \<le> 2 ^ 63" by simp
  with True show ?thesis
    by (simp add: format_int_def digits_not_Nil undigits_digits)
next
  case False
  obtain c cs where d: "digits (nat n) = c # cs"
    using digits_not_Nil by (cases "digits (nat n)") auto
  have "is_digit c" using digits_digit [of c "nat n"] d by simp
  then have "c \<noteq> CHR ''-''" "c \<noteq> CHR ''+''" by (auto simp: is_digit_def)
  moreover have "undigits 0 (c # cs) = Some (nat n)"
    using undigits_digits [of "nat n"] d by simp
  ultimately show ?thesis
    using False assms d by (auto simp: format_int_def Let_def split: if_splits option.splits)
qed

section \<open>encoding/hex\<close>

definition hex_digit :: "nat \<Rightarrow> char" where
  "hex_digit n = (if n < 10 then char_of (48 + n) else char_of (87 + n))"

fun hex :: "string \<Rightarrow> string" where
  "hex [] = []"
| "hex (c # cs) = hex_digit (of_char c div 16) # hex_digit (of_char c mod 16) # hex cs"

section \<open>base64.RawURLEncoding\<close>

definition b64_char :: "nat \<Rightarrow> char" where
  "b64_char n =
     (if n < 26 then char_of (65 + n) else if n < 52 then char_of (71 + n)
      else if n < 62 then char_of (n - 4) else if n = 62 then CHR ''-'' else CHR ''_'')"

fun b64 :: "string \<Rightarrow> string" where
  "b64 (x # y # z # rest) =
     (let a = of_char x; b = of_char y; c = of_char z in
      b64_char (a div 4) # b64_char (a mod 4 * 16 + b div 16)
        # b64_char (b mod 16 * 4 + c div 64) # b64_char (c mod 64) # b64 rest)"
| "b64 [x, y] =
     (let a = of_char x; b = of_char y in
      [b64_char (a div 4), b64_char (a mod 4 * 16 + b div 16), b64_char (b mod 16 * 4)])"
| "b64 [x] = (let a = of_char x in [b64_char (a div 4), b64_char (a mod 4 * 16)])"
| "b64 [] = []"

lemma b64_sample: "b64 ''foobar'' = ''Zm9vYmFy'' \<and> b64 ''fooba'' = ''Zm9vYmE'' \<and> hex ''kfc'' = ''6b6663''"
  by code_simp

section \<open>Seconds of a duration\<close>

text \<open>\<open>int(d.Seconds())\<close>: whole seconds plus a fraction, in float64, truncated.\<close>

fun fl_add :: "float64 \<Rightarrow> float64 \<Rightarrow> float64" where
  "fl_add (Fin x) (Fin y) = fl (x + y)"
| "fl_add _ _ = NaN"

definition int_seconds :: "int \<Rightarrow> int" where
  "int_seconds d =
     sint (int64_of_float (fl_add (fl (of_int (d sdiv second))) (fl (of_int (d smod second) / 10 ^ 9))))"

lemma fl_0: "fl 0 = Fin 0"
  by (simp add: fl_def)

lemma int_seconds_exact:
  assumes "\<bar>n\<bar> < 2 ^ 53"
  shows "int_seconds (n * second) = n"
proof -
  have "(n * second) sdiv second = n" "(n * second) smod second = 0"
    by (simp_all add: signed_divide_int_def signed_modulo_int_def second_def sgn_mult abs_mult sgn_mult_abs)
  moreover have "sint (word_of_int n :: i64) = n"
    using assms by (auto simp: sint_sbintrunc' signed_take_bit_int_eq_self_iff)
  moreover have "- (2 ^ 63) \<le> n" "n < 2 ^ 63" using assms by auto
  ultimately show ?thesis
    by (simp add: int_seconds_def fl_0 fl_int [OF assms] int64_of_float_int)
qed

end
