(* ===== verification/Customer_Auth_Repo.thy ===== *)
theory Customer_Auth_Repo
  imports Redis_Bytes Encodings
begin

text \<open>
  Customer sign-in state in Redis (internal/repository/customer_auth_repo.go): login codes by phone,
  throttle counters, and refresh tokens by hash.  The interface \<open>CustomerAuthRepository\<close> is the locale
  \<open>customer_auth\<close>; the throttles are treated by themselves, as runs of \<open>Allow\<close> on one key.

  The number of attempts is written by the program only, between 0 and 5; it is an integer here.  The
  JSON codec of a login code is encoding/json, a parameter.
\<close>

section \<open>Operations\<close>

record LoginCode =
  lc_Hash :: string
  lc_Attempts :: int

record 's customer_auth_repo =
  car_redis :: "'s redis"
  car_platform :: "'s platform"
  car_Marshal :: "LoginCode \<Rightarrow> go_error + string"
  car_Unmarshal :: "string \<Rightarrow> go_error + LoginCode"

definition ErrNotFound :: string where "ErrNotFound = ''not found''"

definition codeKeyFor :: "string \<Rightarrow> string" where "codeKeyFor phone = ''cust:code:'' @ phone"
definition refreshKeyFor :: "string \<Rightarrow> string" where "refreshKeyFor h = ''cust:refresh:'' @ h"
definition throttleKeyFor :: "string \<Rightarrow> string" where "throttleKeyFor key = ''cust:throttle:'' @ key"

definition SaveCode :: "'s customer_auth_repo \<Rightarrow> string \<Rightarrow> LoginCode \<Rightarrow> int \<Rightarrow> ('s, unit) op" where
  "SaveCode R phone code ttl s =
     (case car_Marshal R code of
        Inl e \<Rightarrow> (Inl e, s)
      | Inr raw \<Rightarrow> SetBytes (car_redis R) (codeKeyFor phone) raw ttl s)"

text \<open>The result of TTL: the two negative answers are not seconds.\<close>

definition as_ttl :: "string + reply \<Rightarrow> go_error + int" where
  "as_ttl r = (case as_int r of
     Inl e \<Rightarrow> Inl e
   | Inr n \<Rightarrow> Inr (if n = -1 \<or> n = -2 then n else n * second))"

definition GetLoginCode :: "'s customer_auth_repo \<Rightarrow> string \<Rightarrow> ('s, LoginCode \<times> int) op" where
  "GetLoginCode R phone s =
     (case ask (car_redis R) (GET (codeKeyFor phone)) as_bulk s of
        (Inl e, s1) \<Rightarrow>
          (Inl (if is_nil e then Sentinel ErrNotFound else Wrapped ''get login code'' e), s1)
      | (Inr raw, s1) \<Rightarrow>
          (case ask (car_redis R) (TTL (codeKeyFor phone)) as_ttl s1 of
             (Inl e, s2) \<Rightarrow> (Inl (Wrapped ''get login code ttl'' e), s2)
           | (Inr ttl, s2) \<Rightarrow>
               (case car_Unmarshal R raw of
                  Inl e \<Rightarrow> (Inl (Wrapped ''decode login code'' e), s2)
                | Inr c \<Rightarrow> (Inr (c, ttl), s2))))"

definition DeleteLoginCode :: "'s customer_auth_repo \<Rightarrow> string \<Rightarrow> ('s, unit) op" where
  "DeleteLoginCode R phone s = Del (car_redis R) [codeKeyFor phone] s"

text \<open>
  \<open>Allow\<close>: count, start the window if it has not started, read what is left of it, in one
  transaction.  A result that was not received reads as 0.
\<close>

definition val_of :: "(go_error + int) \<Rightarrow> int" where
  "val_of r = (case r of Inr n \<Rightarrow> n | Inl _ \<Rightarrow> 0)"

definition Allow :: "'s customer_auth_repo \<Rightarrow> string \<Rightarrow> int \<Rightarrow> int \<Rightarrow> ('s, bool \<times> int) op" where
  "Allow R key limit window s =
     (let k = throttleKeyFor key;
          (rs, s1) = rd_tx (car_redis R) [INCR k, EXPIRENX k window, TTL k] s
      in case pipe_error rs of
           Some e \<Rightarrow> (Inl (Wrapped (''throttle '' @ key) e), s1)
         | None \<Rightarrow>
             (case rs of
                [incr, _, ttl] \<Rightarrow> (Inr (val_of (as_int incr) \<le> limit, val_of (as_ttl ttl)), s1)
              | _ \<Rightarrow> (Inl odd_reply, s1)))"

definition SaveRefresh :: "'s customer_auth_repo \<Rightarrow> string \<Rightarrow> uuid \<Rightarrow> int \<Rightarrow> ('s, unit) op" where
  "SaveRefresh R tokenHash memberID ttl s =
     ask (car_redis R) (SET (refreshKeyFor tokenHash) (uuid_String (car_platform R) memberID) ttl) as_ok s"

definition TakeRefresh :: "'s customer_auth_repo \<Rightarrow> string \<Rightarrow> ('s, uuid) op" where
  "TakeRefresh R tokenHash s =
     (case ask (car_redis R) (GETDEL (refreshKeyFor tokenHash)) as_bulk s of
        (Inl e, s1) \<Rightarrow>
          (Inl (if is_nil e then Sentinel ErrNotFound else Wrapped ''take refresh token'' e), s1)
      | (Inr v, s1) \<Rightarrow> (uuid_Parse (car_platform R) v, s1))"

definition DeleteRefresh :: "'s customer_auth_repo \<Rightarrow> string \<Rightarrow> ('s, unit) op" where
  "DeleteRefresh R tokenHash s = Del (car_redis R) [refreshKeyFor tokenHash] s"

section \<open>The interface\<close>

text \<open>
  \<open>code s p\<close> is the login code pending for a phone, \<open>refresh s h\<close> the member a refresh token (by
  hash) signs in.  Login codes and refresh tokens do not disturb each other.
\<close>

locale customer_auth =
  fixes get_code :: "string \<Rightarrow> 's \<Rightarrow> (go_error + LoginCode \<times> int) \<times> 's"
    and save_code :: "string \<Rightarrow> LoginCode \<Rightarrow> int \<Rightarrow> 's \<Rightarrow> (go_error + unit) \<times> 's"
    and delete_code :: "string \<Rightarrow> 's \<Rightarrow> (go_error + unit) \<times> 's"
    and allow :: "string \<Rightarrow> int \<Rightarrow> int \<Rightarrow> 's \<Rightarrow> (go_error + bool \<times> int) \<times> 's"
    and save_refresh :: "string \<Rightarrow> uuid \<Rightarrow> int \<Rightarrow> 's \<Rightarrow> (go_error + unit) \<times> 's"
    and take_refresh :: "string \<Rightarrow> 's \<Rightarrow> (go_error + uuid) \<times> 's"
    and inv :: "'s \<Rightarrow> bool"
    and code :: "'s \<Rightarrow> string \<Rightarrow> LoginCode option"
    and refresh :: "'s \<Rightarrow> string \<Rightarrow> uuid option"
  assumes get_code_keeps: "inv s \<Longrightarrow> get_code p s = (g, s') \<Longrightarrow>
      inv s' \<and> code s' \<subseteq>\<^sub>m code s \<and> refresh s' \<subseteq>\<^sub>m refresh s"
    and get_code_found: "inv s \<Longrightarrow> get_code p s = (Inr (c, ttl), s') \<Longrightarrow> code s p = Some c"
    and save_code_only: "inv s \<Longrightarrow> save_code p c ttl s = (w, s') \<Longrightarrow> inv s' \<and> refresh s' \<subseteq>\<^sub>m refresh s
      \<and> (\<forall>q x. code s' q = Some x \<longrightarrow> code s q = Some x \<or> (q = p \<and> x = c))"
    and delete_code_keeps: "inv s \<Longrightarrow> delete_code p s = (w, s') \<Longrightarrow>
      inv s' \<and> code s' \<subseteq>\<^sub>m code s \<and> refresh s' \<subseteq>\<^sub>m refresh s \<and> (w = Inr () \<longrightarrow> code s' p = None)"
    and allow_keeps: "inv s \<Longrightarrow> allow key limit window s = (a, s') \<Longrightarrow>
      inv s' \<and> code s' \<subseteq>\<^sub>m code s \<and> refresh s' \<subseteq>\<^sub>m refresh s"
    and save_refresh_only: "inv s \<Longrightarrow> save_refresh h m ttl s = (w, s') \<Longrightarrow> inv s' \<and> code s' \<subseteq>\<^sub>m code s
      \<and> (\<forall>g x. refresh s' g = Some x \<longrightarrow> refresh s g = Some x \<or> (g = h \<and> x = m))"
    and take_refresh_keeps: "inv s \<Longrightarrow> take_refresh h s = (u, s') \<Longrightarrow>
      inv s' \<and> code s' \<subseteq>\<^sub>m code s \<and> refresh s' \<subseteq>\<^sub>m refresh s"
    and take_refresh_once: "inv s \<Longrightarrow> take_refresh h s = (Inr m, s') \<Longrightarrow>
      refresh s h = Some m \<and> refresh s' h = None"


section \<open>The repository provides it\<close>

definition login_code :: "'s customer_auth_repo \<Rightarrow> redis_db \<Rightarrow> string \<Rightarrow> LoginCode option" where
  "login_code R d phone =
     (case live d (codeKeyFor phone) of
        Some (VStr raw) \<Rightarrow> (case car_Unmarshal R raw of Inr c \<Rightarrow> Some c | Inl _ \<Rightarrow> None)
      | _ \<Rightarrow> None)"

definition refresh_of :: "'s customer_auth_repo \<Rightarrow> redis_db \<Rightarrow> string \<Rightarrow> uuid option" where
  "refresh_of R d h =
     (case live d (refreshKeyFor h) of
        Some (VStr v) \<Rightarrow> (case uuid_Parse (car_platform R) v of Inr m \<Rightarrow> Some m | Inl _ \<Rightarrow> None)
      | _ \<Rightarrow> None)"

definition auth_inv :: "'s customer_auth_repo \<Rightarrow> ('s \<Rightarrow> redis_db) \<Rightarrow> 's \<Rightarrow> bool" where
  "auth_inv R db s \<longleftrightarrow> redis_ok (car_redis R) db \<and> platform_ok (car_platform R) db
     \<and> (\<forall>c raw. car_Marshal R c = Inr raw \<longrightarrow> car_Unmarshal R raw = Inr c)"

lemma auth_invD:
  assumes "auth_inv R db s"
  shows "redis_ok (car_redis R) db" "platform_ok (car_platform R) db"
    "car_Marshal R c = Inr raw \<Longrightarrow> car_Unmarshal R raw = Inr c"
    "uuid_Parse (car_platform R) (uuid_String (car_platform R) u) = Inr u"
  using assms platform_okD(4) unfolding auth_inv_def by blast+

lemma auth_inv_any: "auth_inv R db s \<Longrightarrow> auth_inv R db s'"
  by (simp add: auth_inv_def)

lemma auth_keys [simp]:
  "codeKeyFor p = codeKeyFor q \<longleftrightarrow> p = q" "refreshKeyFor p = refreshKeyFor q \<longleftrightarrow> p = q"
  "throttleKeyFor p = throttleKeyFor q \<longleftrightarrow> p = q"
  "codeKeyFor p \<noteq> refreshKeyFor q" "refreshKeyFor q \<noteq> codeKeyFor p" "codeKeyFor p \<noteq> throttleKeyFor q"
  "throttleKeyFor q \<noteq> codeKeyFor p" "refreshKeyFor p \<noteq> throttleKeyFor q" "throttleKeyFor q \<noteq> refreshKeyFor p"
  by (simp_all add: codeKeyFor_def refreshKeyFor_def throttleKeyFor_def)

text \<open>Nothing appears that was not there.\<close>

lemma login_code_live:
  "login_code R d p = Some c \<longleftrightarrow> (\<exists>raw. live d (codeKeyFor p) = Some (VStr raw) \<and> car_Unmarshal R raw = Inr c)"
  by (auto simp: login_code_def split: option.split stored.split sum.split)

lemma refresh_of_live:
  "refresh_of R d h = Some m \<longleftrightarrow>
   (\<exists>v. live d (refreshKeyFor h) = Some (VStr v) \<and> uuid_Parse (car_platform R) v = Inr m)"
  by (auto simp: refresh_of_def split: option.split stored.split sum.split)

lemma login_code_shrinks:
  "shrinks d d' (codeKeyFor p) \<Longrightarrow> login_code R d' p = Some c \<Longrightarrow> login_code R d p = Some c"
  unfolding login_code_live using shrinks_live by blast

lemma refresh_of_shrinks:
  "shrinks d d' (refreshKeyFor h) \<Longrightarrow> refresh_of R d' h = Some m \<Longrightarrow> refresh_of R d h = Some m"
  unfolding refresh_of_live using shrinks_live by blast

lemma login_code_mono: "(\<And>p. shrinks d d' (codeKeyFor p)) \<Longrightarrow> login_code R d' \<subseteq>\<^sub>m login_code R d"
  by (rule map_leI) (rule login_code_shrinks)

lemma refresh_of_mono: "(\<And>h. shrinks d d' (refreshKeyFor h)) \<Longrightarrow> refresh_of R d' \<subseteq>\<^sub>m refresh_of R d"
  by (rule map_leI) (rule refresh_of_shrinks)

lemma Allow_db:
  assumes "redis_ok (car_redis R) db" and "Allow R key limit window s = (a, s')"
  shows "served_tx [INCR (throttleKeyFor key), EXPIRENX (throttleKeyFor key) window, TTL (throttleKeyFor key)]
      (db s) (fst (rd_tx (car_redis R) [INCR (throttleKeyFor key), EXPIRENX (throttleKeyFor key) window, TTL (throttleKeyFor key)] s)) (db s')"
proof -
  have "s' = snd (rd_tx (car_redis R) [INCR (throttleKeyFor key), EXPIRENX (throttleKeyFor key) window, TTL (throttleKeyFor key)] s)"
    using assms(2) by (auto simp: Allow_def Let_def split: prod.splits option.splits list.splits)
  with redis_ok_tx [OF assms(1)] show ?thesis by simp
qed

lemma Allow_entry:
  assumes "redis_ok (car_redis R) db" and "Allow R key limit window s = (a, s')" and "k \<noteq> throttleKeyFor key"
  shows "entry (db s') k = entry (db s) k \<and> now (db s) \<le> now (db s')"
  using served_tx_entry [OF Allow_db [OF assms(1,2)]] assms(3) by simp


lemma ages_auth: "ages d d' \<Longrightarrow> login_code R d' \<subseteq>\<^sub>m login_code R d \<and> refresh_of R d' \<subseteq>\<^sub>m refresh_of R d"
  using login_code_mono refresh_of_mono ages_shrinks by blast

lemma GetLoginCode_db:
  assumes ok: "redis_ok (car_redis R) db" and "GetLoginCode R p s = (g, s')"
  shows "ages (db s) (db s') \<and> (\<forall>c ttl. g = Inr (c, ttl) \<longrightarrow> login_code R (db s) p = Some c)"
proof -
  obtain r s1 where 1: "rd (car_redis R) (GET (codeKeyFor p)) s = (r, s1)"
    by (cases "rd (car_redis R) (GET (codeKeyFor p)) s")
  obtain t s2 where 2: "rd (car_redis R) (TTL (codeKeyFor p)) s1 = (t, s2)"
    by (cases "rd (car_redis R) (TTL (codeKeyFor p)) s1")
  have sv: "served (GET (codeKeyFor p)) (db s) r (db s1)" "served (TTL (codeKeyFor p)) (db s1) t (db s2)"
    using redis_ok_rd [OF ok, of "GET (codeKeyFor p)" s] redis_ok_rd [OF ok, of "TTL (codeKeyFor p)" s1] 1 2 by simp_all
  note a = served_GET [OF sv(1)] and b = served_reads [OF sv(2)]
  from assms(2) 1 2 have "s' = s1 \<or> s' = s2"
    by (auto simp: GetLoginCode_def ask_def split: sum.splits)
  then have "ages (db s) (db s')" using a b ages_trans by auto
  moreover have "login_code R (db s) p = Some c" if "g = Inr (c, ttl)" for c ttl
  proof -
    from assms(2) 1 2 that obtain raw where "r = Inr (RBulk raw)" "car_Unmarshal R raw = Inr c"
      by (auto simp: GetLoginCode_def ask_def as_bulk_Inr split: sum.splits)
    with a ages_live show ?thesis by (auto simp: login_code_live)
  qed
  ultimately show ?thesis by blast
qed

lemma SaveCode_db:
  assumes ok: "auth_inv R db s" and "SaveCode R p c ttl s = (w, s')"
  shows "refresh_of R (db s') \<subseteq>\<^sub>m refresh_of R (db s)
    \<and> (\<forall>q x. login_code R (db s') q = Some x \<longrightarrow> login_code R (db s) q = Some x \<or> (q = p \<and> x = c))
    \<and> now (db s) \<le> now (db s') \<and> (\<forall>k. k \<noteq> codeKeyFor p \<longrightarrow> entry (db s') k = entry (db s) k)"
proof (cases "car_Marshal R c")
  case (Inl e)
  with assms(2) show ?thesis by (auto simp: SaveCode_def)
next
  case (Inr raw)
  with assms(2) have q: "SetBytes (car_redis R) (codeKeyFor p) raw ttl s = (w, s')"
    by (simp add: SaveCode_def)
  note D = SetBytes_db [OF auth_invD(1) [OF ok] q]
  have others: "shrinks (db s) (db s') k" if "k \<noteq> codeKeyFor p" for k
    using D that by (simp add: shrinks_def)
  have "login_code R (db s) q = Some x \<or> (q = p \<and> x = c)" if x: "login_code R (db s') q = Some x" for q x
  proof (cases "shrinks (db s) (db s') (codeKeyFor q)")
    case True
    with x login_code_shrinks show ?thesis by blast
  next
    case False
    with others [of "codeKeyFor q"] have "q = p" by auto
    with D False obtain e where "entry (db s') (codeKeyFor p) = Some (VStr raw, e)"
      by (auto simp: shrinks_def)
    with x \<open>q = p\<close> auth_invD(3) [OF ok Inr] show ?thesis
      by (auto simp: login_code_live live_def split: option.splits if_splits)
  qed
  with D others show ?thesis by (auto intro: refresh_of_mono)
qed

lemma Del_auth:
  assumes ok: "redis_ok (car_redis R) db" and "Del (car_redis R) [k] s = (w, s')"
  shows "login_code R (db s') \<subseteq>\<^sub>m login_code R (db s) \<and> refresh_of R (db s') \<subseteq>\<^sub>m refresh_of R (db s)
    \<and> now (db s) \<le> now (db s') \<and> (\<forall>k'. k' \<noteq> k \<longrightarrow> entry (db s') k' = entry (db s) k')
    \<and> (w = Inr () \<longrightarrow> live (db s') k = None)"
proof -
  note D = Del_shrinks [OF ok assms(2)]
  have "now (db s) \<le> now (db s')" using D by (simp add: shrinks_def)
  with D show ?thesis
    by (auto intro!: login_code_mono refresh_of_mono simp: live_def)
qed

lemma SaveRefresh_db:
  assumes ok: "auth_inv R db s" and "SaveRefresh R h m ttl s = (w, s')"
  shows "login_code R (db s') \<subseteq>\<^sub>m login_code R (db s)
    \<and> (\<forall>g x. refresh_of R (db s') g = Some x \<longrightarrow> refresh_of R (db s) g = Some x \<or> (g = h \<and> x = m))
    \<and> now (db s) \<le> now (db s') \<and> (\<forall>k. k \<noteq> refreshKeyFor h \<longrightarrow> entry (db s') k = entry (db s) k)"
proof -
  let ?v = "uuid_String (car_platform R) m"
  obtain r where q: "rd (car_redis R) (SET (refreshKeyFor h) ?v ttl) s = (r, s')"
    using assms(2) by (auto simp: SaveRefresh_def ask_def split: prod.splits)
  have sv: "served (SET (refreshKeyFor h) ?v ttl) (db s) r (db s')"
    using redis_ok_rd [OF auth_invD(1) [OF ok], of "SET (refreshKeyFor h) ?v ttl" s] q by simp
  have keep: "entry (db s') k = entry (db s) k" if "k \<noteq> refreshKeyFor h" for k
    using served_entry [OF sv, of k] that by simp
  have le: "now (db s) \<le> now (db s')" using served_now [OF sv] .
  have "refresh_of R (db s) g = Some x \<or> (g = h \<and> x = m)" if x: "refresh_of R (db s') g = Some x" for g x
  proof (cases "shrinks (db s) (db s') (refreshKeyFor g)")
    case True
    with x refresh_of_shrinks show ?thesis by blast
  next
    case False
    with keep [of "refreshKeyFor g"] le have "g = h" by (auto simp: shrinks_def)
    with served_SET_any [OF sv] False le obtain e where "entry (db s') (refreshKeyFor h) = Some (VStr ?v, e)"
      by (auto simp: shrinks_def)
    with x \<open>g = h\<close> auth_invD(4) [OF ok] show ?thesis
      by (auto simp: refresh_of_live live_def split: option.splits if_splits)
  qed
  with keep le show ?thesis by (auto intro!: login_code_mono simp: shrinks_def)
qed


lemma TakeRefresh_db:
  assumes ok: "redis_ok (car_redis R) db" and "TakeRefresh R h s = (u, s')"
  shows "shrinks (db s) (db s') k \<and> (k \<noteq> refreshKeyFor h \<longrightarrow> entry (db s') k = entry (db s) k)
    \<and> (\<forall>m. u = Inr m \<longrightarrow> refresh_of R (db s) h = Some m \<and> live (db s') (refreshKeyFor h) = None)"
proof -
  let ?k = "refreshKeyFor h"
  obtain r where q: "rd (car_redis R) (GETDEL ?k) s = (r, s')"
    using assms(2) by (auto simp: TakeRefresh_def ask_def split: prod.splits sum.splits)
  have sv: "served (GETDEL ?k) (db s) r (db s')"
    using redis_ok_rd [OF ok, of "GETDEL ?k" s] q by simp
  have ex: "shrinks d (snd (exec (GETDEL ?k) d)) k" for d
    by (auto simp: shrinks_def split: option.split stored.split)
  have sh: "shrinks (db s) (db s') k"
    using sv
  proof (rule served_cases)
    fix t assume "now (db s) \<le> t" "exec (GETDEL ?k) (at_time t (db s)) = (r, db s')"
    with ex [of "at_time t (db s)"] show ?thesis by (simp add: shrinks_def)
  next
    fix t e assume "now (db s) \<le> t" "db s' = snd (exec (GETDEL ?k) (at_time t (db s)))"
    with ex [of "at_time t (db s)"] show ?thesis by (simp add: shrinks_def)
  qed (auto simp: shrinks_def)
  have "refresh_of R (db s) h = Some m \<and> live (db s') ?k = None" if u: "u = Inr m" for m
  proof -
    from assms(2) q u obtain v where v: "r = Inr (RBulk v)" "uuid_Parse (car_platform R) v = Inr m"
      by (auto simp: TakeRefresh_def ask_def as_bulk_Inr split: sum.splits)
    from sv [unfolded v(1)] obtain t where t: "now (db s) \<le> t"
      and x: "exec (GETDEL ?k) (at_time t (db s)) = (Inr (RBulk v), db s')"
      by (rule served_Inr) simp
    then have "live (at_time t (db s)) ?k = Some (VStr v)" "db s' = drop_keys [?k] (at_time t (db s))"
      by (auto split: option.splits stored.splits)
    with live_later [OF _ t] v(2) show ?thesis by (auto simp: refresh_of_live)
  qed
  with sh served_entry [OF sv, of k] show ?thesis by simp
qed

interpretation auth: customer_auth
  "GetLoginCode R" "SaveCode R" "DeleteLoginCode R" "Allow R" "SaveRefresh R" "TakeRefresh R"
  "auth_inv R db" "\<lambda>s. login_code R (db s)" "\<lambda>s. refresh_of R (db s)"
  for R :: "'s customer_auth_repo" and db :: "'s \<Rightarrow> redis_db"
proof (unfold_locales, goal_cases)
  case (1 s p g s')
  with GetLoginCode_db [OF auth_invD(1) [OF 1(1)] 1(2)] ages_auth [of "db s" "db s'" R]
    auth_inv_any [OF 1(1), of s'] show ?case by simp
next
  case (2 s p c ttl s')
  with GetLoginCode_db [OF auth_invD(1) [OF 2(1)] 2(2)] show ?case by simp
next
  case (3 s p c ttl w s')
  with SaveCode_db [OF 3] auth_inv_any [OF 3(1), of s'] show ?case by simp
next
  case (4 s p w s')
  then have "Del (car_redis R) [codeKeyFor p] s = (w, s')" by (simp add: DeleteLoginCode_def)
  with Del_auth [OF auth_invD(1) [OF 4(1)] this] auth_inv_any [OF 4(1), of s'] show ?case
    by (auto simp: login_code_def)
next
  case (5 s key limit window a s')
  have "shrinks (db s) (db s') k" if "k \<noteq> throttleKeyFor key" for k
    using Allow_entry [OF auth_invD(1) [OF 5(1)] 5(2) that] by (simp add: shrinks_def)
  with auth_inv_any [OF 5(1), of s'] show ?case by (auto intro!: login_code_mono refresh_of_mono)
next
  case (6 s h m ttl w s')
  with SaveRefresh_db [OF 6] auth_inv_any [OF 6(1), of s'] show ?case by simp
next
  case (7 s h u s')
  with TakeRefresh_db [OF auth_invD(1) [OF 7(1)] 7(2)] auth_inv_any [OF 7(1), of s'] show ?case
    by (auto intro!: login_code_mono refresh_of_mono)
next
  case (8 s h m s')
  with TakeRefresh_db [OF auth_invD(1) [OF 8(1)] 8(2)] show ?case by (auto simp: refresh_of_def)
qed


section \<open>Throttles\<close>

text \<open>The counter of a window: at least \<open>n\<close> uses counted, to be kept until \<open>e\<close> at the earliest.\<close>

definition counting :: "redis_db \<Rightarrow> string \<Rightarrow> nat \<Rightarrow> int \<Rightarrow> bool" where
  "counting d k n e \<longleftrightarrow> (\<exists>m x. entry d k = Some (VStr (digits m), Some x) \<and> n \<le> m \<and> e \<le> x)"

abbreviation allow_cmds :: "string \<Rightarrow> int \<Rightarrow> cmd list" where
  "allow_cmds k w \<equiv> [INCR k, EXPIRENX k w, TTL k]"

lemma allow_exec_fresh:
  assumes "live d k = None" and "0 < w" and "exec_all (allow_cmds k w) d = (rs, d')"
  shows "entry d' k = Some (VStr (digits 1), Some (now d + in_seconds w)) \<and> hd rs = Inr (RInt 1) \<and> now d' = now d"
  using assms in_seconds_pos [OF assms(2)] by (auto split: option.splits)

lemma allow_exec_counting:
  assumes "counting d k n e" and "now d < e" and "exec_all (allow_cmds k w) d = (rs, d')"
  shows "counting d' k n e \<and> now d' = now d
    \<and> (\<forall>c. hd rs = Inr (RInt c) \<longrightarrow> counting d' k (Suc n) e \<and> int n < c)"
proof -
  from assms(1) obtain m x where e: "entry d k = Some (VStr (digits m), Some x)" "n \<le> m" "e \<le> x"
    by (auto simp: counting_def)
  then have l: "live d k = Some (VStr (digits m))" "expiry d k = Some x"
    using assms(2) by (simp_all add: live_def expiry_def)
  show ?thesis
  proof (cases "9223372036854775807 \<le> m")
    case True
    with assms(3) l e show ?thesis
      by (auto simp: digits_not_Nil undigits_digits counting_def)
  next
    case False
    let ?d1 = "put k (VStr (digits (m + 1))) (Some x) d"
    have "exec (INCR k) d = (Inr (RInt (int m + 1)), ?d1)"
      using False l by (simp add: digits_not_Nil undigits_digits)
    moreover have "live ?d1 k = Some (VStr (digits (m + 1)))" using assms(2) e by simp
    ultimately have "d' = ?d1" "hd rs = Inr (RInt (int m + 1))" using assms(3) by auto
    with e show ?thesis by (auto simp: counting_def intro!: exI [of _ "Suc m"])
  qed
qed

text \<open>\<open>Allow\<close> answers with the count: a use is allowed only if it was counted and within the limit.\<close>

lemma exec_INCR: "\<exists>x. fst (exec (INCR k) d) = Inl x \<or> (\<exists>c. fst (exec (INCR k) d) = Inr (RInt c))"
  by (auto split: option.split stored.split)

lemma Allow_steps:
  assumes ok: "redis_ok (car_redis R) db" and "Allow R key limit w s = (a, s')"
  obtains t rs d' where "now (db s) \<le> t"
    "exec_all (allow_cmds (throttleKeyFor key) w) (at_time t (db s)) = (rs, d')"
    "db s' = d' \<or> (db s' = at_time t (db s) \<and> (\<forall>ttl. a \<noteq> Inr (True, ttl)))"
    "\<And>ttl. a = Inr (True, ttl) \<Longrightarrow> \<exists>c. hd rs = Inr (RInt c) \<and> c \<le> limit"
proof -
  let ?cs = "allow_cmds (throttleKeyFor key) w"
  obtain rs where q: "rd_tx (car_redis R) ?cs s = (rs, s')"
    using assms(2) by (auto simp: Allow_def Let_def split: prod.splits option.splits list.splits)
  have sv: "served_tx ?cs (db s) rs (db s')"
    using redis_ok_tx [OF ok, of ?cs s] q by simp
  have a: "a = (case pipe_error rs of Some e \<Rightarrow> Inl (Wrapped (''throttle '' @ key) e)
      | None \<Rightarrow> (case rs of [incr, _, ttl] \<Rightarrow> Inr (val_of (as_int incr) \<le> limit, val_of (as_ttl ttl))
                 | _ \<Rightarrow> Inl odd_reply))"
    using assms(2) q by (simp add: Allow_def Let_def split: option.splits list.splits)
  from sv obtain t where t: "now (db s) \<le> t" and cases: "exec_all ?cs (at_time t (db s)) = (rs, db s')
      \<or> (length rs = length ?cs \<and> (\<forall>r \<in> set rs. \<exists>e. r = Inl e)
           \<and> (db s' = at_time t (db s) \<or> (\<exists>rs'. exec_all ?cs (at_time t (db s)) = (rs', db s'))))"
    unfolding served_tx_def by blast
  obtain rs1 d1 where x: "exec_all ?cs (at_time t (db s)) = (rs1, d1)"
    by (cases "exec_all ?cs (at_time t (db s))")
  from cases show thesis
  proof
    assume e: "exec_all ?cs (at_time t (db s)) = (rs, db s')"
    show thesis
    proof (rule that [OF t e])
      fix ttl assume yes: "a = Inr (True, ttl)"
      obtain r1 rest where rs: "rs = r1 # rest" "r1 = fst (exec (INCR (throttleKeyFor key)) (at_time t (db s)))"
        using e by (auto split: prod.splits simp del: exec.simps)
      from exec_INCR [of "throttleKeyFor key" "at_time t (db s)"] rs(2)
      consider y where "r1 = Inl y" | c where "r1 = Inr (RInt c)" by (metis (no_types))
      then show "\<exists>c. hd rs = Inr (RInt c) \<and> c \<le> limit"
        using yes a rs(1) by cases (auto simp: val_of_def split: option.splits list.splits)
    qed simp
  next
    assume l: "length rs = length ?cs \<and> (\<forall>r \<in> set rs. \<exists>e. r = Inl e)
           \<and> (db s' = at_time t (db s) \<or> (\<exists>rs'. exec_all ?cs (at_time t (db s)) = (rs', db s')))"
    then obtain e rest where "rs = Inl e # rest" by (cases rs) auto
    with a have "a \<noteq> Inr (True, ttl)" for ttl by simp
    with that [OF t x] l x show thesis by auto
  qed
qed

text \<open>
  Runs: uses of one throttle, between other steps that leave its counter alone (uses of other
  throttles, codes and tokens coming and going, time).  The number is that of allowed uses.
\<close>

inductive throttle_run ::
  "'s customer_auth_repo \<Rightarrow> ('s \<Rightarrow> redis_db) \<Rightarrow> string \<Rightarrow> int \<Rightarrow> int \<Rightarrow> nat \<Rightarrow> 's \<Rightarrow> 's \<Rightarrow> bool"
  for R db key limit w where
  start: "throttle_run R db key limit w 0 s s"
| other: "throttle_run R db key limit w n s0 s \<Longrightarrow>
    entry (db s') (throttleKeyFor key) = entry (db s) (throttleKeyFor key) \<Longrightarrow> now (db s) \<le> now (db s') \<Longrightarrow>
    throttle_run R db key limit w n s0 s'"
| uses: "throttle_run R db key limit w n s0 s \<Longrightarrow> Allow R key limit w s = (a, s') \<Longrightarrow>
    throttle_run R db key limit w (if \<exists>ttl. a = Inr (True, ttl) then Suc n else n) s0 s'"

lemma throttle_run_counting:
  assumes "throttle_run R db key limit w n s0 s" and ok: "redis_ok (car_redis R) db" and w: "0 < w"
    and fresh: "live (db s0) (throttleKeyFor key) = None"
    and "now (db s) < now (db s0) + in_seconds w"
  shows "now (db s0) \<le> now (db s) \<and> int n \<le> max 0 limit
    \<and> ((live (db s) (throttleKeyFor key) = None \<and> n = 0)
       \<or> counting (db s) (throttleKeyFor key) n (now (db s0) + in_seconds w))"
  using assms(1,4,5)
proof induction
  case (start s)
  then show ?case by simp
next
  case (other n s0 s s')
  then have IH: "now (db s0) \<le> now (db s) \<and> int n \<le> max 0 limit
    \<and> ((live (db s) (throttleKeyFor key) = None \<and> n = 0)
       \<or> counting (db s) (throttleKeyFor key) n (now (db s0) + in_seconds w))" by simp
  have "live (db s) (throttleKeyFor key) = None \<Longrightarrow> live (db s') (throttleKeyFor key) = None"
    using live_entry [OF other.hyps(2,3)] by (cases "live (db s') (throttleKeyFor key)") auto
  with IH other.hyps(2,3) show ?case by (auto simp: counting_def)
next
  case (uses n s0 s a s')
  let ?k = "throttleKeyFor key" and ?e = "now (db s0) + in_seconds w"
  obtain t rs d' where t: "now (db s) \<le> t"
    and x: "exec_all (allow_cmds ?k w) (at_time t (db s)) = (rs, d')"
    and s': "db s' = d' \<or> (db s' = at_time t (db s) \<and> (\<forall>ttl. a \<noteq> Inr (True, ttl)))"
    and yes: "\<And>ttl. a = Inr (True, ttl) \<Longrightarrow> \<exists>c. hd rs = Inr (RInt c) \<and> c \<le> limit"
    using Allow_steps [OF ok uses.hyps(2)] by metis
  have cnt: "counting (at_time t' d) k m e = counting d k m e" for t' d k m e
    by (simp add: counting_def)
  have s't: "now (db s') = now d' \<or> now (db s') = t" using s' by auto
  have d't: "now d' = t"
    using exec_all_entry [of "allow_cmds ?k w" "''x'' @ ?k" "at_time t (db s)"] x
    by simp
  with s't uses.prems(2) t have te: "t < ?e" "now (db s) < ?e" "now (db s') = t" by auto
  from uses.IH [OF uses.prems(1) te(2)] have IH: "now (db s0) \<le> now (db s)" "int n \<le> max 0 limit"
    "(live (db s) ?k = None \<and> n = 0) \<or> counting (db s) ?k n ?e" by auto
  from IH(3) show ?case
  proof
    assume f: "live (db s) ?k = None \<and> n = 0"
    then have dead: "live (at_time t (db s)) ?k = None" using dead_later t by blast
    note F = allow_exec_fresh [OF dead w x]
    have "counting d' ?k (Suc 0) ?e" using F IH(1) t by (auto simp: counting_def intro!: exI [of _ "Suc 0"])
    moreover have "counting d' ?k 0 ?e" using calculation by (auto simp: counting_def)
    moreover have "1 \<le> limit" if "\<exists>ttl. a = Inr (True, ttl)" using yes that F by auto
    ultimately show ?thesis using f s' te t IH(1) dead by auto
  next
    assume c: "counting (db s) ?k n ?e"
    note C = allow_exec_counting [OF _ _ x, of n ?e, unfolded cnt, OF c]
    have C: "counting d' ?k n ?e" "\<And>c. hd rs = Inr (RInt c) \<Longrightarrow> counting d' ?k (Suc n) ?e \<and> int n < c"
      using C te(1) by auto
    have "counting d' ?k (Suc n) ?e \<and> int (Suc n) \<le> limit" if "\<exists>ttl. a = Inr (True, ttl)"
      using yes that C(2) by fastforce
    moreover have "counting (db s') ?k n ?e" using s' C(1) c cnt by metis
    ultimately show ?thesis using s' te t IH(1,2) by auto
  qed
qed


section \<open>Properties\<close>

text \<open>
  A throttle holds.  Starting from a counter that is not running, \<open>Allow\<close> lets at most \<open>limit\<close>
  uses through until the window is over, however many are asked for, whatever happens to other keys
  in between, and also when transactions fail after they were carried out.
\<close>

theorem throttle_bound:
  assumes "throttle_run R db key limit w n s0 s" and "redis_ok (car_redis R) db" and "0 < w"
    and "live (db s0) (throttleKeyFor key) = None" and "now (db s) < now (db s0) + in_seconds w"
  shows "int n \<le> max 0 limit"
  using throttle_run_counting [OF assms] by simp

end
