(* ===== verification/Utf8.thy ===== *)
theory Utf8
  imports Prelude
begin

text \<open>
  Runes of a Go string: the decoder behind \<open>for _, r := range s\<close> and
  \<open>utf8.RuneCountInString\<close>, and \<open>strings.TrimSpace\<close>.  An invalid byte decodes to the
  replacement rune and is one byte wide, as the language specifies.

  The lemmas show that decoding always makes progress, that ASCII bytes are never swallowed by a
  multi-byte rune, and hence that selecting ASCII runes is selecting ASCII bytes.
\<close>

section \<open>Decoding\<close>

definition rune_error :: nat where
  "rune_error = 65533"

definition cont :: "nat \<Rightarrow> bool" where
  "cont b \<longleftrightarrow> 128 \<le> b \<and> b \<le> 191"

definition in_range :: "nat \<Rightarrow> nat \<Rightarrow> nat \<Rightarrow> bool" where
  "in_range lo hi b \<longleftrightarrow> lo \<le> b \<and> b \<le> hi"

text \<open>The second byte's range depends on the first (no overlong forms, no surrogates).\<close>

definition second_ok :: "nat \<Rightarrow> nat \<Rightarrow> bool" where
  "second_ok b0 b1 \<longleftrightarrow>
     (if b0 = 224 then in_range 160 191 b1
      else if b0 = 237 then in_range 128 159 b1
      else if b0 = 240 then in_range 144 191 b1
      else if b0 = 244 then in_range 128 143 b1
      else cont b1)"

text \<open>\<open>utf8.DecodeRuneInString\<close>: the first rune and its width in bytes.\<close>

fun decode_bytes :: "nat list \<Rightarrow> nat \<times> nat" where
  "decode_bytes [] = (rune_error, 0)"
| "decode_bytes (b0 # bs) =
     (if b0 < 128 then (b0, 1)
      else if in_range 194 223 b0 then
        (case bs of
           b1 # _ \<Rightarrow> if cont b1 then ((b0 - 192) * 64 + (b1 - 128), 2) else (rune_error, 1)
         | _ \<Rightarrow> (rune_error, 1))
      else if in_range 224 239 b0 then
        (case bs of
           b1 # b2 # _ \<Rightarrow>
             if second_ok b0 b1 \<and> cont b2
             then ((b0 - 224) * 4096 + (b1 - 128) * 64 + (b2 - 128), 3) else (rune_error, 1)
         | _ \<Rightarrow> (rune_error, 1))
      else if in_range 240 244 b0 then
        (case bs of
           b1 # b2 # b3 # _ \<Rightarrow>
             if second_ok b0 b1 \<and> cont b2 \<and> cont b3
             then ((b0 - 240) * 262144 + (b1 - 128) * 4096 + (b2 - 128) * 64 + (b3 - 128), 4)
             else (rune_error, 1)
         | _ \<Rightarrow> (rune_error, 1))
      else (rune_error, 1))"

definition decode_rune :: "string \<Rightarrow> nat \<times> nat" where
  "decode_rune s = decode_bytes (map of_char (take 4 s))"

lemma decode_bytes_width_pos: "bs \<noteq> [] \<Longrightarrow> 0 < snd (decode_bytes bs)"
  by (cases bs) (auto split: list.splits)

lemma decode_bytes_width_le: "snd (decode_bytes bs) \<le> length bs"
  by (cases bs) (auto split: list.splits)

lemma decode_bytes_ascii: "b < 128 \<Longrightarrow> decode_bytes (b # bs) = (b, 1)"
  by simp

lemma cont_high: "cont b \<Longrightarrow> 128 \<le> b"
  by (simp add: cont_def)

lemma second_ok_high: "second_ok b0 b1 \<Longrightarrow> 128 \<le> b1"
  by (auto simp: second_ok_def in_range_def cont_def split: if_splits)

lemma second_ok_value:
  "in_range 224 239 b0 \<Longrightarrow> second_ok b0 b1 \<Longrightarrow> 128 \<le> (b0 - 224) * 4096 + (b1 - 128) * 64"
  "in_range 240 244 b0 \<Longrightarrow> second_ok b0 b1 \<Longrightarrow> 128 \<le> (b0 - 240) * 262144 + (b1 - 128) * 4096"
  by (auto simp: second_ok_def in_range_def split: if_splits)

lemma decode_bytes_high_rune:
  assumes "128 \<le> b"
  shows "128 \<le> fst (decode_bytes (b # bs))"
proof -
  have two: "in_range 194 223 b \<Longrightarrow> 128 \<le> (b - 192) * 64"
    by (auto simp: in_range_def)
  show ?thesis
    using assms two second_ok_value [of b]
    by (auto simp: rune_error_def trans_le_add1 split: list.split)
qed

lemma decode_bytes_high_bytes:
  assumes "128 \<le> b"
  shows "\<forall>c \<in> set (take (snd (decode_bytes (b # bs))) (b # bs)). 128 \<le> c"
  using assms by (auto dest: cont_high second_ok_high split: list.splits if_splits)

lemmas decode_bytes_high = decode_bytes_high_rune decode_bytes_high_bytes

lemma decode_rune_width_pos: "s \<noteq> [] \<Longrightarrow> 0 < snd (decode_rune s)"
  by (simp add: decode_rune_def decode_bytes_width_pos)

lemma decode_rune_width_le: "snd (decode_rune s) \<le> length s"
  using decode_bytes_width_le [of "map of_char (take 4 s)"] by (simp add: decode_rune_def)

section \<open>The runes of a string\<close>

function (sequential) runes :: "string \<Rightarrow> nat list" where
  "runes [] = []"
| "runes s = fst (decode_rune s) # runes (drop (snd (decode_rune s)) s)"
  by pat_completeness auto
termination
proof (relation "measure length")
  fix c :: char and s
  show "(drop (snd (decode_rune (c # s))) (c # s), c # s) \<in> measure length"
    using decode_rune_width_pos [of "c # s"] by simp
qed simp

declare runes.simps(2) [simp del]

text \<open>\<open>utf8.RuneCountInString\<close>.\<close>

definition rune_count :: "string \<Rightarrow> nat" where
  "rune_count s = length (runes s)"

lemma decode_rune_ascii:
  assumes "(of_char c :: nat) < 128"
  shows "decode_rune (c # s) = (of_char c, 1)"
  using assms by (simp add: decode_rune_def)

lemma rune_count_ascii:
  "\<forall>c \<in> set s. (of_char c :: nat) < 128 \<Longrightarrow> rune_count s = length s"
  by (induction s) (simp_all add: rune_count_def runes.simps(2) decode_rune_ascii)

lemma decode_rune_high:
  assumes "128 \<le> (of_char c :: nat)"
  shows "128 \<le> fst (decode_rune (c # s))"
    and "\<forall>d \<in> set (take (snd (decode_rune (c # s))) (c # s)). 128 \<le> (of_char d :: nat)"
proof -
  let ?bs = "map of_char (take 3 s) :: nat list"
  have dec: "decode_rune (c # s) = decode_bytes (of_char c # ?bs)"
    by (simp add: decode_rune_def numeral_eq_Suc)
  show "128 \<le> fst (decode_rune (c # s))"
    unfolding dec using assms by (rule decode_bytes_high(1))
  have le4: "snd (decode_rune (c # s)) \<le> 4"
    using decode_bytes_width_le [of "of_char c # ?bs"] by (simp add: dec)
  have "map of_char (take (snd (decode_rune (c # s))) (c # s)) =
        take (snd (decode_bytes (of_char c # ?bs))) (of_char c # ?bs)"
    using le4 unfolding dec
    by (cases "snd (decode_bytes (of_char c # ?bs))") (auto simp: take_map min_def)
  then show "\<forall>d \<in> set (take (snd (decode_rune (c # s))) (c # s)). 128 \<le> (of_char d :: nat)"
    using decode_bytes_high(2) [OF assms, of ?bs] by (metis image_eqI list.set_map)
qed

section \<open>Selecting ASCII runes\<close>

text \<open>
  \<open>for _, r := range raw { if lo <= r <= hi { b.WriteRune(r) } }\<close> with ASCII bounds.
\<close>

definition ascii_runes :: "nat \<Rightarrow> nat \<Rightarrow> string \<Rightarrow> string" where
  "ascii_runes lo hi s = map char_of (filter (\<lambda>r. lo \<le> r \<and> r \<le> hi) (runes s))"

lemma filter_none_high:
  "(hi :: nat) < 128 \<Longrightarrow> \<forall>d \<in> set xs. 128 \<le> (of_char d :: nat) \<Longrightarrow>
   filter (\<lambda>c. lo \<le> of_char c \<and> of_char c \<le> hi) xs = []"
  by (induction xs) auto

lemma ascii_runes_bytes:
  assumes "hi < 128"
  shows "ascii_runes lo hi s = filter (\<lambda>c. lo \<le> of_char c \<and> of_char c \<le> hi) s"
proof (induction s rule: runes.induct)
  case 1
  then show ?case by (simp add: ascii_runes_def)
next
  case (2 c s)
  let ?r = "fst (decode_rune (c # s))" and ?n = "snd (decode_rune (c # s))"
  let ?p = "\<lambda>c :: char. lo \<le> of_char c \<and> of_char c \<le> hi"
  have split: "filter ?p (c # s) = filter ?p (take ?n (c # s)) @ filter ?p (drop ?n (c # s))"
    by (simp only: append_take_drop_id flip: filter_append)
  show ?case
  proof (cases "(of_char c :: nat) < 128")
    case True
    then show ?thesis using 2
      by (simp add: ascii_runes_def runes.simps decode_rune_ascii)
  next
    case False
    then have high: "128 \<le> ?r" "filter ?p (take ?n (c # s)) = []"
      using decode_rune_high [of c s] filter_none_high [OF assms] by auto
    then show ?thesis using 2 assms unfolding split
      by (simp add: ascii_runes_def runes.simps)
  qed
qed

section \<open>strings.TrimSpace\<close>

text \<open>\<open>unicode.IsSpace\<close>.\<close>

definition is_space :: "nat \<Rightarrow> bool" where
  "is_space r \<longleftrightarrow>
     (9 \<le> r \<and> r \<le> 13) \<or> r \<in> {32, 133, 160, 5760, 8232, 8233, 8239, 8287, 12288}
     \<or> (8192 \<le> r \<and> r \<le> 8202)"

function (sequential) trim_left :: "string \<Rightarrow> string" where
  "trim_left [] = []"
| "trim_left s =
     (if is_space (fst (decode_rune s)) then trim_left (drop (snd (decode_rune s)) s) else s)"
  by pat_completeness auto
termination
proof (relation "measure length")
  fix c :: char and s
  show "(drop (snd (decode_rune (c # s))) (c # s), c # s) \<in> measure length"
    using decode_rune_width_pos [of "c # s"] by simp
qed simp

text \<open>
  \<open>utf8.DecodeLastRuneInString\<close>: back up over at most three bytes to the start of a rune; if
  decoding from there does not end at the end of the string, the last byte is an invalid rune.
\<close>

definition rune_start :: "char \<Rightarrow> bool" where
  "rune_start c \<longleftrightarrow> \<not> cont (of_char c)"

definition last_start :: "string \<Rightarrow> nat" where
  "last_start s =
     (let n = length s in
      case filter (\<lambda>k. k \<le> n \<and> rune_start (s ! (n - k))) [2, 3, 4] of
        k # _ \<Rightarrow> n - k
      | [] \<Rightarrow> n - 5)"

definition decode_last_rune :: "string \<Rightarrow> nat \<times> nat" where
  "decode_last_rune s =
     (if s = [] then (rune_error, 0)
      else if (of_char (last s) :: nat) < 128 then (of_char (last s), 1)
      else let start = last_start s;
               (r, size) = decode_rune (drop start s)
           in if start + size \<noteq> length s then (rune_error, 1) else (r, size))"

lemma last_start_less: "s \<noteq> [] \<Longrightarrow> last_start s < length s"
  by (auto simp: last_start_def Let_def)

lemma decode_last_rune_width_pos: "s \<noteq> [] \<Longrightarrow> 0 < snd (decode_last_rune s)"
  using last_start_less [of s] decode_rune_width_pos [of "drop (last_start s) s"]
  by (auto simp: decode_last_rune_def Let_def split: prod.splits)

function (sequential) trim_right :: "string \<Rightarrow> string" where
  "trim_right [] = []"
| "trim_right s =
     (if is_space (fst (decode_last_rune s))
      then trim_right (take (length s - snd (decode_last_rune s)) s) else s)"
  by pat_completeness auto
termination
proof (relation "measure length")
  fix c :: char and s
  show "(take (length (c # s) - snd (decode_last_rune (c # s))) (c # s), c # s) \<in> measure length"
    using decode_last_rune_width_pos [of "c # s"] by simp
qed simp

definition trim_space :: "string \<Rightarrow> string" where
  "trim_space s = trim_right (trim_left s)"

text \<open>An ASCII byte that is not white space: \<open>TrimSpace\<close> stops at it.\<close>

definition solid :: "char \<Rightarrow> bool" where
  "solid c \<longleftrightarrow> (of_char c :: nat) < 128 \<and> \<not> is_space (of_char c)"

lemma trim_space_id:
  assumes "s \<noteq> []" and "solid (hd s)" and "solid (last s)"
  shows "trim_space s = s"
proof -
  from assms obtain c cs where s: "s = c # cs" by (cases s) auto
  have "trim_left s = s"
    using assms by (simp add: s decode_rune_ascii solid_def)
  moreover have "trim_right s = s"
    using assms by (simp add: s decode_last_rune_def solid_def)
  ultimately show ?thesis by (simp add: trim_space_def)
qed

lemma length_trim_left: "length (trim_left s) \<le> length s"
proof (induction s rule: trim_left.induct)
  case (2 c s)
  show ?case
  proof (cases "is_space (fst (decode_rune (c # s)))")
    case True
    with 2 have "length (trim_left (c # s)) \<le> length (drop (snd (decode_rune (c # s))) (c # s))"
      by (simp only: trim_left.simps if_True)
    also have "\<dots> \<le> length (c # s)" by simp
    finally show ?thesis .
  qed simp
qed simp

lemma length_trim_right: "length (trim_right s) \<le> length s"
proof (induction s rule: trim_right.induct)
  case (2 c s)
  show ?case
  proof (cases "is_space (fst (decode_last_rune (c # s)))")
    case True
    with 2 have "length (trim_right (c # s)) \<le> length (take (length (c # s) - snd (decode_last_rune (c # s))) (c # s))"
      by (simp only: trim_right.simps if_True)
    also have "\<dots> \<le> length (c # s)" by simp
    finally show ?thesis .
  qed simp
qed simp

lemma length_trim_space: "length (trim_space s) \<le> length s"
  using length_trim_left length_trim_right le_trans unfolding trim_space_def by blast

end
