(* ===== verification/Customer_Domain.thy ===== *)
theory Customer_Domain
  imports Utf8
begin

text \<open>
  Phone numbers and member codes as customers type them: \<open>NormalizePhone\<close>, \<open>MaskPhone\<close>
  (internal/domain/customer.go) and \<open>ParseMemberCode\<close> (internal/domain/loyalty.go).
\<close>

section \<open>Digits of an input\<close>

definition digits_of :: "string \<Rightarrow> string" where
  "digits_of raw = ascii_runes 48 57 raw"

lemma digits_of_filter: "digits_of raw = filter is_digit raw"
  by (simp add: digits_of_def ascii_runes_bytes is_digit_def [abs_def])

lemma set_digits_of: "\<forall>c \<in> set (digits_of raw). is_digit c"
  by (simp add: digits_of_filter)

lemma digits_of_digits: "\<forall>c \<in> set d. is_digit c \<Longrightarrow> digits_of d = d"
  by (simp add: digits_of_filter filter_id_conv)

lemma digits_of_append: "digits_of (a @ b) = digits_of a @ digits_of b"
  by (simp add: digits_of_filter)

lemma is_digit_solid: "is_digit c \<Longrightarrow> solid c"
  by (auto simp: is_digit_def solid_def is_space_def)

lemma digit_chars [simp]: "is_digit CHR ''7''" "is_digit CHR ''8''" "is_digit CHR ''9''"
  by (simp_all add: is_digit_def)

lemma solid_chars [simp]: "solid CHR ''+''" "solid CHR ''K''" "solid CHR ''8''" "solid CHR ''9''"
  by (simp_all add: solid_def is_space_def)

section \<open>NormalizePhone\<close>

definition national :: "bool \<Rightarrow> string \<Rightarrow> string" where
  "national p d =
     (if \<not> p \<and> length d = 11 \<and> d ! 0 = CHR ''8'' then ''7'' @ drop 1 d
      else if \<not> p \<and> length d = 10 \<and> d ! 0 = CHR ''9'' then ''7'' @ d
      else d)"

definition NormalizePhone :: "string \<Rightarrow> string" where
  "NormalizePhone raw =
     (let p = has_prefix ''+'' (trim_space raw);
          d = national p (digits_of raw)
      in if length d < 10 \<or> length d > 15 \<or> d ! 0 = CHR ''0'' then '''' else ''+'' @ d)"

text \<open>E.164: a plus sign, then ten to fifteen digits, the first of them not zero.\<close>

definition e164 :: "string \<Rightarrow> bool" where
  "e164 p \<longleftrightarrow>
     (\<exists>d. p = ''+'' @ d \<and> 10 \<le> length d \<and> length d \<le> 15 \<and> hd d \<noteq> CHR ''0''
          \<and> (\<forall>c \<in> set d. is_digit c))"

lemma national_digits:
  "\<forall>c \<in> set d. is_digit c \<Longrightarrow> \<forall>c \<in> set (national p d). is_digit c"
  by (auto simp: national_def is_digit_def dest: in_set_dropD)

lemma e164_trim:
  assumes "\<forall>c \<in> set d. is_digit c" and "d \<noteq> []"
  shows "trim_space (''+'' @ d) = ''+'' @ d"
  using assms by (intro trim_space_id) (simp_all add: is_digit_solid)

lemma digits_of_plus: "digits_of (''+'' @ d) = digits_of d"
  by (simp add: digits_of_filter is_digit_def)

lemma NormalizePhone_plus:
  assumes "\<forall>c \<in> set d. is_digit c" and "10 \<le> length d" and "length d \<le> 15" and "hd d \<noteq> CHR ''0''"
  shows "NormalizePhone (''+'' @ d) = ''+'' @ d"
proof -
  have ne: "d \<noteq> []" using assms(2) by auto
  have "digits_of (''+'' @ d) = d"
    using assms(1) by (simp only: digits_of_plus digits_of_digits)
  moreover have "has_prefix ''+'' (trim_space (''+'' @ d))"
    unfolding e164_trim [OF assms(1) ne] by (rule has_prefix_append)
  ultimately show ?thesis
    using assms ne unfolding NormalizePhone_def national_def Let_def by (simp add: nth_0_hd)
qed

text \<open>
  Whatever a visitor types, the phone number used as a key for codes, throttles and the loyalty
  account is either rejected (the empty string) or in E.164 form.
\<close>

theorem NormalizePhone_e164: "NormalizePhone raw = '''' \<or> e164 (NormalizePhone raw)"
proof -
  define d where "d = national (has_prefix ''+'' (trim_space raw)) (digits_of raw)"
  have dig: "\<forall>c \<in> set d. is_digit c"
    unfolding d_def by (rule national_digits [OF set_digits_of])
  have norm: "NormalizePhone raw =
      (if length d < 10 \<or> length d > 15 \<or> d ! 0 = CHR ''0'' then '''' else ''+'' @ d)"
    by (simp add: NormalizePhone_def Let_def d_def)
  show ?thesis
  proof (cases "length d < 10 \<or> length d > 15 \<or> d ! 0 = CHR ''0''")
    case False
    moreover from this have "d \<noteq> []" by auto
    ultimately have "e164 (''+'' @ d)"
      using dig unfolding e164_def by (intro exI [of _ d]) (simp add: nth_0_hd)
    with False norm show ?thesis by simp
  qed (simp add: norm)
qed

text \<open>
  Normalising is idempotent: a stored number normalises to itself, so a customer who signs in
  with the number the site displays reaches the same code and the same account.
\<close>

theorem NormalizePhone_idem: "NormalizePhone (NormalizePhone raw) = NormalizePhone raw"
proof (cases "NormalizePhone raw = ''''")
  case True
  moreover have "NormalizePhone '''' = ''''"
    by (simp add: NormalizePhone_def national_def digits_of_filter)
  ultimately show ?thesis by simp
next
  case False
  then have "e164 (NormalizePhone raw)"
    using NormalizePhone_e164 [of raw] by blast
  then show ?thesis
    unfolding e164_def by (auto simp del: append_Cons intro!: NormalizePhone_plus)
qed

text \<open>
  The three ways Russians write one mobile number (ten digits from 9, eleven from 8, and the
  international form from +7) normalise to the same key.
\<close>

theorem NormalizePhone_russian:
  assumes "\<forall>c \<in> set d. is_digit c" and "length d = 9"
  shows "NormalizePhone (''9'' @ d) = ''+79'' @ d \<and> NormalizePhone (''89'' @ d) = ''+79'' @ d
    \<and> NormalizePhone (''+79'' @ d) = ''+79'' @ d"
proof -
  have noplus: "\<not> has_prefix ''+'' (trim_space (''9'' @ d))" "\<not> has_prefix ''+'' (trim_space (''89'' @ d))"
  proof -
    have "trim_space (''9'' @ d) = ''9'' @ d" "trim_space (''89'' @ d) = ''89'' @ d"
      using assms by (auto intro!: trim_space_id is_digit_solid)
    then show "\<not> has_prefix ''+'' (trim_space (''9'' @ d))" "\<not> has_prefix ''+'' (trim_space (''89'' @ d))"
      by (simp_all add: has_prefix_def)
  qed
  have dig: "digits_of (''9'' @ d) = ''9'' @ d" "digits_of (''89'' @ d) = ''89'' @ d"
    using assms(1) by (auto intro!: digits_of_digits simp: is_digit_def)
  have "NormalizePhone (''+'' @ (''79'' @ d)) = ''+'' @ (''79'' @ d)"
    using assms by (intro NormalizePhone_plus) (auto simp: is_digit_def)
  then show ?thesis
    using noplus dig assms(2) by (simp add: NormalizePhone_def national_def Let_def)
qed

theorem NormalizePhone_russian_witness:
  "NormalizePhone ''89991234567'' = ''+79991234567''"
  using NormalizePhone_russian [of "''991234567''"] by (simp add: is_digit_def)

section \<open>MaskPhone\<close>

definition MaskPhone :: "string \<Rightarrow> string" where
  "MaskPhone p =
     (if length p < 8 then ''***'' else take 5 p @ ''***'' @ drop (length p - 4) p)"

text \<open>
  The masked form written to the logs does not depend on the middle of the number: two numbers
  of at least nine characters that agree on the first five and the last four have the same mask.
\<close>

theorem MaskPhone_hides:
  assumes "length a = 5" and "length b = 4"
  shows "MaskPhone (a @ m @ b) = a @ ''***'' @ b"
  using assms by (simp add: MaskPhone_def)

theorem MaskPhone_hides_witness: "MaskPhone ''+79991234567'' = ''+7999***4567''"
  using MaskPhone_hides [of "''+7999''" "''4567''" "''123''"] by simp

section \<open>ParseMemberCode\<close>

definition QRPrefix :: string where
  "QRPrefix = ''KFC-LOYALTY:''"

definition ParseMemberCode :: "string \<Rightarrow> string" where
  "ParseMemberCode raw = digits_of (trim_prefix QRPrefix (trim_space raw))"

text \<open>
  What the kiosk sends on for a scanned QR payload is the code the website issued: parsing
  \<open>QRPrefix + code\<close> gives back \<open>code\<close>, and parsing the typed digits gives the same.
\<close>

theorem ParseMemberCode_roundtrip:
  assumes "\<forall>c \<in> set code. is_digit c" and "code \<noteq> []"
  shows "ParseMemberCode (QRPrefix @ code) = code \<and> ParseMemberCode code = code"
proof -
  have l: "is_digit (last code)" and h: "is_digit (hd code)" using assms by auto
  have t1: "trim_space (QRPrefix @ code) = QRPrefix @ code"
    using l assms(2) by (intro trim_space_id) (simp_all add: is_digit_solid QRPrefix_def)
  have t2: "trim_space code = code"
    using l h assms(2) by (intro trim_space_id) (simp_all add: is_digit_solid)
  have "hd code \<noteq> CHR ''K''"
    using h by (auto simp: is_digit_def)
  then have "trim_prefix QRPrefix code = code"
    using assms(2) by (cases code) (auto simp: trim_prefix_def has_prefix_def QRPrefix_def)
  then show ?thesis
    using assms by (simp add: ParseMemberCode_def t1 t2 digits_of_digits)
qed

theorem ParseMemberCode_roundtrip_witness: "ParseMemberCode ''KFC-LOYALTY:12345678'' = ''12345678''"
  using ParseMemberCode_roundtrip [of "''12345678''"] by (simp add: is_digit_def QRPrefix_def)

end
