(* ===== verification/Order_View.thy ===== *)
theory Order_View
  imports Upstream
begin

text \<open>
  What screens and customers see: the order views of internal/domain/order.go and the loyalty
  views of internal/domain/loyalty.go, with the conversions from the gRPC messages.  The lemmas
  show what each audience can and cannot learn from its view.
\<close>

section \<open>Times\<close>

text \<open>\<open>time.UnixMilli(ms).UTC()\<close> as nanoseconds since the epoch.\<close>

definition unix_milli :: "i64 \<Rightarrow> int" where
  "unix_milli ms = sint ms * 1000000"

definition optionalMillis :: "i64 \<Rightarrow> int option" where
  "optionalMillis ms = (if ms = 0 then None else Some (unix_milli ms))"

section \<open>Orders (domain/order.go)\<close>

definition OrderStatusAccepted :: string where "OrderStatusAccepted = ''accepted''"
definition OrderStatusPreparing :: string where "OrderStatusPreparing = ''preparing''"
definition OrderStatusReady :: string where "OrderStatusReady = ''ready''"
definition OrderStatusCompleted :: string where "OrderStatusCompleted = ''completed''"
definition OrderStatusCancelled :: string where "OrderStatusCancelled = ''cancelled''"

lemmas order_status_defs [go_simps] =
  OrderStatusAccepted_def OrderStatusPreparing_def OrderStatusReady_def
  OrderStatusCompleted_def OrderStatusCancelled_def

record LineView =
  lv_ID :: string
  lv_ItemID :: string
  lv_ProductCode :: string
  lv_Name :: string
  lv_VariationID :: string
  lv_VariationName :: string
  lv_Quantity :: i64
  lv_UnitPrice :: float64
  lv_LineTotal :: float64

record OrderView =
  ov_ID :: string
  ov_RestaurantID :: string
  ov_Number :: i64
  ov_BusinessDate :: string
  ov_Channel :: string
  ov_OrderType :: string
  ov_Status :: string
  ov_PaymentMethod :: string
  ov_PaymentStatus :: string
  ov_CustomerName :: string
  ov_CustomerPhone :: string
  ov_Note :: string
  ov_DeviceID :: string
  ov_Subtotal :: float64
  ov_Total :: float64
  ov_Currency :: string
  ov_CancelReason :: string
  ov_Lines :: "LineView list"
  ov_CreatedAt :: int
  ov_UpdatedAt :: int
  ov_PreparingAt :: "int option"
  ov_ReadyAt :: "int option"
  ov_CompletedAt :: "int option"
  ov_CancelledAt :: "int option"
  ov_MemberID :: string
  ov_Discount :: float64
  ov_PointsRedeemed :: i64
  ov_LoyaltyHoldID :: string

record DisplayOrder =
  do_ID :: string
  do_Number :: i64
  do_Status :: string
  do_Channel :: string
  do_CreatedAt :: int
  do_UpdatedAt :: int
  do_ReadyAt :: "int option"

definition ToDisplay :: "OrderView \<Rightarrow> DisplayOrder" where
  "ToDisplay v =
     \<lparr>do_ID = ov_ID v, do_Number = ov_Number v, do_Status = ov_Status v,
      do_Channel = ov_Channel v, do_CreatedAt = ov_CreatedAt v, do_UpdatedAt = ov_UpdatedAt v,
      do_ReadyAt = ov_ReadyAt v\<rparr>"

definition ToPublic :: "OrderView \<Rightarrow> OrderView" where
  "ToPublic v =
     v\<lparr>ov_CustomerPhone := '''', ov_DeviceID := '''', ov_MemberID := '''', ov_LoyaltyHoldID := ''''\<rparr>"

record OrderEvent =
  ev_Type :: string
  ev_RestaurantID :: string
  ev_Order :: "OrderView option"
  ev_OccurredAt :: int

definition line_view :: "order_line \<Rightarrow> LineView" where
  "line_view l =
     \<lparr>lv_ID = ol_Id l, lv_ItemID = ol_ItemId l, lv_ProductCode = ol_ProductCode l,
      lv_Name = ol_Name l, lv_VariationID = ol_VariationId l,
      lv_VariationName = ol_VariationName l, lv_Quantity = int64_of (ol_Quantity l),
      lv_UnitPrice = Rubles (ol_UnitPrice l), lv_LineTotal = Rubles (ol_LineTotal l)\<rparr>"

definition OrderViewFromProto :: "order \<Rightarrow> OrderView" where
  "OrderViewFromProto x =
     \<lparr>ov_ID = o_Id x, ov_RestaurantID = o_RestaurantId x, ov_Number = int64_of (o_Number x),
      ov_BusinessDate = o_BusinessDate x, ov_Channel = o_Channel x, ov_OrderType = o_OrderType x,
      ov_Status = o_Status x, ov_PaymentMethod = o_PaymentMethod x,
      ov_PaymentStatus = o_PaymentStatus x, ov_CustomerName = o_CustomerName x,
      ov_CustomerPhone = o_CustomerPhone x, ov_Note = o_Note x, ov_DeviceID = o_DeviceId x,
      ov_Subtotal = Rubles (o_Subtotal x), ov_Total = Rubles (o_Total x),
      ov_Currency = o_Currency x, ov_CancelReason = o_CancelReason x,
      ov_Lines = map line_view (o_Lines x), ov_CreatedAt = unix_milli (o_CreatedAt x),
      ov_UpdatedAt = unix_milli (o_UpdatedAt x), ov_PreparingAt = optionalMillis (o_PreparingAt x),
      ov_ReadyAt = optionalMillis (o_ReadyAt x), ov_CompletedAt = optionalMillis (o_CompletedAt x),
      ov_CancelledAt = optionalMillis (o_CancelledAt x), ov_MemberID = o_MemberId x,
      ov_Discount = Rubles (o_Discount x), ov_PointsRedeemed = int64_of (o_PointsRedeemed x),
      ov_LoyaltyHoldID = o_LoyaltyHoldId x\<rparr>"

section \<open>Loyalty (domain/loyalty.go)\<close>

record Member =
  m_ID :: string
  m_Phone :: string
  m_FirstName :: string
  m_Email :: string
  m_PointsBalance :: i64
  m_PointsAvailable :: i64
  m_LifetimePoints :: i64
  m_CreatedAt :: "int option"  \<comment> \<open>\<open>None\<close> is the zero time\<close>

definition ForKiosk :: "Member \<Rightarrow> Member" where
  "ForKiosk m =
     \<lparr>m_ID = m_ID m, m_Phone = '''', m_FirstName = m_FirstName m, m_Email = '''',
      m_PointsBalance = m_PointsBalance m, m_PointsAvailable = m_PointsAvailable m,
      m_LifetimePoints = 0, m_CreatedAt = None\<rparr>"

text \<open>The getters of a nil message return zero values, so a missing member converts to an empty one.\<close>

definition MemberFromProto :: "loyalty_member option \<Rightarrow> Member" where
  "MemberFromProto mo =
     (let m = (case mo of None \<Rightarrow> empty_loyalty_member | Some m \<Rightarrow> m) in
      \<lparr>m_ID = lm_Id m, m_Phone = lm_Phone m, m_FirstName = lm_FirstName m, m_Email = lm_Email m,
       m_PointsBalance = int64_of (lm_PointsBalance m),
       m_PointsAvailable = int64_of (lm_PointsAvailable m),
       m_LifetimePoints = int64_of (lm_LifetimePoints m),
       m_CreatedAt = Some (unix_milli (lm_CreatedAt m))\<rparr>)"

record Program =
  pg_EarnPercent :: i64
  pg_MaxRedeemPercent :: i64
  pg_WelcomeBonus :: i64
  pg_PointValue :: float64

definition ProgramFromProto :: "loyalty_program \<Rightarrow> Program" where
  "ProgramFromProto p =
     \<lparr>pg_EarnPercent = int64_of (lp_EarnPercent p),
      pg_MaxRedeemPercent = int64_of (lp_MaxRedeemPercent p),
      pg_WelcomeBonus = int64_of (lp_WelcomeBonus p),
      pg_PointValue = Rubles (lp_PointValueKopecks p)\<rparr>"

record PointsTransaction =
  pt_ID :: string
  pt_Type :: string
  pt_Points :: i64
  pt_BalanceAfter :: i64
  pt_OrderID :: string
  pt_OrderNumber :: i64
  pt_Description :: string
  pt_CreatedAt :: int

record PointsHistory =
  ph_Transactions :: "PointsTransaction list"
  ph_Total :: i64

definition points_transaction :: "loyalty_transaction \<Rightarrow> PointsTransaction" where
  "points_transaction t =
     \<lparr>pt_ID = lt_Id t, pt_Type = lt_Type t, pt_Points = int64_of (lt_Points t),
      pt_BalanceAfter = int64_of (lt_BalanceAfter t), pt_OrderID = lt_OrderId t,
      pt_OrderNumber = int64_of (lt_OrderNumber t), pt_Description = lt_Description t,
      pt_CreatedAt = unix_milli (lt_CreatedAt t)\<rparr>"

definition PointsHistoryFromProto :: "list_transactions_response \<Rightarrow> PointsHistory" where
  "PointsHistoryFromProto r =
     \<lparr>ph_Transactions = map points_transaction (ltr_Transactions r),
      ph_Total = int64_of (ltr_Total r)\<rparr>"

record MemberCode =
  mk_Code :: string
  mk_QRPayload :: string
  mk_ExpiresAt :: int

section \<open>Properties\<close>

text \<open>
  The customer's tracking page learns nothing private: two orders that differ only in phone
  number, device, member and loyalty hold have the same public view, those four fields of it are
  empty, and every other field is the order's.
\<close>

theorem ToPublic_hides:
  "ToPublic (v\<lparr>ov_CustomerPhone := p, ov_DeviceID := d, ov_MemberID := m, ov_LoyaltyHoldID := h\<rparr>)
     = ToPublic v
   \<and> ov_CustomerPhone (ToPublic v) = '''' \<and> ov_DeviceID (ToPublic v) = ''''
   \<and> ov_MemberID (ToPublic v) = '''' \<and> ov_LoyaltyHoldID (ToPublic v) = ''''
   \<and> (ToPublic v)\<lparr>ov_CustomerPhone := ov_CustomerPhone v, ov_DeviceID := ov_DeviceID v,
        ov_MemberID := ov_MemberID v, ov_LoyaltyHoldID := ov_LoyaltyHoldID v\<rparr> = v"
  by (simp add: ToPublic_def)

text \<open>
  The hall display shows numbers only: whatever the customer's name, phone, note, lines,
  amounts, member and payment data of an order are, its display entry is the same.
\<close>

theorem ToDisplay_hides:
  "ToDisplay (v\<lparr>ov_CustomerName := n, ov_CustomerPhone := p, ov_Note := t, ov_Lines := ls,
       ov_Subtotal := a, ov_Total := b, ov_Discount := c, ov_PointsRedeemed := r,
       ov_MemberID := m, ov_PaymentMethod := pm, ov_PaymentStatus := ps, ov_DeviceID := d\<rparr>)
   = ToDisplay v"
  by (simp add: ToDisplay_def)

text \<open>
  The amounts a screen shows are the amounts of the order: as long as they are below \<open>2\<^sup>5\<^sup>0\<close>
  kopecks, the total, the discount and the price of every line can be read back from the view
  exactly, and every line keeps its quantity.
\<close>

theorem OrderView_amounts:
  assumes "\<bar>sint (o_Total x)\<bar> \<le> 2 ^ 50" and "\<bar>sint (o_Discount x)\<bar> \<le> 2 ^ 50"
    and "\<forall>l \<in> set (o_Lines x). \<bar>sint (ol_UnitPrice l)\<bar> \<le> 2 ^ 50"
  shows "kopecks (ov_Total (OrderViewFromProto x)) = o_Total x
    \<and> kopecks (ov_Discount (OrderViewFromProto x)) = o_Discount x
    \<and> map (\<lambda>l. (kopecks (lv_UnitPrice l), sint (lv_Quantity l))) (ov_Lines (OrderViewFromProto x))
      = map (\<lambda>l. (ol_UnitPrice l, sint (ol_Quantity l))) (o_Lines x)"
  using assms by (simp add: OrderViewFromProto_def line_view_def kopecks_exact)

end
