(* ===== verification/Cart.thy ===== *)
theory Cart
  imports Order_View
begin

text \<open>
  Pricing a cart (internal/service/order_service.go: \<open>priceCart\<close>, \<open>pickVariation\<close>): clients send
  what, the menu says how much.  The lemmas give, for every line, what makes it acceptable and what
  it is charged, independently of the order in which the code looks.
\<close>

section \<open>Requests\<close>

record CartItem =
  ci_ItemID :: string
  ci_VariationID :: string
  ci_Quantity :: i64

record PlaceOrderRequest =
  po_OrderType :: string
  po_CustomerName :: string
  po_CustomerPhone :: string
  po_Note :: string
  po_IdempotencyKey :: string
  po_Items :: "CartItem list"
  po_RedeemPoints :: i64
  po_LoyaltySession :: string

section \<open>The code\<close>

definition menu_items :: "menu \<Rightarrow> item list" where
  "menu_items m = concat (map cat_Items (menu_Categories m))"

text \<open>The map \<open>byID\<close>: the loops insert every item under its id, so a later one replaces an earlier.\<close>

definition byID :: "menu \<Rightarrow> string \<rightharpoonup> item" where
  "byID m = foldl (\<lambda>idx it. idx(it_Id it \<mapsto> it)) Map.empty (menu_items m)"

definition pickVariation :: "item \<Rightarrow> string \<Rightarrow> go_error + variation option" where
  "pickVariation it variationID =
     (let vars = it_Variations it in
      if vars = [] then
        (if variationID \<noteq> '''' then Inl (NewValidationError (''invalid option for '' @ it_Name it))
         else Inr None)
      else if variationID = '''' then
        (case List.find v_IsDefault vars of Some v \<Rightarrow> Inr (Some v) | None \<Rightarrow> Inr (Some (hd vars)))
      else
        (case List.find (\<lambda>v. v_Id v = variationID) vars of
           Some v \<Rightarrow> Inr (Some v)
         | None \<Rightarrow> Inl (NewValidationError (''invalid option for '' @ it_Name it))))"

text \<open>One turn of the loop over the cart.\<close>

definition price_line :: "(string \<rightharpoonup> item) \<Rightarrow> CartItem \<Rightarrow> go_error + create_order_line" where
  "price_line idx ci =
     (case idx (ci_ItemID ci) of
        None \<Rightarrow> Inl (NewValidationError ''an item in your order is no longer on the menu'')
      | Some it \<Rightarrow>
          if \<not> it_IsAvailable it then
            Inl (NewValidationError (it_Name it @ '' is not available right now''))
          else if sint (ci_Quantity ci) < 1 \<or> 50 < sint (ci_Quantity ci) then
            Inl (NewValidationError ''quantity must be between 1 and 50'')
          else
            let line = \<lparr>cl_ItemId = it_Id it, cl_ProductCode = it_ProductCode it,
                        cl_Name = it_Name it, cl_VariationId = '''', cl_VariationName = '''',
                        cl_Quantity = int32_of (ci_Quantity ci),
                        cl_UnitPrice = kopecks (it_FinalPrice it)\<rparr>
            in case pickVariation it (ci_VariationID ci) of
                 Inl e \<Rightarrow> Inl e
               | Inr None \<Rightarrow> Inr line
               | Inr (Some v) \<Rightarrow>
                   Inr (line\<lparr>cl_VariationId := v_Id v, cl_VariationName := v_Name v,
                             cl_UnitPrice := kopecks (v_FinalPrice v)\<rparr>))"

fun price_lines :: "(string \<rightharpoonup> item) \<Rightarrow> CartItem list \<Rightarrow> go_error + create_order_line list" where
  "price_lines idx [] = Inr []"
| "price_lines idx (ci # items) =
     (case price_line idx ci of
        Inl e \<Rightarrow> Inl e
      | Inr l \<Rightarrow> (case price_lines idx items of Inl e \<Rightarrow> Inl e | Inr ls \<Rightarrow> Inr (l # ls)))"

definition priceCart :: "menu \<Rightarrow> CartItem list \<Rightarrow> go_error + create_order_line list" where
  "priceCart m items = price_lines (byID m) items"

section \<open>What the menu offers\<close>

lemma foldl_upd_map_of:
  "foldl (\<lambda>idx it. idx(f it \<mapsto> it)) m xs = m ++ map_of (rev (map (\<lambda>it. (f it, it)) xs))"
  by (induction xs arbitrary: m) auto

lemma byID_Some:
  assumes "byID m i = Some it"
  shows "it \<in> set (menu_items m)" and "it_Id it = i"
  using assms by (auto simp: byID_def foldl_upd_map_of dest!: map_of_SomeD)

lemma byID_last:
  assumes "menu_items m = xs @ it # ys" and "\<forall>y \<in> set ys. it_Id y \<noteq> it_Id it"
  shows "byID m (it_Id it) = Some it"
proof -
  have "map_of (rev (map (\<lambda>it. (it_Id it, it)) ys)) (it_Id it) = None"
    using assms(2) by (auto simp: map_of_eq_None_iff)
  then show ?thesis
    by (simp add: byID_def foldl_upd_map_of assms(1) map_add_Some_iff)
qed

text \<open>
  The choice an option id makes at an item: the option with that id; without one, the default
  option, or the first; for an item without options, the item itself.
\<close>

definition chosen :: "item \<Rightarrow> string \<Rightarrow> variation option \<Rightarrow> bool" where
  "chosen it vid c \<longleftrightarrow>
     (case c of
        None \<Rightarrow> it_Variations it = [] \<and> vid = ''''
      | Some v \<Rightarrow> v \<in> set (it_Variations it)
          \<and> (if vid \<noteq> '''' then v_Id v = vid
             else v_IsDefault v
                  \<or> (v = hd (it_Variations it) \<and> (\<forall>w \<in> set (it_Variations it). \<not> v_IsDefault w))))"

definition listed_price :: "item \<Rightarrow> variation option \<Rightarrow> i64" where
  "listed_price it c = kopecks (case c of None \<Rightarrow> it_FinalPrice it | Some v \<Rightarrow> v_FinalPrice v)"

definition acceptable :: "menu \<Rightarrow> CartItem \<Rightarrow> bool" where
  "acceptable m ci \<longleftrightarrow>
     (\<exists>it. byID m (ci_ItemID ci) = Some it \<and> it_IsAvailable it
         \<and> 1 \<le> sint (ci_Quantity ci) \<and> sint (ci_Quantity ci) \<le> 50
         \<and> (\<exists>c. chosen it (ci_VariationID ci) c))"

lemma pickVariation_Inr: "pickVariation it vid = Inr c \<Longrightarrow> chosen it vid c"
  by (rule find_cases [of v_IsDefault "it_Variations it"];
      rule find_cases [of "\<lambda>v. v_Id v = vid" "it_Variations it"]; cases c)
     (auto simp: pickVariation_def chosen_def Let_def split: if_splits)

lemma pickVariation_Inl:
  "pickVariation it vid = Inl e \<Longrightarrow> IsValidationError e \<and> \<not> chosen it vid c"
  by (rule find_cases [of v_IsDefault "it_Variations it"];
      rule find_cases [of "\<lambda>v. v_Id v = vid" "it_Variations it"]; cases c)
     (auto simp: pickVariation_def chosen_def Let_def go_simps IsErrorType_def split: if_splits)

lemma price_line_Inr:
  assumes "price_line (byID m) ci = Inr l"
  shows "\<exists>it c. byID m (ci_ItemID ci) = Some it \<and> it_IsAvailable it
    \<and> 1 \<le> sint (ci_Quantity ci) \<and> sint (ci_Quantity ci) \<le> 50 \<and> chosen it (ci_VariationID ci) c
    \<and> cl_ItemId l = ci_ItemID ci \<and> sint (cl_Quantity l) = sint (ci_Quantity ci)
    \<and> cl_UnitPrice l = listed_price it c"
proof -
  obtain it where it: "byID m (ci_ItemID ci) = Some it" "it_IsAvailable it"
    and q: "1 \<le> sint (ci_Quantity ci)" "sint (ci_Quantity ci) \<le> 50"
    using assms by (auto simp: price_line_def split: option.splits if_splits)
  then obtain c where c: "pickVariation it (ci_VariationID ci) = Inr c"
    using assms by (cases "pickVariation it (ci_VariationID ci)") (auto simp: price_line_def)
  have "sint (int32_of (ci_Quantity ci)) = sint (ci_Quantity ci)"
    using q by (intro sint_int32_of) auto
  then have "cl_ItemId l = ci_ItemID ci \<and> sint (cl_Quantity l) = sint (ci_Quantity ci)
    \<and> cl_UnitPrice l = listed_price it c"
    using assms it q c byID_Some(2) [OF it(1)]
    by (auto simp: price_line_def Let_def listed_price_def split: option.splits)
  with it q pickVariation_Inr [OF c] show ?thesis by blast
qed

lemma price_line_Inl:
  assumes "price_line (byID m) ci = Inl e"
  shows "IsValidationError e \<and> \<not> acceptable m ci"
proof (cases "byID m (ci_ItemID ci)")
  case None
  then show ?thesis
    using assms by (auto simp: price_line_def acceptable_def go_simps IsErrorType_def)
next
  case (Some it)
  then show ?thesis
    using assms pickVariation_Inl [of it "ci_VariationID ci" e]
    by (auto simp: price_line_def acceptable_def go_simps IsErrorType_def Let_def
             split: if_splits sum.splits option.splits)
qed

lemma price_lines_Inr_iff:
  "price_lines idx items = Inr lines \<longleftrightarrow> list_all2 (\<lambda>ci l. price_line idx ci = Inr l) items lines"
proof (induction items arbitrary: lines)
  case (Cons ci items)
  show ?case
    by (cases "price_line idx ci"; cases "price_lines idx items")
       (auto simp: list_all2_Cons1 Cons.IH [symmetric])
qed auto

lemma price_lines_Inl:
  "price_lines idx items = Inl e \<Longrightarrow>
   \<exists>good bad rest ls. items = good @ bad # rest \<and> price_lines idx good = Inr ls
     \<and> price_line idx bad = Inl e"
proof (induction items)
  case (Cons ci items)
  show ?case
  proof (cases "price_line idx ci")
    case (Inl e')
    with Cons.prems show ?thesis by (intro exI [of _ "[]"]) auto
  next
    case (Inr l)
    with Cons.prems have "price_lines idx items = Inl e" by (auto split: sum.splits)
    with Cons.IH obtain good bad rest ls where
      "items = good @ bad # rest" "price_lines idx good = Inr ls" "price_line idx bad = Inl e" by blast
    with Inr show ?thesis by (intro exI [of _ "ci # good"]) auto
  qed
qed simp

lemma price_lines_split:
  "price_lines idx (good @ bad # rest) = Inl e"
  if "price_lines idx good = Inr ls" and "price_line idx bad = Inl e"
  using that by (induction good arbitrary: ls) (auto split: sum.splits)

lemma priceCart_Inr:
  assumes "priceCart m items = Inr lines" and "i < length items"
  shows "length lines = length items" and "price_line (byID m) (items ! i) = Inr (lines ! i)"
  using assms by (auto simp: priceCart_def price_lines_Inr_iff list_all2_conv_all_nth)

section \<open>Properties\<close>

text \<open>
  C4. Prices come from the menu, never from the client: in a priced cart every line is for an item
  of the restaurant's menu that is available, in the quantity asked for (1 to 50, unchanged by the
  conversion to 32 bits), at the listed price of the item, or of the option chosen, the default
  option being charged when none was named.
\<close>

theorem priceCart_menu_prices:
  assumes "priceCart m items = Inr lines" and "i < length items"
  shows "length lines = length items
    \<and> (\<exists>it \<in> set (menu_items m). \<exists>c.
         it_Id it = ci_ItemID (items ! i) \<and> it_IsAvailable it
         \<and> chosen it (ci_VariationID (items ! i)) c
         \<and> cl_ItemId (lines ! i) = ci_ItemID (items ! i)
         \<and> sint (cl_Quantity (lines ! i)) = sint (ci_Quantity (items ! i))
         \<and> 1 \<le> sint (ci_Quantity (items ! i)) \<and> sint (ci_Quantity (items ! i)) \<le> 50
         \<and> cl_UnitPrice (lines ! i) = listed_price it c)"
  using priceCart_Inr [OF assms] price_line_Inr [of m "items ! i" "lines ! i"] byID_Some [of m]
  by metis

text \<open>
  C10. A cart is priced exactly when every line is acceptable, and otherwise the answer is a
  validation error (400), the one of the first unacceptable line; a bad cart never becomes an
  internal error.
\<close>

theorem priceCart_rejects:
  "case priceCart m items of
     Inr lines \<Rightarrow> (\<forall>ci \<in> set items. acceptable m ci)
   | Inl e \<Rightarrow> IsValidationError e
       \<and> (\<exists>good bad rest ls. items = good @ bad # rest \<and> priceCart m good = Inr ls
            \<and> \<not> acceptable m bad \<and> priceCart m [bad] = Inl e)"
proof (cases "priceCart m items")
  case (Inl e)
  then obtain good bad rest ls where "items = good @ bad # rest" "priceCart m good = Inr ls"
    "price_line (byID m) bad = Inl e"
    using price_lines_Inl [of "byID m" items e] by (auto simp: priceCart_def)
  moreover from this have "IsValidationError e" "\<not> acceptable m bad" "priceCart m [bad] = Inl e"
    using price_line_Inl by (auto simp: priceCart_def)
  ultimately show ?thesis using Inl by auto
next
  case (Inr lines)
  have "acceptable m ci" if "ci \<in> set items" for ci
  proof -
    from that obtain i where i: "i < length items" "ci = items ! i" by (auto simp: in_set_conv_nth)
    from price_line_Inr [OF priceCart_Inr(2) [OF Inr i(1)]] show ?thesis
      by (auto simp: acceptable_def i(2))
  qed
  with Inr show ?thesis by simp
qed

text \<open>The menu and the carts of service/price_cart_test.go.\<close>

definition test_item :: "string \<Rightarrow> string \<Rightarrow> rat \<Rightarrow> bool \<Rightarrow> variation list \<Rightarrow> item" where
  "test_item i n p a vs =
     \<lparr>it_Id = i, it_ProductCode = '''', it_Name = n, it_Description = '''', it_ImageUrl = '''',
      it_BasePrice = Fin 0, it_FinalPrice = Fin p, it_Currency = '''', it_IsAvailable = a,
      it_SortOrder = 0, it_Promotion = None, it_Variations = vs\<rparr>"

definition test_variation :: "string \<Rightarrow> string \<Rightarrow> rat \<Rightarrow> bool \<Rightarrow> variation" where
  "test_variation i n p d =
     \<lparr>v_Id = i, v_Name = n, v_PriceDelta = Fin 0, v_FinalPrice = Fin p, v_IsDefault = d,
      v_SortOrder = 0\<rparr>"

definition test_menu :: menu where
  "test_menu =
     \<lparr>menu_RestaurantId = ''r1'', menu_GeneratedAt = 0, menu_Currency = ''RUB'',
      menu_Categories =
        [\<lparr>cat_Id = '''', cat_Name = '''', cat_Code = '''', cat_ImageUrl = '''', cat_SortOrder = 0,
          cat_Items =
            [test_item ''zinger'' ''Zinger'' 299 True [],
             test_item ''sold-out'' ''Wings'' 259 False [],
             test_item ''cola'' ''Cola'' 109 True
               [test_variation ''s'' ''0.3'' 109 False, test_variation ''m'' ''0.4'' 139 True]]\<rparr>],
      menu_SchemaVersion = 0, menu_ValidUntil = 0\<rparr>"

lemma byID_test_menu:
  "byID test_menu ''zinger'' = Some (test_item ''zinger'' ''Zinger'' 299 True [])"
  "byID test_menu ''cola'' = Some (test_item ''cola'' ''Cola'' 109 True
     [test_variation ''s'' ''0.3'' 109 False, test_variation ''m'' ''0.4'' 139 True])"
  "byID test_menu ''nope'' = None"
  by (simp_all add: byID_def menu_items_def test_menu_def test_item_def)

definition test_cart :: "CartItem list" where
  "test_cart =
     [\<lparr>ci_ItemID = ''zinger'', ci_VariationID = '''', ci_Quantity = 2\<rparr>,
      \<lparr>ci_ItemID = ''cola'', ci_VariationID = '''', ci_Quantity = 1\<rparr>]"

lemma priceCart_test:
  "\<exists>lines. priceCart test_menu test_cart = Inr lines \<and> map cl_UnitPrice lines = [29900, 13900]
     \<and> map cl_VariationId lines = ['''', ''m'']"
  by (simp add: priceCart_def test_cart_def price_line_def byID_test_menu Let_def
        pickVariation_def test_item_def test_variation_def)

theorem priceCart_menu_prices_witness:
  "\<exists>lines it c. priceCart test_menu test_cart = Inr lines
     \<and> it_Id it = ''cola'' \<and> cl_UnitPrice (lines ! 1) = listed_price it c"
proof -
  obtain lines where l: "priceCart test_menu test_cart = Inr lines"
    using priceCart_test by blast
  have "1 < length test_cart" by (simp add: test_cart_def)
  from priceCart_menu_prices [OF l this] l show ?thesis
    by (auto simp: test_cart_def)
qed

theorem priceCart_rejects_witness:
  "\<exists>e. priceCart test_menu [\<lparr>ci_ItemID = ''nope'', ci_VariationID = '''', ci_Quantity = 1\<rparr>] = Inl e
     \<and> IsValidationError e"
  using priceCart_rejects [where m = test_menu and items = "[\<lparr>ci_ItemID = ''nope'', ci_VariationID = '''', ci_Quantity = 1\<rparr>]"]
  by (simp add: priceCart_def price_line_def byID_test_menu)

end
