(* ===== verification/Order_Service.thy ===== *)
theory Order_Service
  imports Cart Claims Utf8
begin

text \<open>
  Placing orders and working the kitchen queue (internal/service/order_service.go).  The service
  struct is a record: the clients it calls, the menu service it asks (the interface
  \<open>MenuService\<close>), the token manager, and the two functions of google/uuid it uses.

  The theories \<open>Checkout\<close> (the protocol of the points hold) and \<open>Ordering\<close> (what each channel submits)
  hold the lemmas.
\<close>

section \<open>The service\<close>

record 's order_service =
  os_orders :: "'s orders_api"
  os_crm :: "'s crm_api"
  os_GetMenu :: "string \<Rightarrow> ('s, menu) op"
  os_loyalty :: "'s loyalty_api"
  os_VerifyKioskSession :: "string \<Rightarrow> ('s, KioskLoyaltyClaims) op"
  os_uuid_String :: "uuid \<Rightarrow> string"
  os_uuid_NewString :: "'s \<Rightarrow> string \<times> 's"

definition ErrMenuNotFound :: string where
  "ErrMenuNotFound = ''menu not found''"

definition kitchenStatuses :: "string list" where
  "kitchenStatuses =
     [OrderStatusAccepted, OrderStatusPreparing, OrderStatusReady, OrderStatusCompleted]"

fun isAmbiguous :: "rpc_error \<Rightarrow> bool" where
  "isAmbiguous e =
     (case status_code e of
        DeadlineExceeded \<Rightarrow> True | Unavailable \<Rightarrow> True | Canceled \<Rightarrow> True | Unknown \<Rightarrow> True
      | _ \<Rightarrow> False)"

declare isAmbiguous.simps [simp del]

section \<open>Points and checkout\<close>

definition subtotal :: "create_order_line list \<Rightarrow> i64" where
  "subtotal lines = foldl (\<lambda>acc l. acc + cl_UnitPrice l * int64_of (cl_Quantity l)) 0 lines"

text \<open>
  \<open>reservePoints\<close> writes to the order request it is given; the model returns the request with the
  hold.
\<close>

definition reservePoints ::
  "'s order_service \<Rightarrow> create_order_request \<Rightarrow> PlaceOrderRequest \<Rightarrow> uuid option
     \<Rightarrow> ('s, loyalty_hold \<times> create_order_request) op" where
  "reservePoints S base req memberID s =
     (case memberID of
        None \<Rightarrow> (Inl (NewValidationError ''sign in or scan your loyalty code to use points''), s)
      | Some mid \<Rightarrow>
          if sint (po_RedeemPoints req) < 0 then
            (Inl (NewValidationError ''points must be positive''), s)
          else
            let (key, s1) = (if co_IdempotencyKey base = '''' then os_uuid_NewString S s
                             else (co_IdempotencyKey base, s));
                base1 = base\<lparr>co_IdempotencyKey := key\<rparr>
            in case GetProgram (os_loyalty S) s1 of
                 (Inl e, s2) \<Rightarrow> (Inl (mapOrderError e), s2)
               | (Inr program, s2) \<Rightarrow>
                   (case ReservePoints (os_loyalty S)
                      \<lparr>rp_MemberId = os_uuid_String S mid,
                       rp_Points = int32_of (po_RedeemPoints req),
                       rp_Reference = ''order:'' @ key,
                       rp_OrderSubtotal = subtotal (co_Lines base1)\<rparr> s2 of
                      (Inl e, s3) \<Rightarrow> (Inl (mapOrderError e), s3)
                    | (Inr hold, s3) \<Rightarrow>
                        (Inr (hold, base1\<lparr>co_LoyaltyHoldId := lh_Id hold,
                           co_PointsRedeemed := int32_of (po_RedeemPoints req),
                           co_Discount := po_RedeemPoints req * lp_PointValueKopecks program\<rparr>), s3)))"

text \<open>The part of \<open>place\<close> from \<open>CreateOrder\<close> on, with the hold (if any) already reserved.\<close>

definition submit ::
  "'s order_service \<Rightarrow> string \<Rightarrow> create_order_request \<Rightarrow> loyalty_hold option
     \<Rightarrow> ('s, OrderView) op" where
  "submit S restaurantID base hold s =
     (case CreateOrder (os_orders S) base s of
        (Inl e, s1) \<Rightarrow>
          (Inl (mapOrderError e),
           case hold of
             Some h \<Rightarrow> if isAmbiguous e then s1 else snd (ReleaseHold (os_loyalty S) (lh_Id h) s1)
           | None \<Rightarrow> s1)
      | (Inr order, s1) \<Rightarrow>
          (Inr (OrderViewFromProto order),
           case hold of
             Some h \<Rightarrow>
               snd (CommitHold (os_loyalty S)
                 \<lparr>ch_HoldId = lh_Id h, ch_OrderId = o_Id order, ch_OrderNumber = o_Number order,
                  ch_RestaurantId = restaurantID\<rparr> s1)
           | None \<Rightarrow> s1))"

definition place ::
  "'s order_service \<Rightarrow> string \<Rightarrow> create_order_request \<Rightarrow> PlaceOrderRequest \<Rightarrow> uuid option
     \<Rightarrow> ('s, OrderView) op" where
  "place S restaurantID base req memberID s =
     (if po_OrderType req \<noteq> ''dine_in'' \<and> po_OrderType req \<noteq> ''takeaway'' then
        (Inl (NewValidationError ''order_type must be dine_in or takeaway''), s)
      else if po_Items req = [] then (Inl (NewValidationError ''your order is empty''), s)
      else if 200 < rune_count (po_Note req) then (Inl (NewValidationError ''note is too long''), s)
      else
        case os_GetMenu S restaurantID s of
          (Inl e, s1) \<Rightarrow>
            (Inl (if errors_is e ErrMenuNotFound then NewNotFoundError ''restaurant not found''
                  else NewInternalError (Wrapped ''load menu'' e)), s1)
        | (Inr m, s1) \<Rightarrow>
            (case priceCart m (po_Items req) of
               Inl e \<Rightarrow> (Inl e, s1)
             | Inr lines \<Rightarrow>
                 let base1 = base\<lparr>co_RestaurantId := restaurantID, co_OrderType := po_OrderType req,
                       co_Note := trim_space (po_Note req), co_Currency := menu_Currency m,
                       co_IdempotencyKey := po_IdempotencyKey req, co_Lines := lines\<rparr>;
                     base2 = (case memberID of
                                None \<Rightarrow> base1
                              | Some mid \<Rightarrow> base1\<lparr>co_MemberId := os_uuid_String S mid\<rparr>)
                 in if po_RedeemPoints req \<noteq> 0 then
                      (case reservePoints S base2 req memberID s1 of
                         (Inl e, s2) \<Rightarrow> (Inl e, s2)
                       | (Inr (h, base3), s2) \<Rightarrow> submit S restaurantID base3 (Some h) s2)
                    else submit S restaurantID base2 None s1))"

definition PlaceKioskOrder ::
  "'s order_service \<Rightarrow> DeviceTokenClaims \<Rightarrow> PlaceOrderRequest \<Rightarrow> ('s, OrderView) op" where
  "PlaceKioskOrder S device req s =
     (let base = empty_create_order_request
            \<lparr>co_Channel := ''kiosk'', co_PaymentMethod := ''card'', co_PaymentStatus := ''paid'',
             co_DeviceId := os_uuid_String S (dc_DeviceID device)\<rparr>;
          restaurantID = os_uuid_String S (dc_RestaurantID device)
      in if po_LoyaltySession req \<noteq> '''' then
           (case os_VerifyKioskSession S (po_LoyaltySession req) s of
              (Inl e, s1) \<Rightarrow>
                (Inl (NewValidationError
                   ''your loyalty session has expired, please scan your code again''), s1)
            | (Inr claims, s1) \<Rightarrow>
                if kc_DeviceID claims \<noteq> dc_DeviceID device then
                  (Inl (NewValidationError ''loyalty session belongs to another kiosk''), s1)
                else place S restaurantID base req (Some (kc_MemberID claims)) s1)
         else place S restaurantID base req None s)"

definition PlaceWebOrder ::
  "'s order_service \<Rightarrow> uuid \<Rightarrow> string \<Rightarrow> PlaceOrderRequest \<Rightarrow> ('s, OrderView) op" where
  "PlaceWebOrder S memberID restaurantID req s =
     (case GetMember (os_loyalty S) (os_uuid_String S memberID) s of
        (Inl e, s1) \<Rightarrow> (Inl (mapOrderError e), s1)
      | (Inr member, s1) \<Rightarrow>
          let trimmed = trim_space (po_CustomerName req);
              name = (if trimmed = '''' then lm_FirstName member else trimmed);
              n = rune_count name
          in if n < 2 \<or> 60 < n then
               (Inl (NewValidationError (''please enter your name (2'' @
                  [CHR 0xE2, CHR 0x80, CHR 0x93] @ ''60 characters)'')), s1)
             else
               (case crm_GetRestaurant (os_crm S) restaurantID s1 of
                  (Inl e, s2) \<Rightarrow>
                    (Inl (case status_code e of
                            NotFound \<Rightarrow> NewNotFoundError ''restaurant not found''
                          | InvalidArgument \<Rightarrow> NewNotFoundError ''restaurant not found''
                          | _ \<Rightarrow> NewInternalError (RpcError e)), s2)
                | (Inr _, s2) \<Rightarrow>
                    place S restaurantID
                      (empty_create_order_request
                         \<lparr>co_Channel := ''web'', co_PaymentMethod := ''online'',
                          co_PaymentStatus := ''paid'', co_CustomerName := name,
                          co_CustomerPhone := lm_Phone member\<rparr>)
                      req (Some memberID) s2))"

section \<open>Reading orders and the kitchen\<close>

definition ListActive :: "'s order_service \<Rightarrow> string \<Rightarrow> ('s, OrderView list) op" where
  "ListActive S restaurantID s =
     (case ListActiveOrders (os_orders S) restaurantID [] s of
        (Inl e, s1) \<Rightarrow> (Inl (mapOrderError e), s1)
      | (Inr orders, s1) \<Rightarrow> (Inr (map OrderViewFromProto orders), s1))"

definition UpdateFromKitchen ::
  "'s order_service \<Rightarrow> DeviceTokenClaims \<Rightarrow> string \<Rightarrow> string \<Rightarrow> ('s, OrderView) op" where
  "UpdateFromKitchen S device orderID newStatus s =
     (if newStatus \<notin> set kitchenStatuses then
        (Inl (NewValidationError (''the kitchen can'' @ [CHR 0x27] @ ''t set status '' @ newStatus)), s)
      else
        case GetOrder (os_orders S) orderID s of
          (Inl e, s1) \<Rightarrow> (Inl (mapOrderError e), s1)
        | (Inr current, s1) \<Rightarrow>
            if o_RestaurantId current \<noteq> os_uuid_String S (dc_RestaurantID device) then
              (Inl (NewNotFoundError ''order not found''), s1)
            else
              (case UpdateOrderStatus (os_orders S)
                 \<lparr>uo_Id = orderID, uo_Status = newStatus, uo_Reason = '''',
                  uo_Actor = ''device:'' @ os_uuid_String S (dc_DeviceID device)\<rparr> s1 of
                 (Inl e, s2) \<Rightarrow> (Inl (mapOrderError e), s2)
               | (Inr updated, s2) \<Rightarrow> (Inr (OrderViewFromProto updated), s2)))"

definition Get :: "'s order_service \<Rightarrow> string \<Rightarrow> ('s, OrderView) op" where
  "Get S orderID s =
     (case GetOrder (os_orders S) orderID s of
        (Inl e, s1) \<Rightarrow> (Inl (mapOrderError e), s1)
      | (Inr x, s1) \<Rightarrow> (Inr (OrderViewFromProto x), s1))"

end
