(* ===== verification/Customer_Service.thy ===== *)
theory Customer_Service
  imports Customer_Auth_Repo Customer_Domain Order_Service Tokens
begin

text \<open>
  Customers (internal/service/customer_service.go): sign-in by SMS code, sessions with rotating
  refresh tokens, the account, and identifying a customer at a kiosk.  The service struct is a record
  of the interfaces it calls; logging is left out.  \<open>CodeSent\<close> and \<open>Session\<close> have the fields of the
  structs; an error result never comes with one.
\<close>

section \<open>Types\<close>

definition codeLength :: nat where "codeLength = 6"
definition maxCodeAttempts :: int where "maxCodeAttempts = 5"
definition resendCooldown :: int where "resendCooldown = 60 * second"
definition codesPerPhoneHour :: int where "codesPerPhoneHour = 5"
definition codesPerIPHour :: int where "codesPerIPHour = 20"
definition kioskLookupsPer10m :: int where "kioskLookupsPer10m = 30"
definition kioskLookupWindow :: int where "kioskLookupWindow = 10 * minute"
definition refreshTokenEntropy :: nat where "refreshTokenEntropy = 32"

record CustomerAuthConfig =
  cac_JWTSecret :: string
  cac_AccessTTL :: int
  cac_RefreshTTL :: int
  cac_CodeTTL :: int
  cac_DevEchoCode :: bool
  cac_CookieSecure :: bool
  cac_KioskSessionTTL :: int

record CodeSent =
  sent_Phone :: string
  sent_ExpiresIn :: int
  sent_ResendIn :: int
  sent_DevCode :: string

record Session =
  sess_AccessToken :: string
  sess_ExpiresAt :: int
  sess_Member :: Member
  sess_NewMember :: bool
  sess_RefreshToken :: string

record KioskSession =
  ks_SessionToken :: string
  ks_ExpiresAt :: int
  ks_Member :: Member
  ks_Program :: Program

record 's customer_auth_api =
  ca_SaveCode :: "string \<Rightarrow> LoginCode \<Rightarrow> int \<Rightarrow> ('s, unit) op"
  ca_GetCode :: "string \<Rightarrow> ('s, LoginCode \<times> int) op"
  ca_DeleteCode :: "string \<Rightarrow> ('s, unit) op"
  ca_Allow :: "string \<Rightarrow> int \<Rightarrow> int \<Rightarrow> ('s, bool \<times> int) op"
  ca_SaveRefresh :: "string \<Rightarrow> uuid \<Rightarrow> int \<Rightarrow> ('s, unit) op"
  ca_TakeRefresh :: "string \<Rightarrow> ('s, uuid) op"
  ca_DeleteRefresh :: "string \<Rightarrow> ('s, unit) op"

definition NewCustomerAuthRepository :: "'s customer_auth_repo \<Rightarrow> 's customer_auth_api" where
  "NewCustomerAuthRepository R =
     \<lparr>ca_SaveCode = SaveCode R, ca_GetCode = GetLoginCode R, ca_DeleteCode = DeleteLoginCode R,
      ca_Allow = Allow R, ca_SaveRefresh = SaveRefresh R, ca_TakeRefresh = TakeRefresh R,
      ca_DeleteRefresh = DeleteRefresh R\<rparr>"

record 's customer_service =
  cs_repo :: "'s customer_auth_api"
  cs_loyalty :: "'s loyalty_api"
  cs_SendLoginCode :: "string \<Rightarrow> string \<Rightarrow> int \<Rightarrow> ('s, unit) rpc"
  cs_orders :: "'s orders_api"
  cs_tokens :: CustomerTokenManager
  cs_cfg :: CustomerAuthConfig
  cs_platform :: "'s platform"
  cs_jwt :: jwt_lib

section \<open>Helpers\<close>

definition hashCode :: "'s customer_service \<Rightarrow> string \<Rightarrow> string \<Rightarrow> string" where
  "hashCode S phone code =
     hex (hmac_sha256 (cs_platform S) (cac_JWTSecret (cs_cfg S)) (phone @ '':'' @ code))"

definition hashToken :: "'s customer_service \<Rightarrow> string \<Rightarrow> string" where
  "hashToken S t = hex (sha256 (cs_platform S) t)"

text \<open>The digits of a code, drawn one by one; \<open>acc\<close> is the part of the buffer already filled.\<close>

fun randomDigits :: "'s platform \<Rightarrow> nat \<Rightarrow> string \<Rightarrow> ('s, string) op" where
  "randomDigits P 0 acc s = (Inr acc, s)"
| "randomDigits P (Suc n) acc s =
     (case rand_digit P s of
        (Inl e, s1) \<Rightarrow> (Inl e, s1)
      | (Inr d, s1) \<Rightarrow> randomDigits P n (acc @ [char_of (48 + d)]) s1)"

definition tooManyRequests :: "string \<Rightarrow> go_error" where
  "tooManyRequests msg = NewTooManyRequestsError msg"

section \<open>Sign-in\<close>

text \<open>\<open>RequestCode\<close> in two steps: the throttles, and making and sending the code.\<close>

definition throttled :: "'s customer_service \<Rightarrow> string \<Rightarrow> string \<Rightarrow> ('s, unit) op" where
  "throttled S phone ip s =
     (case ca_Allow (cs_repo S) (''send:'' @ phone) 1 resendCooldown s of
        (Inl e, s1) \<Rightarrow> (Inl (NewInternalError e), s1)
      | (Inr (False, wait), s1) \<Rightarrow>
          (Inl (tooManyRequests (''please wait '' @ format_int (int_seconds wait) @
             '' s before requesting a new code'')), s1)
      | (Inr (True, _), s1) \<Rightarrow>
          (case ca_Allow (cs_repo S) (''send-hour:'' @ phone) codesPerPhoneHour hour s1 of
             (Inl e, s2) \<Rightarrow> (Inl (NewInternalError e), s2)
           | (Inr (False, _), s2) \<Rightarrow>
               (Inl (tooManyRequests ''too many codes requested for this number, try again later''), s2)
           | (Inr (True, _), s2) \<Rightarrow>
               (case ca_Allow (cs_repo S) (''send-ip:'' @ ip) codesPerIPHour hour s2 of
                  (Inl e, s3) \<Rightarrow> (Inl (NewInternalError e), s3)
                | (Inr (False, _), s3) \<Rightarrow> (Inl (tooManyRequests ''too many requests, try again later''), s3)
                | (Inr (True, _), s3) \<Rightarrow> (Inr (), s3))))"

definition send_code :: "'s customer_service \<Rightarrow> string \<Rightarrow> ('s, CodeSent) op" where
  "send_code S phone s =
     (case randomDigits (cs_platform S) codeLength [] s of
        (Inl e, s1) \<Rightarrow> (Inl (NewInternalError e), s1)
      | (Inr code, s1) \<Rightarrow>
          (case ca_SaveCode (cs_repo S) phone \<lparr>lc_Hash = hashCode S phone code, lc_Attempts = 0\<rparr>
                  (cac_CodeTTL (cs_cfg S)) s1 of
             (Inl e, s2) \<Rightarrow> (Inl (NewInternalError e), s2)
           | (Inr _, s2) \<Rightarrow>
               (case cs_SendLoginCode S phone code (cac_CodeTTL (cs_cfg S)) s2 of
                  (Inl e, s3) \<Rightarrow>
                    (Inl (NewInternalError (Text ''could not send the SMS'')),
                     snd (ca_DeleteCode (cs_repo S) phone s3))
                | (Inr _, s3) \<Rightarrow>
                    (Inr \<lparr>sent_Phone = phone, sent_ExpiresIn = int_seconds (cac_CodeTTL (cs_cfg S)),
                          sent_ResendIn = int_seconds resendCooldown,
                          sent_DevCode = (if cac_DevEchoCode (cs_cfg S) then code else '''')\<rparr>, s3))))"

definition RequestCode :: "'s customer_service \<Rightarrow> string \<Rightarrow> string \<Rightarrow> ('s, CodeSent) op" where
  "RequestCode S rawPhone ip s =
     (let phone = NormalizePhone rawPhone in
      if phone = '''' then (Inl (NewValidationError ''please enter a valid phone number''), s)
      else case throttled S phone ip s of
             (Inl e, s1) \<Rightarrow> (Inl e, s1)
           | (Inr _, s1) \<Rightarrow> send_code S phone s1)"

definition Me :: "'s customer_service \<Rightarrow> uuid \<Rightarrow> ('s, Member) op" where
  "Me S memberID s =
     (case GetMember (cs_loyalty S) (uuid_String (cs_platform S) memberID) s of
        (Inl e, s1) \<Rightarrow> (Inl (mapOrderError e), s1)
      | (Inr m, s1) \<Rightarrow> (Inr (MemberFromProto (Some m)), s1))"

definition newSession :: "'s customer_service \<Rightarrow> Member \<Rightarrow> ('s, Session) op" where
  "newSession S m s =
     (case uuid_Parse (cs_platform S) (m_ID m) of
        Inl e \<Rightarrow> (Inl (NewInternalError e), s)
      | Inr memberID \<Rightarrow>
          (case IssueAccess (cs_platform S) (cs_jwt S) (cs_tokens S) memberID s of
             (Inl e, s1) \<Rightarrow> (Inl (NewInternalError e), s1)
           | (Inr (access, expires), s1) \<Rightarrow>
               (case rand_Read (cs_platform S) refreshTokenEntropy s1 of
                  (Inl e, s2) \<Rightarrow> (Inl (NewInternalError e), s2)
                | (Inr raw, s2) \<Rightarrow>
                    (case ca_SaveRefresh (cs_repo S) (hashToken S (b64 raw)) memberID
                            (cac_RefreshTTL (cs_cfg S)) s2 of
                       (Inl e, s3) \<Rightarrow> (Inl (NewInternalError e), s3)
                     | (Inr _, s3) \<Rightarrow>
                         (Inr \<lparr>sess_AccessToken = access, sess_ExpiresAt = unix expires, sess_Member = m,
                               sess_NewMember = False, sess_RefreshToken = b64 raw\<rparr>, s3)))))"

text \<open>
  \<open>VerifyCode\<close> in steps: looking the code up, judging the one given (a wrong one is counted, the
  fifth ends the code, the right one is used up), and signing the customer in.
\<close>

definition judge_code ::
  "'s customer_service \<Rightarrow> string \<Rightarrow> string \<Rightarrow> LoginCode \<Rightarrow> int \<Rightarrow> ('s, unit) op" where
  "judge_code S phone code stored ttl s =
     (if lc_Hash stored \<noteq> hashCode S phone code then
        let attempts = lc_Attempts stored + 1 in
        if maxCodeAttempts \<le> attempts then
          (Inl (NewValidationError ''too many wrong attempts, please request a new code''),
           snd (ca_DeleteCode (cs_repo S) phone s))
        else
          (Inl (NewValidationError (''wrong code, '' @ format_int (maxCodeAttempts - attempts)
             @ '' attempts left'')),
           if 0 < ttl
           then snd (ca_SaveCode (cs_repo S) phone (stored\<lparr>lc_Attempts := attempts\<rparr>) ttl s)
           else s)
      else (Inr (), snd (ca_DeleteCode (cs_repo S) phone s)))"

definition check_code :: "'s customer_service \<Rightarrow> string \<Rightarrow> string \<Rightarrow> ('s, unit) op" where
  "check_code S phone code s =
     (case ca_GetCode (cs_repo S) phone s of
        (Inl e, s1) \<Rightarrow>
          (Inl (if errors_is e ErrNotFound
                then NewValidationError ''the code has expired, please request a new one''
                else NewInternalError e), s1)
      | (Inr (stored, ttl), s1) \<Rightarrow> judge_code S phone code stored ttl s1)"

definition sign_in :: "'s customer_service \<Rightarrow> string \<Rightarrow> string \<Rightarrow> ('s, Session) op" where
  "sign_in S phone firstName s =
     (case UpsertMemberByPhone (cs_loyalty S) phone firstName s of
        (Inl e, s1) \<Rightarrow> (Inl (mapOrderError e), s1)
      | (Inr resp, s1) \<Rightarrow>
          (case newSession S (MemberFromProto (um_Member resp)) s1 of
             (Inl e, s2) \<Rightarrow> (Inl e, s2)
           | (Inr sess, s2) \<Rightarrow> (Inr (sess\<lparr>sess_NewMember := um_Created resp\<rparr>), s2)))"

definition VerifyCode :: "'s customer_service \<Rightarrow> string \<Rightarrow> string \<Rightarrow> string \<Rightarrow> ('s, Session) op" where
  "VerifyCode S rawPhone code firstName s =
     (let phone = NormalizePhone rawPhone in
      if phone = '''' then (Inl (NewValidationError ''please enter a valid phone number''), s)
      else case check_code S phone code s of
             (Inl e, s1) \<Rightarrow> (Inl e, s1)
           | (Inr _, s1) \<Rightarrow> sign_in S phone firstName s1)"

definition Refresh :: "'s customer_service \<Rightarrow> string \<Rightarrow> ('s, Session) op" where
  "Refresh S refreshToken s =
     (if refreshToken = '''' then (Inl (NewAuthenticationError ''not signed in''), s)
      else case ca_TakeRefresh (cs_repo S) (hashToken S refreshToken) s of
             (Inl e, s1) \<Rightarrow>
               (Inl (if errors_is e ErrNotFound
                     then NewAuthenticationError ''session expired, please sign in again''
                     else NewInternalError e), s1)
           | (Inr memberID, s1) \<Rightarrow>
               (case Me S memberID s1 of
                  (Inl e, s2) \<Rightarrow> (Inl e, s2)
                | (Inr m, s2) \<Rightarrow> newSession S m s2))"

definition Logout :: "'s customer_service \<Rightarrow> string \<Rightarrow> ('s, unit) op" where
  "Logout S refreshToken s =
     (if refreshToken = '''' then (Inr (), s)
      else ca_DeleteRefresh (cs_repo S) (hashToken S refreshToken) s)"


section \<open>Account\<close>

definition UpdateMe :: "'s customer_service \<Rightarrow> uuid \<Rightarrow> string \<Rightarrow> string \<Rightarrow> ('s, Member) op" where
  "UpdateMe S memberID firstName email s =
     (case UpdateMember (cs_loyalty S) (uuid_String (cs_platform S) memberID) firstName email s of
        (Inl e, s1) \<Rightarrow> (Inl (mapOrderError e), s1)
      | (Inr m, s1) \<Rightarrow> (Inr (MemberFromProto (Some m)), s1))"

definition Points :: "'s customer_service \<Rightarrow> uuid \<Rightarrow> i64 \<Rightarrow> i64 \<Rightarrow> ('s, PointsHistory) op" where
  "Points S memberID limit offset s =
     (case ListTransactions (cs_loyalty S) (uuid_String (cs_platform S) memberID)
             (int32_of limit) (int32_of offset) s of
        (Inl e, s1) \<Rightarrow> (Inl (mapOrderError e), s1)
      | (Inr resp, s1) \<Rightarrow> (Inr (PointsHistoryFromProto resp), s1))"

definition LoyaltyProgram :: "'s customer_service \<Rightarrow> ('s, Program) op" where
  "LoyaltyProgram S s =
     (case GetProgram (cs_loyalty S) s of
        (Inl e, s1) \<Rightarrow> (Inl (mapOrderError e), s1)
      | (Inr p, s1) \<Rightarrow> (Inr (ProgramFromProto p), s1))"

definition IssueKioskCode :: "'s customer_service \<Rightarrow> uuid \<Rightarrow> ('s, MemberCode) op" where
  "IssueKioskCode S memberID s =
     (case IssueMemberCode (cs_loyalty S) (uuid_String (cs_platform S) memberID) s of
        (Inl e, s1) \<Rightarrow> (Inl (mapOrderError e), s1)
      | (Inr c, s1) \<Rightarrow>
          (Inr \<lparr>mk_Code = mc_Code c, mk_QRPayload = QRPrefix @ mc_Code c,
                mk_ExpiresAt = unix_milli (mc_ExpiresAt c)\<rparr>, s1))"

definition Orders :: "'s customer_service \<Rightarrow> uuid \<Rightarrow> i64 \<Rightarrow> i64 \<Rightarrow> ('s, OrderView list \<times> i64) op" where
  "Orders S memberID limit offset s =
     (case ListOrders (cs_orders S)
             \<lparr>lo_RestaurantIds = [], lo_Status = '''', lo_Channel = '''', lo_From = 0, lo_To = 0,
              lo_Limit = int32_of limit, lo_Offset = int32_of offset, lo_Number = 0,
              lo_MemberId = uuid_String (cs_platform S) memberID\<rparr> s of
        (Inl e, s1) \<Rightarrow> (Inl (mapOrderError e), s1)
      | (Inr resp, s1) \<Rightarrow>
          (Inr (map (\<lambda>x. ToPublic (OrderViewFromProto x)) (lor_Orders resp), int64_of (lor_Total resp)), s1))"

section \<open>Kiosk\<close>

text \<open>A member id that is not a UUID reads as the nil UUID: the error is dropped.\<close>

definition IdentifyAtKiosk ::
  "'s customer_service \<Rightarrow> DeviceTokenClaims \<Rightarrow> string \<Rightarrow> ('s, KioskSession) op" where
  "IdentifyAtKiosk S device code s =
     (case ca_Allow (cs_repo S) (''kiosk-identify:'' @ uuid_String (cs_platform S) (dc_DeviceID device))
             kioskLookupsPer10m kioskLookupWindow s of
        (Inl e, s1) \<Rightarrow> (Inl (NewInternalError e), s1)
      | (Inr (False, _), s1) \<Rightarrow>
          (Inl (tooManyRequests ''too many attempts, please wait a few minutes''), s1)
      | (Inr (True, _), s1) \<Rightarrow>
          (case ResolveMemberCode (cs_loyalty S) (ParseMemberCode code) s1 of
             (Inl e, s2) \<Rightarrow> (Inl (mapOrderError e), s2)
           | (Inr m, s2) \<Rightarrow>
               let member = MemberFromProto (Some m);
                   memberID = (case uuid_Parse (cs_platform S) (m_ID member) of Inr u \<Rightarrow> u | Inl _ \<Rightarrow> 0)
               in (case IssueKioskSession (cs_platform S) (cs_jwt S) (cs_tokens S) memberID (dc_DeviceID device) s2 of
                     (Inl e, s3) \<Rightarrow> (Inl (NewInternalError e), s3)
                   | (Inr (token, expires), s3) \<Rightarrow>
                       (case LoyaltyProgram S s3 of
                          (Inl e, s4) \<Rightarrow> (Inl e, s4)
                        | (Inr program, s4) \<Rightarrow>
                            (Inr \<lparr>ks_SessionToken = token, ks_ExpiresAt = unix expires,
                                  ks_Member = ForKiosk member, ks_Program = program\<rparr>, s4)))))"

end
