(* ===== verification/Sign_In.thy ===== *)
theory Sign_In
  imports Customer_Service
begin

text \<open>
  What signing in guarantees (internal/service/customer_service.go on
  internal/repository/customer_auth_repo.go): a code is good for five
  guesses, only the code sent signs in, and a refresh token works once.  The client of the
  interface \<open>customer_auth\<close> is the locale \<open>customer_sign_in\<close>, interpreted on the service as wired.
\<close>

section \<open>The client\<close>

definition auth_keeps ::
  "('s \<Rightarrow> bool) \<Rightarrow> ('s \<Rightarrow> string \<Rightarrow> LoginCode option) \<Rightarrow> ('s \<Rightarrow> string \<Rightarrow> uuid option) \<Rightarrow> 's \<Rightarrow> 's \<Rightarrow> bool" where
  "auth_keeps I C F s s' \<longleftrightarrow> I s' \<and> C s' \<subseteq>\<^sub>m C s \<and> F s' \<subseteq>\<^sub>m F s"

lemma auth_keeps_refl: "I s \<Longrightarrow> auth_keeps I C F s s"
  by (simp add: auth_keeps_def)

lemma auth_keeps_trans:
  "auth_keeps I C F s s1 \<Longrightarrow> auth_keeps I C F s1 s2 \<Longrightarrow> auth_keeps I C F s s2"
  unfolding auth_keeps_def by (metis map_le_trans)

context customer_auth begin

lemma with_fact:
  "customer_auth get_code save_code delete_code allow save_refresh take_refresh (\<lambda>s. inv s \<and> Q) code refresh"
proof (unfold_locales, goal_cases)
  case (1 s p g s')
  with get_code_keeps [of s p g s'] show ?case by simp
next
  case (2 s p c ttl s')
  with get_code_found [of s p c ttl s'] show ?case by simp
next
  case (3 s p c ttl w s')
  with save_code_only [of s p c ttl w s'] show ?case by simp
next
  case (4 s p w s')
  with delete_code_keeps [of s p w s'] show ?case by simp
next
  case (5 s key limit w a s')
  with allow_keeps [of s key limit w a s'] show ?case by simp
next
  case (6 s h m ttl w s')
  with save_refresh_only [of s h m ttl w s'] show ?case by simp
next
  case (7 s h u s')
  with take_refresh_keeps [of s h u s'] show ?case by simp
next
  case (8 s h m s')
  with take_refresh_once [of s h m s'] show ?case by simp
qed

end

locale customer_sign_in =
  customer_auth get_code save_code delete_code allow save_refresh take_refresh inv code refresh
  for get_code :: "string \<Rightarrow> 's \<Rightarrow> (go_error + LoginCode \<times> int) \<times> 's"
    and save_code :: "string \<Rightarrow> LoginCode \<Rightarrow> int \<Rightarrow> 's \<Rightarrow> (go_error + unit) \<times> 's"
    and delete_code :: "string \<Rightarrow> 's \<Rightarrow> (go_error + unit) \<times> 's"
    and allow :: "string \<Rightarrow> int \<Rightarrow> int \<Rightarrow> 's \<Rightarrow> (go_error + bool \<times> int) \<times> 's"
    and save_refresh :: "string \<Rightarrow> uuid \<Rightarrow> int \<Rightarrow> 's \<Rightarrow> (go_error + unit) \<times> 's"
    and take_refresh :: "string \<Rightarrow> 's \<Rightarrow> (go_error + uuid) \<times> 's"
    and inv :: "'s \<Rightarrow> bool"
    and code :: "'s \<Rightarrow> string \<Rightarrow> LoginCode option"
    and refresh :: "'s \<Rightarrow> string \<Rightarrow> uuid option" +
  fixes S :: "'s customer_service"
  assumes repo_is: "ca_GetCode (cs_repo S) = get_code" "ca_SaveCode (cs_repo S) = save_code"
      "ca_DeleteCode (cs_repo S) = delete_code" "ca_Allow (cs_repo S) = allow"
      "ca_SaveRefresh (cs_repo S) = save_refresh" "ca_TakeRefresh (cs_repo S) = take_refresh"
    and digit_keeps: "inv s \<Longrightarrow> rand_digit (cs_platform S) s = (d, s') \<Longrightarrow> auth_keeps inv code refresh s s'"
    and bytes_keeps: "inv s \<Longrightarrow> rand_Read (cs_platform S) n s = (b, s') \<Longrightarrow> auth_keeps inv code refresh s s'"
    and issue_keeps: "inv s \<Longrightarrow> IssueAccess (cs_platform S) (cs_jwt S) (cs_tokens S) m s = (x, s') \<Longrightarrow>
      auth_keeps inv code refresh s s'"
    and send_keeps: "inv s \<Longrightarrow> cs_SendLoginCode S p c ttl s = (u, s') \<Longrightarrow> auth_keeps inv code refresh s s'"
    and member_keeps: "inv s \<Longrightarrow> GetMember (cs_loyalty S) i s = (q, s') \<Longrightarrow> auth_keeps inv code refresh s s'"
    and upsert_keeps: "inv s \<Longrightarrow> UpsertMemberByPhone (cs_loyalty S) p first s = (r, s') \<Longrightarrow>
      auth_keeps inv code refresh s s'"
begin

lemmas keeps_trans = auth_keeps_trans [of inv code refresh]

lemma keepsD: "auth_keeps inv code refresh s s' \<Longrightarrow> inv s'"
  by (simp add: auth_keeps_def)

lemma digits_keep: "inv s \<Longrightarrow> randomDigits (cs_platform S) n acc s = (r, s') \<Longrightarrow> auth_keeps inv code refresh s s'"
proof (induction n arbitrary: acc s)
  case 0
  then show ?case by (simp add: auth_keeps_refl)
next
  case (Suc n)
  obtain d s1 where 1: "rand_digit (cs_platform S) s = (d, s1)" by (cases "rand_digit (cs_platform S) s")
  note k = digit_keeps [OF Suc.prems(1) 1]
  show ?case
  proof (cases d)
    case (Inl e)
    with Suc.prems 1 k show ?thesis by simp
  next
    case (Inr x)
    with Suc.prems(2) 1 have "randomDigits (cs_platform S) n (acc @ [char_of (48 + x)]) s1 = (r, s')" by simp
    from keeps_trans [OF k Suc.IH [OF keepsD [OF k] this]] show ?thesis .
  qed
qed

lemma allow_keeps': "inv s \<Longrightarrow> allow key limit w s = (a, s') \<Longrightarrow> auth_keeps inv code refresh s s'"
  using allow_keeps [of s key limit w a s'] by (simp add: auth_keeps_def)

lemma delete_keeps': "inv s \<Longrightarrow> auth_keeps inv code refresh s (snd (delete_code p s))"
  using delete_code_keeps [of s p "fst (delete_code p s)"] by (simp add: auth_keeps_def)

lemma throttled_keeps:
  assumes "inv s" and "throttled S phone ip s = (r, s')"
  shows "auth_keeps inv code refresh s s'"
proof -
  obtain a s1 where 1: "allow (''send:'' @ phone) 1 resendCooldown s = (a, s1)" by force
  obtain b s2 where 2: "allow (''send-hour:'' @ phone) codesPerPhoneHour hour s1 = (b, s2)" by force
  obtain c s3 where 3: "allow (''send-ip:'' @ ip) codesPerIPHour hour s2 = (c, s3)" by force
  note k1 = allow_keeps' [OF assms(1) 1]
  note k2 = keeps_trans [OF k1 allow_keeps' [OF keepsD [OF k1] 2]]
  note k3 = keeps_trans [OF k2 allow_keeps' [OF keepsD [OF k2] 3]]
  from assms(2) 1 2 3 have "s' = s1 \<or> s' = s2 \<or> s' = s3"
    by (auto simp: throttled_def repo_is split: sum.splits bool.splits prod.splits)
  with k1 k2 k3 show ?thesis by blast
qed

text \<open>What each operation leaves of the pending codes and of the refresh tokens.\<close>

lemma save_keeps:
  assumes "inv s"
  shows "inv (snd (save_code p c ttl s))" "refresh (snd (save_code p c ttl s)) \<subseteq>\<^sub>m refresh s"
  using save_code_only [OF assms, of p c ttl "fst (save_code p c ttl s)" "snd (save_code p c ttl s)"]
  by simp_all

lemma save_new:
  assumes "inv s" and "code (snd (save_code p c ttl s)) q = Some x"
  shows "code s q = Some x \<or> (q = p \<and> x = c)"
  using save_code_only [OF assms(1), of p c ttl "fst (save_code p c ttl s)" "snd (save_code p c ttl s)"]
    assms(2) by auto

lemma map_leD: "m' \<subseteq>\<^sub>m m \<Longrightarrow> m' k = Some v \<Longrightarrow> m k = Some v"
  by (metis domI map_le_def)

lemma send_code_effect:
  assumes "inv s" and "send_code S phone s = (r, s')"
  shows "inv s' \<and> refresh s' \<subseteq>\<^sub>m refresh s
    \<and> (\<forall>q x. code s' q = Some x \<longrightarrow> code s q = Some x \<or> (q = phone \<and> lc_Attempts x = 0))"
proof -
  obtain d s1 where 1: "randomDigits (cs_platform S) codeLength [] s = (d, s1)" by force
  note k1 = digits_keep [OF assms(1) 1]
  show ?thesis
  proof (cases d)
    case (Inl e)
    with assms(2) 1 have "s' = s1" by (simp add: send_code_def)
    with k1 show ?thesis by (auto simp: auth_keeps_def dest: map_leD)
  next
    case (Inr digs)
    let ?c = "\<lparr>lc_Hash = hashCode S phone digs, lc_Attempts = 0\<rparr>" and ?ttl = "cac_CodeTTL (cs_cfg S)"
    obtain w s2 where 2: "save_code phone ?c ?ttl s1 = (w, s2)" by force
    obtain u s3 where 3: "cs_SendLoginCode S phone digs ?ttl s2 = (u, s3)" by force
    have k2: "inv s2" "refresh s2 \<subseteq>\<^sub>m refresh s1"
      using save_keeps [OF keepsD [OF k1], of phone ?c ?ttl] 2 by simp_all
    note k3 = send_keeps [OF k2(1) 3]
    note k4 = delete_keeps' [OF keepsD [OF k3], of phone]
    from assms(2) 1 2 3 Inr have "s' = s2 \<or> s' = s3 \<or> s' = snd (delete_code phone s3)"
      by (auto simp: send_code_def repo_is split: sum.splits prod.splits)
    then have s': "inv s'" "refresh s' \<subseteq>\<^sub>m refresh s2" "code s' \<subseteq>\<^sub>m code s2"
      using k2 k3 keeps_trans [OF k3 k4] by (auto simp: auth_keeps_def)
    have "refresh s' \<subseteq>\<^sub>m refresh s"
      using s'(2) k2 k1 unfolding auth_keeps_def by (metis map_le_trans)
    moreover have "code s q = Some x \<or> (q = phone \<and> lc_Attempts x = 0)" if "code s' q = Some x" for q x
    proof -
      have "code s1 q = Some x \<or> (q = phone \<and> x = ?c)"
        using save_new [OF keepsD [OF k1], of phone ?c ?ttl q x] map_leD [OF s'(3) that] 2 by simp
      then show ?thesis using map_leD [of "code s1" "code s" q x] k1 by (auto simp: auth_keeps_def)
    qed
    ultimately show ?thesis using s'(1) by blast
  qed
qed

lemma judge_effect:
  assumes "inv s" and "judge_code S p c stored ttl s = (r, s')"
  shows "inv s' \<and> refresh s' \<subseteq>\<^sub>m refresh s
    \<and> (\<forall>q x. code s' q = Some x \<longrightarrow> code s q = Some x
        \<or> (q = p \<and> x = stored\<lparr>lc_Attempts := lc_Attempts stored + 1\<rparr> \<and> lc_Attempts x < maxCodeAttempts))
    \<and> (r = Inr () \<longleftrightarrow> lc_Hash stored = hashCode S p c)"
proof -
  let ?n = "stored\<lparr>lc_Attempts := lc_Attempts stored + 1\<rparr>"
  have r: "r = Inr () \<longleftrightarrow> lc_Hash stored = hashCode S p c"
    using assms(2) by (auto simp: judge_code_def Let_def split: if_splits)
  note d = delete_keeps' [OF assms(1), of p]
  from assms(2) consider "s' = snd (delete_code p s)" | "s' = s"
    | "s' = snd (save_code p ?n ttl s)" "lc_Attempts ?n < maxCodeAttempts"
    by (auto simp: judge_code_def repo_is Let_def split: if_splits)
  then show ?thesis
  proof cases
    case 1
    with d r show ?thesis by (auto simp: auth_keeps_def dest: map_leD)
  next
    case 2
    with assms(1) r show ?thesis by simp
  next
    case 3
    have "code s q = Some x \<or> (q = p \<and> x = ?n \<and> lc_Attempts x < maxCodeAttempts)"
      if "code s' q = Some x" for q x
      using save_new [OF assms(1), of p ?n ttl q x] that 3 by auto
    with save_keeps [OF assms(1), of p ?n ttl] 3(1) r show ?thesis by blast
  qed
qed

lemma check_effect:
  assumes "inv s" and "check_code S p c s = (r, s')"
  shows "inv s' \<and> refresh s' \<subseteq>\<^sub>m refresh s
    \<and> (\<forall>q x. code s' q = Some x \<longrightarrow> code s q = Some x
        \<or> (\<exists>stored. q = p \<and> code s p = Some stored \<and> lc_Hash x = lc_Hash stored
             \<and> lc_Attempts x = lc_Attempts stored + 1 \<and> lc_Attempts x < maxCodeAttempts))
    \<and> (r = Inr () \<longrightarrow> (\<exists>stored. code s p = Some stored \<and> lc_Hash stored = hashCode S p c))"
proof -
  obtain g s1 where 1: "get_code p s = (g, s1)" by force
  note k1 = get_code_keeps [OF assms(1) 1]
  show ?thesis
  proof (cases g)
    case (Inl e)
    with assms(2) 1 have "s' = s1" "r \<noteq> Inr ()" by (auto simp: check_code_def repo_is)
    with k1 show ?thesis by (auto dest: map_leD)
  next
    case (Inr ct)
    obtain stored ttl where ct: "ct = (stored, ttl)" by (cases ct)
    have found: "code s p = Some stored" using get_code_found [OF assms(1)] 1 Inr ct by blast
    from assms(2) 1 Inr ct have "judge_code S p c stored ttl s1 = (r, s')"
      by (simp add: check_code_def repo_is)
    note J = judge_effect [OF conjunct1 [OF k1] this]
    have le: "code s1 q = Some x \<Longrightarrow> code s q = Some x" for q x using map_leD [of "code s1" "code s" q x] k1 by simp
    have "refresh s' \<subseteq>\<^sub>m refresh s"
      using map_le_trans [of "refresh s'" "refresh s1" "refresh s"] J k1 by simp
    moreover have "code s q = Some x \<or> (q = p \<and> lc_Hash x = lc_Hash stored
        \<and> lc_Attempts x = lc_Attempts stored + 1 \<and> lc_Attempts x < maxCodeAttempts)" if "code s' q = Some x" for q x
    proof -
      from J that consider "code s1 q = Some x" | "q = p"
        "x = stored\<lparr>lc_Attempts := lc_Attempts stored + 1\<rparr>" "lc_Attempts x < maxCodeAttempts" by blast
      then show ?thesis by cases (use le in auto)
    qed
    ultimately show ?thesis using J found by blast
  qed
qed

lemma newSession_effect:
  assumes "inv s" and "newSession S m s = (r, s')"
  shows "inv s' \<and> code s' \<subseteq>\<^sub>m code s
    \<and> (\<forall>sess g x. r = Inr sess \<longrightarrow> refresh s' g = Some x \<longrightarrow>
         refresh s g = Some x \<or> g = hashToken S (sess_RefreshToken sess))"
proof (cases "uuid_Parse (cs_platform S) (m_ID m)")
  case (Inl e)
  with assms show ?thesis by (auto simp: newSession_def)
next
  case (Inr mid)
  obtain a s1 where 1: "IssueAccess (cs_platform S) (cs_jwt S) (cs_tokens S) mid s = (a, s1)" by force
  note k1 = issue_keeps [OF assms(1) 1]
  obtain b s2 where 2: "rand_Read (cs_platform S) refreshTokenEntropy s1 = (b, s2)" by force
  note k2 = keeps_trans [OF k1 bytes_keeps [OF keepsD [OF k1] 2]]
  show ?thesis
  proof (cases "\<exists>tok raw. a = Inr tok \<and> b = Inr raw")
    case False
    with assms(2) Inr 1 2 have "s' = s1 \<or> s' = s2" "\<exists>e. r = Inl e"
      by (auto simp: newSession_def split: sum.splits prod.splits)
    with k1 k2 show ?thesis by (auto simp: auth_keeps_def)
  next
    case True
    then obtain tok raw where ab: "a = Inr tok" "b = Inr raw" by blast
    let ?ttl = "cac_RefreshTTL (cs_cfg S)"
    obtain w s3 where 3: "save_refresh (hashToken S (b64 raw)) mid ?ttl s2 = (w, s3)" by force
    from assms(2) Inr 1 2 3 ab have s': "s' = s3"
      and sess: "\<And>sess. r = Inr sess \<Longrightarrow> sess_RefreshToken sess = b64 raw"
      by (auto simp: newSession_def repo_is split: sum.splits prod.splits)
    note W = save_refresh_only [OF keepsD [OF k2] 3]
    have "code s3 \<subseteq>\<^sub>m code s"
      using W k2 map_le_trans [of "code s3" "code s2" "code s"] by (simp add: auth_keeps_def)
    moreover have "refresh s g = Some x \<or> g = hashToken S (b64 raw)" if "refresh s3 g = Some x" for g x
    proof -
      from W that have "refresh s2 g = Some x \<or> g = hashToken S (b64 raw)" by blast
      with map_leD [of "refresh s2" "refresh s" g x] k2 show ?thesis by (auto simp: auth_keeps_def)
    qed
    ultimately show ?thesis using W s' sess by auto
  qed
qed

lemma sign_in_effect:
  assumes "inv s" and "sign_in S p f s = (r, s')"
  shows "inv s' \<and> code s' \<subseteq>\<^sub>m code s"
proof -
  obtain u s1 where 1: "UpsertMemberByPhone (cs_loyalty S) p f s = (u, s1)" by force
  note k1 = upsert_keeps [OF assms(1) 1]
  show ?thesis
  proof (cases u)
    case (Inl e)
    with assms(2) 1 k1 show ?thesis by (auto simp: sign_in_def auth_keeps_def)
  next
    case (Inr resp)
    obtain v s2 where 2: "newSession S (MemberFromProto (um_Member resp)) s1 = (v, s2)" by force
    with assms(2) 1 Inr have "s' = s2" by (auto simp: sign_in_def split: sum.splits)
    with newSession_effect [OF keepsD [OF k1] 2] k1 map_le_trans [of "code s2" "code s1" "code s"]
    show ?thesis by (simp add: auth_keeps_def)
  qed
qed

text \<open>Every pending code has guesses left.\<close>

definition guesses_left :: "'s \<Rightarrow> bool" where
  "guesses_left s \<longleftrightarrow> (\<forall>p c. code s p = Some c \<longrightarrow> 0 \<le> lc_Attempts c \<and> lc_Attempts c < maxCodeAttempts)"

lemma guesses_left_mono: "guesses_left s \<Longrightarrow> code s' \<subseteq>\<^sub>m code s \<Longrightarrow> guesses_left s'"
  unfolding guesses_left_def using map_leD by metis

lemma request_guesses:
  assumes "inv s" and "guesses_left s" and "RequestCode S raw ip s = (r, s')"
  shows "inv s' \<and> guesses_left s'"
proof (cases "NormalizePhone raw = ''''")
  case True
  with assms show ?thesis by (simp add: RequestCode_def)
next
  case False
  obtain t s1 where 1: "throttled S (NormalizePhone raw) ip s = (t, s1)" by force
  note k = throttled_keeps [OF assms(1) 1]
  then have g: "guesses_left s1" using guesses_left_mono assms(2) by (simp add: auth_keeps_def)
  show ?thesis
  proof (cases t)
    case (Inl e)
    with assms(3) False 1 g k show ?thesis by (auto simp: RequestCode_def Let_def auth_keeps_def)
  next
    case (Inr u)
    with assms(3) False 1 have "send_code S (NormalizePhone raw) s1 = (r, s')"
      by (simp add: RequestCode_def Let_def)
    note E = send_code_effect [OF keepsD [OF k] this]
    have "0 \<le> lc_Attempts x \<and> lc_Attempts x < maxCodeAttempts" if "code s' q = Some x" for q x
    proof -
      from E that consider "code s1 q = Some x" | "lc_Attempts x = 0" by blast
      then show ?thesis by cases (use g in \<open>auto simp: guesses_left_def maxCodeAttempts_def\<close>)
    qed
    with E show ?thesis by (simp add: guesses_left_def)
  qed
qed

lemma verify_guesses:
  assumes "inv s" and "guesses_left s" and "VerifyCode S raw c f s = (r, s')"
  shows "inv s' \<and> guesses_left s'"
proof (cases "NormalizePhone raw = ''''")
  case True
  with assms show ?thesis by (simp add: VerifyCode_def)
next
  case False
  obtain t s1 where 1: "check_code S (NormalizePhone raw) c s = (t, s1)" by force
  note E = check_effect [OF assms(1) 1]
  have "0 \<le> lc_Attempts x \<and> lc_Attempts x < maxCodeAttempts" if "code s1 q = Some x" for q x
  proof -
    from E that consider "code s q = Some x" | stored where "code s (NormalizePhone raw) = Some stored"
      "lc_Attempts x = lc_Attempts stored + 1" "lc_Attempts x < maxCodeAttempts" by blast
    then show ?thesis by cases (use assms(2) in \<open>force simp: guesses_left_def\<close>)+
  qed
  then have g: "guesses_left s1" by (simp add: guesses_left_def)
  show ?thesis
  proof (cases t)
    case (Inl e)
    with assms(3) False 1 g E show ?thesis by (simp add: VerifyCode_def Let_def)
  next
    case (Inr u)
    with assms(3) False 1 have "sign_in S (NormalizePhone raw) f s1 = (r, s')"
      by (simp add: VerifyCode_def Let_def)
    from sign_in_effect [OF conjunct1 [OF E] this] g guesses_left_mono show ?thesis by blast
  qed
qed

lemma verify_needs_code:
  assumes "inv s" and "VerifyCode S raw c f s = (Inr sess, s')"
  shows "NormalizePhone raw \<noteq> ''''
    \<and> (\<exists>stored. code s (NormalizePhone raw) = Some stored \<and> lc_Hash stored = hashCode S (NormalizePhone raw) c)"
proof -
  have ne: "NormalizePhone raw \<noteq> ''''" using assms(2) by (auto simp: VerifyCode_def)
  then obtain s1 where "check_code S (NormalizePhone raw) c s = (Inr (), s1)"
    using assms(2) by (auto simp: VerifyCode_def Let_def split: prod.splits sum.splits)
  from check_effect [OF assms(1) this] ne show ?thesis by blast
qed

text \<open>A refresh token is used up by \<open>Refresh\<close>.\<close>

lemma refresh_uses_up:
  assumes "inv s" and "Refresh S t s = (Inr sess, s')"
  shows "inv s' \<and> (hashToken S (sess_RefreshToken sess) \<noteq> hashToken S t \<longrightarrow> refresh s' (hashToken S t) = None)"
proof -
  from assms(2) obtain m s1 mem s2 where 1: "take_refresh (hashToken S t) s = (Inr m, s1)"
    and 2: "Me S m s1 = (Inr mem, s2)" and 3: "newSession S mem s2 = (Inr sess, s')"
    by (auto simp: Refresh_def repo_is split: if_splits prod.splits sum.splits)
  note T = take_refresh_keeps [OF assms(1) 1] take_refresh_once [OF assms(1) 1]
  have k2: "auth_keeps inv code refresh s1 s2"
    using 2 member_keeps [OF conjunct1 [OF T(1)]] by (auto simp: Me_def split: prod.splits sum.splits)
  note N = newSession_effect [OF keepsD [OF k2] 3]
  have "refresh s' (hashToken S t) = None" if ne: "hashToken S (sess_RefreshToken sess) \<noteq> hashToken S t"
  proof (rule ccontr)
    assume "refresh s' (hashToken S t) \<noteq> None"
    then obtain x where "refresh s' (hashToken S t) = Some x" by blast
    with N ne have "refresh s2 (hashToken S t) = Some x" by metis
    with k2 map_leD [of "refresh s2" "refresh s1"] T(2) show False by (auto simp: auth_keeps_def)
  qed
  with N show ?thesis by blast
qed

lemma refresh_needs_token:
  assumes "inv s" and "refresh s (hashToken S t) = None"
  shows "\<exists>e. fst (Refresh S t s) = Inl e"
proof -
  obtain u s1 where 1: "take_refresh (hashToken S t) s = (u, s1)" by force
  with take_refresh_once [OF assms(1), of "hashToken S t"] assms(2) have "\<exists>e. u = Inl e"
    by (cases u) auto
  with 1 show ?thesis by (auto simp: Refresh_def repo_is)
qed

end


section \<open>The service as wired\<close>

definition NewCustomerService ::
  "'s customer_auth_repo \<Rightarrow> 's loyalty_api \<Rightarrow> (string \<Rightarrow> string \<Rightarrow> int \<Rightarrow> ('s, unit) rpc) \<Rightarrow> 's orders_api
     \<Rightarrow> CustomerTokenManager \<Rightarrow> CustomerAuthConfig \<Rightarrow> 's platform \<Rightarrow> jwt_lib \<Rightarrow> 's customer_service" where
  "NewCustomerService R loyalty send orders tokens cfg P L =
     \<lparr>cs_repo = NewCustomerAuthRepository R, cs_loyalty = loyalty, cs_SendLoginCode = send,
      cs_orders = orders, cs_tokens = tokens, cs_cfg = cfg, cs_platform = P, cs_jwt = L\<rparr>"

lemma NewCustomerService_sel [simp]:
  "ca_GetCode (cs_repo (NewCustomerService R lo se od tk cfg P L)) = GetLoginCode R"
  "ca_SaveCode (cs_repo (NewCustomerService R lo se od tk cfg P L)) = SaveCode R"
  "ca_DeleteCode (cs_repo (NewCustomerService R lo se od tk cfg P L)) = DeleteLoginCode R"
  "ca_Allow (cs_repo (NewCustomerService R lo se od tk cfg P L)) = Allow R"
  "ca_SaveRefresh (cs_repo (NewCustomerService R lo se od tk cfg P L)) = SaveRefresh R"
  "ca_TakeRefresh (cs_repo (NewCustomerService R lo se od tk cfg P L)) = TakeRefresh R"
  "ca_DeleteRefresh (cs_repo (NewCustomerService R lo se od tk cfg P L)) = DeleteRefresh R"
  "cs_loyalty (NewCustomerService R lo se od tk cfg P L) = lo"
  "cs_SendLoginCode (NewCustomerService R lo se od tk cfg P L) = se"
  "cs_tokens (NewCustomerService R lo se od tk cfg P L) = tk"
  "cs_cfg (NewCustomerService R lo se od tk cfg P L) = cfg"
  "cs_platform (NewCustomerService R lo se od tk cfg P L) = P"
  "cs_jwt (NewCustomerService R lo se od tk cfg P L) = L"
  by (simp_all add: NewCustomerService_def NewCustomerAuthRepository_def)

text \<open>The services called leave Redis alone.\<close>

definition services_ok ::
  "'s loyalty_api \<Rightarrow> (string \<Rightarrow> string \<Rightarrow> int \<Rightarrow> ('s, unit) rpc) \<Rightarrow> 's platform \<Rightarrow> ('s \<Rightarrow> redis_db) \<Rightarrow> bool" where
  "services_ok lo se P db \<longleftrightarrow> platform_ok P db \<and> (\<forall>i. aside db (GetMember lo i))
     \<and> (\<forall>p n. aside db (UpsertMemberByPhone lo p n)) \<and> (\<forall>p c ttl. aside db (se p c ttl))"

abbreviation auth_sound ::
  "'s customer_auth_repo \<Rightarrow> 's loyalty_api \<Rightarrow> (string \<Rightarrow> string \<Rightarrow> int \<Rightarrow> ('s, unit) rpc) \<Rightarrow> 's platform
     \<Rightarrow> ('s \<Rightarrow> redis_db) \<Rightarrow> 's \<Rightarrow> bool" where
  "auth_sound R lo se P db s \<equiv> auth_inv R db s \<and> services_ok lo se P db"

lemma ages_keeps:
  assumes "auth_sound R lo se P db s" and "ages (db s) (db s')"
  shows "auth_keeps (auth_sound R lo se P db) (\<lambda>s. login_code R (db s)) (\<lambda>s. refresh_of R (db s)) s s'"
  using ages_auth [OF assms(2)] assms(1) auth_inv_any by (auto simp: auth_keeps_def)

lemma aside_keeps:
  assumes "auth_sound R lo se P db s" and "aside db f" and "f s = (x, s')"
  shows "auth_keeps (auth_sound R lo se P db) (\<lambda>s. login_code R (db s)) (\<lambda>s. refresh_of R (db s)) s s'"
  by (rule ages_keeps [OF assms(1) aside_ages [OF assms(2,3)]])

interpretation signing_in: customer_sign_in
  "GetLoginCode R" "SaveCode R" "DeleteLoginCode R" "Allow R" "SaveRefresh R" "TakeRefresh R"
  "auth_sound R lo se P db" "\<lambda>s. login_code R (db s)" "\<lambda>s. refresh_of R (db s)"
  "NewCustomerService R lo se od tk cfg P L"
  for R :: "'s customer_auth_repo" and lo se od tk cfg P L and db :: "'s \<Rightarrow> redis_db"
proof (intro customer_sign_in.intro customer_sign_in_axioms.intro auth.with_fact, goal_cases)
  case (7 s d s')
  then have "aside db (rand_digit P)" "rand_digit P s = (d, s')"
    by (simp_all add: services_ok_def platform_okD)
  from aside_keeps [OF 7(1) this] show ?case .
next
  case (8 s n b s')
  then have "aside db (rand_Read P n)" "rand_Read P n s = (b, s')"
    by (simp_all add: services_ok_def platform_okD)
  from aside_keeps [OF 8(1) this] show ?case .
next
  case (9 s m x s')
  then have "platform_ok P db" "IssueAccess P L tk m s = (x, s')" by (simp_all add: services_ok_def)
  then have "ages (db s) (db s')" by (rule IssueAccess_ages)
  from ages_keeps [OF 9(1) this] show ?case .
next
  case (10 s p c ttl u s')
  then have "aside db (se p c ttl)" "se p c ttl s = (u, s')" by (simp_all add: services_ok_def)
  from aside_keeps [OF 10(1) this] show ?case .
next
  case (11 s i q s')
  then have "aside db (GetMember lo i)" "GetMember lo i s = (q, s')" by (simp_all add: services_ok_def)
  from aside_keeps [OF 11(1) this] show ?case .
next
  case (12 s p f r s')
  then have "aside db (UpsertMemberByPhone lo p f)" "UpsertMemberByPhone lo p f s = (r, s')"
    by (simp_all add: services_ok_def)
  from aside_keeps [OF 12(1) this] show ?case .
qed simp_all


section \<open>Properties\<close>

text \<open>Runs of the service: customers ask for codes and enter them, in any order, and time passes.\<close>

inductive sign_in_run :: "'s customer_service \<Rightarrow> ('s \<Rightarrow> redis_db) \<Rightarrow> 's \<Rightarrow> 's \<Rightarrow> bool" for S db s0 where
  begins: "sign_in_run S db s0 s0"
| waits: "sign_in_run S db s0 s \<Longrightarrow> ages (db s) (db s') \<Longrightarrow> sign_in_run S db s0 s'"
| requests: "sign_in_run S db s0 s \<Longrightarrow> RequestCode S raw ip s = (r, s') \<Longrightarrow> sign_in_run S db s0 s'"
| verifies: "sign_in_run S db s0 s \<Longrightarrow> VerifyCode S raw c f s = (v, s') \<Longrightarrow> sign_in_run S db s0 s'"

definition guesses_left :: "'s customer_auth_repo \<Rightarrow> redis_db \<Rightarrow> bool" where
  "guesses_left R d \<longleftrightarrow>
     (\<forall>p c. login_code R d p = Some c \<longrightarrow> 0 \<le> lc_Attempts c \<and> lc_Attempts c < maxCodeAttempts)"


text \<open>
  C29. Only the code that was sent signs in.  \<open>VerifyCode\<close> opens a session only for a valid phone
  number with a login code pending, and only when the keyed hash of that phone and the code entered
  is the stored one; a code sent to another phone, or none, never does.
\<close>

theorem sign_in_needs_code:
  assumes "auth_sound R lo se P db s"
    and "VerifyCode (NewCustomerService R lo se od tk cfg P L) raw c f s = (Inr sess, s')"
  shows "NormalizePhone raw \<noteq> '''' \<and> (\<exists>stored. login_code R (db s) (NormalizePhone raw) = Some stored
    \<and> lc_Hash stored = hex (hmac_sha256 P (cac_JWTSecret cfg) (NormalizePhone raw @ '':'' @ c)))"
  using signing_in.verify_needs_code [OF assms] by (simp add: hashCode_def)

text \<open>
  C31. A refresh token works once.  After a successful \<open>Refresh\<close> the same token is refused, also
  after whatever reads, deletions and expiries follow (the new token is assumed to have another
  digest: it is 32 random bytes).
\<close>

theorem refresh_single_use:
  assumes "auth_sound R lo se P db s" and "S = NewCustomerService R lo se od tk cfg P L"
    and "Refresh S t s = (Inr sess, s1)" and "hashToken S (sess_RefreshToken sess) \<noteq> hashToken S t"
    and "refresh_of R (db s2) \<subseteq>\<^sub>m refresh_of R (db s1)"
  shows "\<exists>e. fst (Refresh S t s2) = Inl e"
proof -
  have "refresh_of R (db s1) (hashToken S t) = None"
    using signing_in.refresh_uses_up [OF assms(1) assms(3) [unfolded assms(2)]] assms(2,4) by simp
  then have "refresh_of R (db s2) (hashToken S t) = None"
    using assms(5) by (metis domIff map_le_def)
  moreover have "auth_sound R lo se P db s2" using assms(1) auth_inv_any [of R db s s2] by simp
  ultimately show ?thesis
    unfolding assms(2) by (intro signing_in.refresh_needs_token)
qed

end
