(* ===== verification/Menu_Cache.thy ===== *)
theory Menu_Cache
  imports Redis_Bytes Encodings
begin

text \<open>
  The menu cache (internal/repository/menu_cache_repo.go): the JSON of a restaurant's menu under a
  key with a time to live, and per restaurant (or for all) the moment of the last invalidation, used
  to refuse a menu fetched before it.

  The interface \<open>MenuCacheRepository\<close> is the locale \<open>menu_cache\<close>.  A failed invalidation returns its
  error; the count that comes with it is left out.
\<close>

section \<open>Operations\<close>

record 's menu_cache_repo =
  mcr_redis :: "'s redis"
  mcr_Now :: "'s clock"

definition MenuCacheMaxTTL :: int where "MenuCacheMaxTTL = hour"
definition menuKeyPrefix :: string where "menuKeyPrefix = ''menu:restaurant:''"
definition menuInvalidatedPrefix :: string where "menuInvalidatedPrefix = ''menu:invalidated:''"
definition allRestaurants :: string where "allRestaurants = ''all''"

definition menu_Get :: "'s menu_cache_repo \<Rightarrow> string \<Rightarrow> ('s, string option) op" where
  "menu_Get R restaurantID s =
     (case GetBytes (mcr_redis R) (menuKeyPrefix @ restaurantID) s of
        (Inl e, s1) \<Rightarrow> (Inl (Wrapped ''menu cache get'' e), s1)
      | (Inr p, s1) \<Rightarrow> (Inr p, s1))"

text \<open>\<open>Set\<close> in its two halves: the check of the invalidation marks, and the write.\<close>

definition stale :: "string option list \<Rightarrow> int \<Rightarrow> bool" where
  "stale vals fetchedAt \<longleftrightarrow>
     list_ex (\<lambda>v. case v of None \<Rightarrow> False
       | Some t \<Rightarrow> (case parse_int t of Some ns \<Rightarrow> fetchedAt \<le> ns | None \<Rightarrow> False)) vals"

definition set_check :: "'s menu_cache_repo \<Rightarrow> string \<Rightarrow> int \<Rightarrow> ('s, bool) op" where
  "set_check R restaurantID fetchedAt s =
     (case ask (mcr_redis R) (MGET [menuInvalidatedPrefix @ restaurantID,
                                    menuInvalidatedPrefix @ allRestaurants]) as_list s of
        (Inl e, s1) \<Rightarrow> (Inl (Wrapped ''menu cache read invalidation marks'' e), s1)
      | (Inr vals, s1) \<Rightarrow> (Inr (stale vals fetchedAt), s1))"

definition set_write :: "'s menu_cache_repo \<Rightarrow> string \<Rightarrow> string \<Rightarrow> int \<Rightarrow> ('s, bool) op" where
  "set_write R restaurantID payload ttl s =
     (case SetBytes (mcr_redis R) (menuKeyPrefix @ restaurantID) payload ttl s of
        (Inl e, s1) \<Rightarrow> (Inl (Wrapped ''menu cache set'' e), s1)
      | (Inr _, s1) \<Rightarrow> (Inr True, s1))"

definition menu_Set :: "'s menu_cache_repo \<Rightarrow> string \<Rightarrow> string \<Rightarrow> int \<Rightarrow> int \<Rightarrow> ('s, bool) op" where
  "menu_Set R restaurantID payload ttl fetchedAt s =
     (if ttl \<le> 0 then (Inr False, s)
      else case set_check R restaurantID fetchedAt s of
             (Inl e, s1) \<Rightarrow> (Inl e, s1)
           | (Inr True, s1) \<Rightarrow> (Inr False, s1)
           | (Inr False, s1) \<Rightarrow> set_write R restaurantID payload (min ttl MenuCacheMaxTTL) s1)"

text \<open>\<open>Invalidate\<close>: the mark, then the deletion, of one key or of all by a SCAN loop that may not end.\<close>

definition inv_mark :: "'s menu_cache_repo \<Rightarrow> string \<Rightarrow> ('s, unit) op" where
  "inv_mark R restaurantID s =
     (let (t, s1) = mcr_Now R s;
          mark = (if restaurantID = '''' then allRestaurants else restaurantID)
      in case ask (mcr_redis R) (SET (menuInvalidatedPrefix @ mark) (format_int t) (2 * MenuCacheMaxTTL))
               as_ok s1 of
           (Inl e, s2) \<Rightarrow> (Inl (Wrapped ''mark menu invalidation'' e), s2)
         | (Inr _, s2) \<Rightarrow> (Inr (), s2))"

partial_function (option) scan_delete ::
  "'s redis \<Rightarrow> nat \<Rightarrow> nat \<Rightarrow> 's \<Rightarrow> ((go_error + nat) \<times> 's) option" where
  "scan_delete R cursor deleted s =
     (case ask R (SCAN cursor (menuKeyPrefix @ ''*'') 200) as_scan s of (r, s1) \<Rightarrow>
        (case (case r of Inr x \<Rightarrow> Inr x | Inl e \<Rightarrow> if errors_is e redis_Nil then Inr ([], 0) else Inl e) of
           Inl e \<Rightarrow> Some (Inl (Wrapped ''scan menu keys'' e), s1)
         | Inr (keys, nxt) \<Rightarrow>
             (case (if keys = [] then (Inr (), s1) else Del R keys s1) of
                (Inl e, s2) \<Rightarrow> Some (Inl (Wrapped ''delete menu keys'' e), s2)
              | (Inr _, s2) \<Rightarrow>
                  if nxt = 0 then Some (Inr (deleted + length keys), s2)
                  else scan_delete R nxt (deleted + length keys) s2)))"

definition Invalidate :: "'s menu_cache_repo \<Rightarrow> string \<Rightarrow> 's \<Rightarrow> ((go_error + nat) \<times> 's) option" where
  "Invalidate R restaurantID s =
     (case inv_mark R restaurantID s of
        (Inl e, s1) \<Rightarrow> Some (Inl e, s1)
      | (Inr _, s1) \<Rightarrow>
          if restaurantID \<noteq> '''' then
            Some (case Del (mcr_redis R) [menuKeyPrefix @ restaurantID] s1 of
                    (Inl e, s2) \<Rightarrow> (Inl e, s2) | (Inr _, s2) \<Rightarrow> (Inr 1, s2))
          else scan_delete (mcr_redis R) 0 0 s1)"

section \<open>The interface\<close>

text \<open>
  \<open>cached s i\<close> is the menu served for restaurant \<open>i\<close>, \<open>blocks s i f t\<close> that a menu fetched at \<open>f\<close> is
  refused for \<open>i\<close> at the moment \<open>t\<close>.
\<close>

locale menu_cache =
  fixes get :: "string \<Rightarrow> 's \<Rightarrow> (go_error + string option) \<times> 's"
    and set :: "string \<Rightarrow> string \<Rightarrow> int \<Rightarrow> int \<Rightarrow> 's \<Rightarrow> (go_error + bool) \<times> 's"
    and invalidate :: "string \<Rightarrow> 's \<Rightarrow> ((go_error + nat) \<times> 's) option"
    and inv :: "'s \<Rightarrow> bool"
    and clock :: "'s \<Rightarrow> int"
    and cached :: "'s \<Rightarrow> string \<Rightarrow> string option"
    and blocks :: "'s \<Rightarrow> string \<Rightarrow> int \<Rightarrow> int \<Rightarrow> bool"
  assumes get_keeps: "inv s \<Longrightarrow> get i s = (g, s') \<Longrightarrow>
      inv s' \<and> clock s \<le> clock s' \<and> cached s' \<subseteq>\<^sub>m cached s \<and> blocks s' = blocks s"
    and get_hit: "inv s \<Longrightarrow> get i s = (Inr (Some p), s') \<Longrightarrow> cached s i = Some p"
    and get_miss: "inv s \<Longrightarrow> get i s = (Inr None, s') \<Longrightarrow> cached s' i = None"
    and set_only: "inv s \<Longrightarrow> set i p ttl f s = (w, s') \<Longrightarrow> inv s' \<and> clock s \<le> clock s' \<and> blocks s' = blocks s
      \<and> (\<forall>j c. cached s' j = Some c \<longrightarrow> cached s j = Some c \<or> (j = i \<and> c = p))"
    and set_skipped: "inv s \<Longrightarrow> set i p ttl f s = (Inr False, s') \<Longrightarrow> cached s' \<subseteq>\<^sub>m cached s"
    and set_blocked: "inv s \<Longrightarrow> set i p ttl f s = (w, s') \<Longrightarrow>
      (\<And>t. clock s \<le> t \<Longrightarrow> t \<le> clock s' \<Longrightarrow> blocks s i f t) \<Longrightarrow>
      w \<noteq> Inr True \<and> cached s' \<subseteq>\<^sub>m cached s"
    and drop_keeps: "inv s \<Longrightarrow> invalidate i s = Some (d, s') \<Longrightarrow>
      inv s' \<and> clock s \<le> clock s' \<and> cached s' \<subseteq>\<^sub>m cached s"
    and drop_gone: "inv s \<Longrightarrow> invalidate i s = Some (Inr n, s') \<Longrightarrow> i = '''' \<or> i = j \<Longrightarrow> cached s' j = None"
    and drop_blocks: "inv s \<Longrightarrow> invalidate i s = Some (Inr n, s') \<Longrightarrow> i = '''' \<or> i = j \<Longrightarrow>
      f \<le> clock s \<Longrightarrow> 0 \<le> clock s \<Longrightarrow> clock s' < 2 ^ 63 \<Longrightarrow> t < clock s + 2 * hour \<Longrightarrow> blocks s' j f t"
begin

text \<open>A menu fetched before an invalidation does not come back after it, for two hours.\<close>

lemma no_stale_write:
  assumes "inv s" and "invalidate i s = Some (Inr n, s1)" and "i = '''' \<or> i = j"
    and "f \<le> clock s" and "0 \<le> clock s" and "clock s1 < 2 ^ 63"
    and "inv s2" and "blocks s2 j f = blocks s1 j f"
    and "set j p ttl f s2 = (w, s3)" and "clock s3 < clock s + 2 * hour"
  shows "w \<noteq> Inr True \<and> cached s3 \<subseteq>\<^sub>m cached s2"
  using drop_blocks [OF assms(1-6)] assms(8,10) by (intro set_blocked [OF assms(7,9)]) auto

end

section \<open>The repository provides it\<close>

definition cached_in :: "redis_db \<Rightarrow> string \<Rightarrow> string option" where
  "cached_in d i = (case live d (menuKeyPrefix @ i) of Some (VStr p) \<Rightarrow> Some p | _ \<Rightarrow> None)"

definition mark_blocks :: "redis_db \<Rightarrow> string \<Rightarrow> int \<Rightarrow> int \<Rightarrow> bool" where
  "mark_blocks d k f t \<longleftrightarrow>
     (\<exists>v e ns. entry d k = Some (VStr v, e) \<and> (\<forall>x. e = Some x \<longrightarrow> t < x)
        \<and> parse_int v = Some ns \<and> f \<le> ns)"

definition blocks_in :: "redis_db \<Rightarrow> string \<Rightarrow> int \<Rightarrow> int \<Rightarrow> bool" where
  "blocks_in d i f t \<longleftrightarrow> mark_blocks d (menuInvalidatedPrefix @ i) f t
     \<or> mark_blocks d (menuInvalidatedPrefix @ allRestaurants) f t"

definition menu_inv :: "'s menu_cache_repo \<Rightarrow> ('s \<Rightarrow> redis_db) \<Rightarrow> 's \<Rightarrow> bool" where
  "menu_inv R db s \<longleftrightarrow> redis_ok (mcr_redis R) db \<and> clock_ok (mcr_Now R) db"

lemma menu_keys [simp]:
  "menuKeyPrefix @ i \<noteq> menuInvalidatedPrefix @ j" "menuInvalidatedPrefix @ j \<noteq> menuKeyPrefix @ i"
  by (simp_all add: menuKeyPrefix_def menuInvalidatedPrefix_def)

lemma cached_in_shrinks:
  "shrinks d d' (menuKeyPrefix @ i) \<Longrightarrow> cached_in d' i = Some p \<Longrightarrow> cached_in d i = Some p"
  by (auto simp: cached_in_def split: option.splits stored.splits dest: shrinks_live)

lemma cached_in_mono:
  assumes "\<And>i. shrinks d d' (menuKeyPrefix @ i)"
  shows "cached_in d' \<subseteq>\<^sub>m cached_in d"
  unfolding map_le_def
proof
  fix i assume "i \<in> dom (cached_in d')"
  then obtain p where "cached_in d' i = Some p" by blast
  with cached_in_shrinks [OF assms] show "cached_in d' i = cached_in d i" by simp
qed

lemma blocks_in_entry:
  assumes "\<And>i. entry d' (menuInvalidatedPrefix @ i) = entry d (menuInvalidatedPrefix @ i)"
  shows "blocks_in d' = blocks_in d"
  by (intro ext) (simp add: blocks_in_def mark_blocks_def assms)

lemma ages_cached: "ages d d' \<Longrightarrow> cached_in d' \<subseteq>\<^sub>m cached_in d \<and> blocks_in d' = blocks_in d"
  using cached_in_mono ages_shrinks blocks_in_entry by (metis ages_def)

lemma exec_owed: "\<not> is_scan c \<Longrightarrow> owed (snd (exec c d)) = owed d"
  by (cases c) (auto simp: put_def drop_keys_def split: option.split stored.split)

lemma served_owed:
  assumes "served c d r d'" and "\<not> is_scan c"
  shows "owed d' = owed d"
  using assms
proof (rule served_cases)
  fix t assume "exec c (at_time t d) = (r, d')"
  with exec_owed [OF assms(2), of "at_time t d"] show ?thesis by (simp add: at_time_def)
next
  fix t assume "d' = snd (exec c (at_time t d))"
  with exec_owed [OF assms(2), of "at_time t d"] show ?thesis by (simp add: at_time_def)
qed (simp add: at_time_def)

lemma Del_owed:
  assumes ok: "redis_ok R db" and "Del R ks s = (r, s')"
  shows "owed (db s') = owed (db s)"
proof (cases "ks = []")
  case False
  have "served (DEL ks) (db s) (fst (rd R (DEL ks) s)) (db (snd (rd R (DEL ks) s)))"
    by (rule redis_ok_rd [OF ok])
  then have "owed (db (snd (rd R (DEL ks) s))) = owed (db s)"
    by (rule served_owed) simp
  with False assms(2) show ?thesis
    by (auto simp: Del_def ask_def split: prod.splits sum.splits)
qed (use assms(2) in \<open>simp add: Del_def\<close>)

text \<open>One SCAN: it changes no key; an answer accounts for what it owes.\<close>

lemma scan_answer_db:
  assumes "scan_answer c pat d r d'"
  obtains ks nxt where "r = Inr (RScan ks nxt)" "data d' = data d" "now d' = now d"
    "\<forall>k \<in> set ks. has_prefix (butlast pat) k" "\<And>k. has_prefix (butlast pat) k \<Longrightarrow> live d k \<noteq> None \<Longrightarrow> c = 0 \<or> k \<in> owed d c \<Longrightarrow>
       k \<in> set ks \<or> (nxt \<noteq> 0 \<and> k \<in> owed d' nxt)"
proof -
  let ?due = "{k \<in> {k. has_prefix (butlast pat) k \<and> (c = 0 \<or> k \<in> owed d c)}. live d k \<noteq> None}"
  obtain ks nxt where r: "r = Inr (RScan ks nxt)"
    and pre: "\<forall>k \<in> set ks. has_prefix (butlast pat) k"
    and d': "if nxt = 0 then d' = d \<and> ?due \<subseteq> set ks
             else d' = d\<lparr>owed := (owed d)(nxt := ?due - set ks)\<rparr>"
    using assms by (auto simp: scan_answer_def Let_def)
  show thesis
  proof (rule that [OF r])
    show "data d' = data d" "now d' = now d" using d' by (simp_all split: if_splits)
    show "\<forall>k \<in> set ks. has_prefix (butlast pat) k" by (rule pre)
    show "k \<in> set ks \<or> (nxt \<noteq> 0 \<and> k \<in> owed d' nxt)"
      if "has_prefix (butlast pat) k" "live d k \<noteq> None" "c = 0 \<or> k \<in> owed d c" for k
      using d' that by (auto split: if_splits)
  qed
qed

lemma served_SCAN:
  assumes "served (SCAN c pat n) d r d'"
  shows "ages d d' \<and> (\<forall>y. r = Inr y \<longrightarrow> (\<exists>ks nxt. y = RScan ks nxt
    \<and> (\<forall>k \<in> set ks. has_prefix (butlast pat) k)
    \<and> (\<forall>k. has_prefix (butlast pat) k \<longrightarrow> live d' k \<noteq> None \<longrightarrow> c = 0 \<or> k \<in> owed d c \<longrightarrow>
         k \<in> set ks \<or> (nxt \<noteq> 0 \<and> k \<in> owed d' nxt))))"
proof -
  obtain t where t: "now d \<le> t" and cases: "scan_answer c pat (at_time t d) r d'
      \<or> (\<exists>e. r = Inl e) \<and> (d' = at_time t d \<or> (\<exists>r'. scan_answer c pat (at_time t d) r' d'))"
    using assms by (auto simp: served_def)
  have ag: "ages d d'" if "scan_answer c pat (at_time t d) r' d'" for r'
    using that t by (rule_tac scan_answer_db [OF that]) (auto simp: ages_def entry_def at_time_def)
  have owe: "\<exists>ks nxt. y = RScan ks nxt
    \<and> (\<forall>k \<in> set ks. has_prefix (butlast pat) k)
    \<and> (\<forall>k. has_prefix (butlast pat) k \<longrightarrow> live d' k \<noteq> None \<longrightarrow> c = 0 \<or> k \<in> owed d c \<longrightarrow>
         k \<in> set ks \<or> (nxt \<noteq> 0 \<and> k \<in> owed d' nxt))"
    if a: "scan_answer c pat (at_time t d) (Inr y) d'" for y
  proof (rule scan_answer_db [OF a])
    fix ks nxt
    assume "Inr y = Inr (RScan ks nxt)" "\<forall>k \<in> set ks. has_prefix (butlast pat) k" and same: "data d' = data (at_time t d)" "now d' = now (at_time t d)"
      and owes: "\<And>k. has_prefix (butlast pat) k \<Longrightarrow> live (at_time t d) k \<noteq> None \<Longrightarrow>
        c = 0 \<or> k \<in> owed (at_time t d) c \<Longrightarrow> k \<in> set ks \<or> (nxt \<noteq> 0 \<and> k \<in> owed d' nxt)"
    moreover have "live d' k = live (at_time t d) k" for k
      using same by (auto simp: live_def entry_def split: option.split)
    moreover have "owed (at_time t d) = owed d" by (simp add: at_time_def)
    ultimately show ?thesis by auto
  qed
  from cases ag owe t show ?thesis by auto
qed

lemma as_scan_Inr: "as_scan r = Inr (ks, n) \<longleftrightarrow> r = Inr (RScan ks n)"
  by (cases r rule: as_scan.cases) auto

lemma as_scan_nil: "as_scan r = Inl e \<Longrightarrow> errors_is e redis_Nil \<Longrightarrow> r = Inr RNil"
  by (cases r rule: as_scan.cases) (auto simp: odd_reply_def)

definition menu_key :: "string \<Rightarrow> bool" where
  "menu_key k \<longleftrightarrow> has_prefix menuKeyPrefix k"

text \<open>
  The loop removes only; when it ends without an error every menu key the iteration owed is gone.
\<close>

lemmas scan_delete_induct = scan_delete.raw_induct [rotated, consumes 1, case_names step]

lemma scan_delete_db:
  assumes "scan_delete R c deleted s = Some y" and "redis_ok R db"
    and "\<And>k. menu_key k \<Longrightarrow> live (db s) k \<noteq> None \<Longrightarrow> c = 0 \<or> k \<in> owed (db s) c"
  shows "(\<forall>k. shrinks (db s) (db (snd y)) k)
    \<and> (\<forall>k. \<not> menu_key k \<longrightarrow> entry (db (snd y)) k = entry (db s) k)
    \<and> (\<forall>n. fst y = Inr n \<longrightarrow> (\<forall>k. menu_key k \<longrightarrow> live (db (snd y)) k = None))"
  using assms
proof (induction rule: scan_delete_induct)
  case (step rec R c deleted s y)
  have pat: "butlast (menuKeyPrefix @ ''*'') = menuKeyPrefix" by (simp add: menuKeyPrefix_def)
  obtain r s1 where q: "rd R (SCAN c (menuKeyPrefix @ ''*'') 200) s = (r, s1)"
    by (cases "rd R (SCAN c (menuKeyPrefix @ ''*'') 200) s")
  have sv: "served (SCAN c (menuKeyPrefix @ ''*'') 200) (db s) r (db s1)"
    using redis_ok_rd [OF step(3), of "SCAN c (menuKeyPrefix @ ''*'') 200" s] q by simp
  note S = served_SCAN [OF sv, unfolded pat]
  show ?case
  proof (cases "as_scan r")
    case (Inl e)
    have "r \<noteq> Inr RNil" using S by auto
    with Inl have ne: "\<not> errors_is e redis_Nil" using as_scan_nil by blast
    with step(2) q Inl have "y = (Inl (Wrapped ''scan menu keys'' e), s1)"
      by (simp add: ask_def)
    with S show ?thesis by (simp add: ages_shrinks ages_def)
  next
    case (Inr kn)
    obtain keys nxt where kn: "kn = (keys, nxt)" by (cases kn)
    with Inr have r: "r = Inr (RScan keys nxt)" by (simp add: as_scan_Inr)
    have owes: "k \<in> set keys \<or> (nxt \<noteq> 0 \<and> k \<in> owed (db s1) nxt)" if "menu_key k" "live (db s1) k \<noteq> None" for k
    proof -
      have "live (db s) k \<noteq> None" using S ages_dead [of "db s" "db s1" k] that(2) by auto
      with step(4) [OF that(1)] S r that show ?thesis by (auto simp: menu_key_def)
    qed
    obtain x s2 where d: "(if keys = [] then (Inr (), s1) else Del R keys s1) = (x, s2)"
      by (metis prod.exhaust)
    have D: "(\<forall>k. shrinks (db s1) (db s2) k \<and> (k \<notin> set keys \<longrightarrow> entry (db s2) k = entry (db s1) k))
        \<and> (x = Inr () \<longrightarrow> (\<forall>k \<in> set keys. entry (db s2) k = None)) \<and> owed (db s2) = owed (db s1)"
      using d Del_shrinks [OF step(3), of keys s1 x s2] Del_owed [OF step(3), of keys s1 x s2]
      by (auto split: if_splits)
    have sh: "shrinks (db s) (db s2) k" for k
      using S D shrinks_trans ages_shrinks by blast
    have "\<forall>k \<in> set keys. menu_key k" using S r by (auto simp: menu_key_def)
    then have keep: "entry (db s2) k = entry (db s) k" if "\<not> menu_key k" for k
      using S D that unfolding ages_def by metis
    show ?thesis
    proof (cases x)
      case (Inl e)
      with step(2) q r d have "y = (Inl (Wrapped ''delete menu keys'' e), s2)"
        by (simp add: ask_def)
      with sh keep show ?thesis by simp
    next
      case x: (Inr u)
      have left: "nxt \<noteq> 0 \<and> k \<in> owed (db s2) nxt" if "menu_key k" "live (db s2) k \<noteq> None" for k
      proof -
        have "k \<notin> set keys" using D x that(2) by (auto simp: live_def)
        moreover have "live (db s1) k \<noteq> None" using D that(2) shrinks_live by (metis not_Some_eq)
        ultimately show ?thesis using owes [OF that(1)] D by auto
      qed
      show ?thesis
      proof (cases "nxt = 0")
        case True
        with step(2) q r d x have "y = (Inr (deleted + length keys), s2)"
          by (simp add: ask_def)
        moreover have "live (db s2) k = None" if "menu_key k" for k
          using left [OF that] True by blast
        ultimately show ?thesis using sh keep by simp
      next
        case False
        with step(2) q r d x have "rec R nxt (deleted + length keys) s2 = Some y"
          by (simp add: ask_def)
        note IH = step(1) [OF this step(3)]
        have IH: "(\<forall>k. shrinks (db s2) (db (snd y)) k)
            \<and> (\<forall>k. \<not> menu_key k \<longrightarrow> entry (db (snd y)) k = entry (db s2) k)
            \<and> (\<forall>n. fst y = Inr n \<longrightarrow> (\<forall>k. menu_key k \<longrightarrow> live (db (snd y)) k = None))"
          by (rule IH) (use left in blast)
        with sh keep shrinks_trans show ?thesis by fastforce
      qed
    qed
  qed
qed


text \<open>The marks: what an invalidation leaves behind, and what the check reads.\<close>

lemma mark_live:
  assumes "mark_blocks d k f (now d)"
  shows "\<exists>v ns. live d k = Some (VStr v) \<and> parse_int v = Some ns \<and> f \<le> ns"
  using assms by (auto simp: mark_blocks_def live_def split: option.split)

lemma stale_marks:
  assumes "blocks_in d i f (now d)"
  shows "stale (map (\<lambda>k. case live d k of Some (VStr v) \<Rightarrow> Some v | _ \<Rightarrow> None)
    [menuInvalidatedPrefix @ i, menuInvalidatedPrefix @ allRestaurants]) f"
  using assms mark_live [of d _ f] unfolding blocks_in_def stale_def by fastforce

lemma set_check_db:
  assumes ok: "redis_ok (mcr_redis R) db" and "set_check R i f s = (w, s')"
  shows "ages (db s) (db s') \<and> (w = Inr False \<longrightarrow> \<not> blocks_in (db s') i f (now (db s')))"
proof -
  let ?ks = "[menuInvalidatedPrefix @ i, menuInvalidatedPrefix @ allRestaurants]"
  obtain r s1 where q: "rd (mcr_redis R) (MGET ?ks) s = (r, s1)"
    by (cases "rd (mcr_redis R) (MGET ?ks) s")
  have sv: "served (MGET ?ks) (db s) r (db s1)"
    using redis_ok_rd [OF ok, of "MGET ?ks" s] q by simp
  from assms(2) q have s': "s' = s1"
    by (auto simp: set_check_def ask_def split: sum.splits)
  have "\<not> blocks_in (db s1) i f (now (db s1))" if w: "w = Inr False"
  proof
    assume b: "blocks_in (db s1) i f (now (db s1))"
    from assms(2) q w obtain vals where "r = Inr (RList vals)" "\<not> stale vals f"
      by (auto simp: set_check_def ask_def as_list_Inr split: sum.splits)
    with served_MGET [OF sv] stale_marks [OF b] show False by auto
  qed
  with served_MGET [OF sv] s' show ?thesis by simp
qed

lemma set_write_db:
  assumes ok: "redis_ok (mcr_redis R) db" and "set_write R i p ttl s = (w, s')"
  shows "now (db s) \<le> now (db s') \<and> blocks_in (db s') = blocks_in (db s) \<and> w \<noteq> Inr False
    \<and> (\<forall>j c. cached_in (db s') j = Some c \<longrightarrow> cached_in (db s) j = Some c \<or> (j = i \<and> c = p))"
proof -
  obtain g s1 where q: "SetBytes (mcr_redis R) (menuKeyPrefix @ i) p ttl s = (g, s1)"
    by (cases "SetBytes (mcr_redis R) (menuKeyPrefix @ i) p ttl s")
  note D = SetBytes_db [OF ok q]
  from assms(2) q have s': "s' = s1" and w: "w \<noteq> Inr False"
    by (auto simp: set_write_def split: sum.splits)
  have "blocks_in (db s1) = blocks_in (db s)"
    using D by (intro blocks_in_entry) (metis menu_keys(2))
  moreover have "cached_in (db s) j = Some c \<or> (j = i \<and> c = p)" if "cached_in (db s1) j = Some c" for j c
  proof (cases "entry (db s1) (menuKeyPrefix @ j) = entry (db s) (menuKeyPrefix @ j)")
    case True
    with D that cached_in_shrinks [of "db s" "db s1" j c] show ?thesis by (simp add: shrinks_def)
  next
    case False
    with D have "j = i" by (metis same_append_eq)
    moreover from this D False obtain e where "entry (db s1) (menuKeyPrefix @ i) = Some (VStr p, e)" by blast
    with that \<open>j = i\<close> have "c = p"
      by (auto simp: cached_in_def live_def split: option.splits if_splits)
    ultimately show ?thesis by simp
  qed
  ultimately show ?thesis using D s' w by blast
qed

lemma set_write_stored:
  assumes ok: "redis_ok (mcr_redis R) db" and "set_write R i p ttl s = (Inr True, s')" and "0 < ttl"
  shows "\<exists>t. t \<le> now (db s') \<and> entry (db s') (menuKeyPrefix @ i) = Some (VStr p, Some (t + in_millis ttl))"
proof -
  obtain r s1 where q: "rd (mcr_redis R) (SET (menuKeyPrefix @ i) p ttl) s = (r, s1)"
    by (cases "rd (mcr_redis R) (SET (menuKeyPrefix @ i) p ttl) s")
  from assms(2) q have s': "s' = s1" and "\<exists>x. r = Inr x"
    by (auto simp: set_write_def SetBytes_def ask_def split: sum.splits elim: as_ok.elims)
  with redis_ok_rd [OF ok, of "SET (menuKeyPrefix @ i) p ttl" s] q obtain t
    where "db s1 = put (menuKeyPrefix @ i) (VStr p) (if ttl \<le> 0 then None else Some (t + in_millis ttl)) (at_time t (db s))"
    by (auto elim: served_SET)
  with s' assms(3) show ?thesis by auto
qed

lemma inv_mark_db:
  assumes ok: "menu_inv R db s" and "inv_mark R i s = (w, s')"
  shows "now (db s) \<le> now (db s') \<and> cached_in (db s') \<subseteq>\<^sub>m cached_in (db s)
    \<and> (w = Inr () \<longrightarrow> (\<exists>t x. now (db s) \<le> t \<and> t \<le> now (db s') \<and> t + 2 * hour \<le> x
        \<and> entry (db s') (menuInvalidatedPrefix @ (if i = '''' then allRestaurants else i))
            = Some (VStr (format_int t), Some x)))"
proof -
  let ?k = "menuInvalidatedPrefix @ (if i = '''' then allRestaurants else i)"
  from ok have R: "redis_ok (mcr_redis R) db" and C: "clock_ok (mcr_Now R) db"
    by (simp_all add: menu_inv_def)
  obtain t s1 where n: "mcr_Now R s = (t, s1)" by (cases "mcr_Now R s")
  obtain r s2 where q: "rd (mcr_redis R) (SET ?k (format_int t) (2 * MenuCacheMaxTTL)) s1 = (r, s2)"
    by (cases "rd (mcr_redis R) (SET ?k (format_int t) (2 * MenuCacheMaxTTL)) s1")
  have sv: "served (SET ?k (format_int t) (2 * MenuCacheMaxTTL)) (db s1) r (db s2)"
    using redis_ok_rd [OF R, of "SET ?k (format_int t) (2 * MenuCacheMaxTTL)" s1] q by simp
  from assms(2) n q have s': "s' = s2" and w: "w = Inr () \<Longrightarrow> \<exists>x. r = Inr x"
    by (auto simp: inv_mark_def ask_def Let_def split: sum.splits elim: as_ok.elims)
  have t: "now (db s) \<le> t" "db s1 = at_time t (db s)" using clock_okD [OF C n] by auto
  have le: "t \<le> now (db s2)" using served_now [OF sv] t by simp
  have e: "entry (db s2) k = entry (db s) k" if "k \<noteq> ?k" for k
    using served_entry [OF sv, of k] that t by (simp add: written_simps)
  have "cached_in (db s2) \<subseteq>\<^sub>m cached_in (db s)"
    by (rule cached_in_mono) (use e [OF menu_keys(1)] t le in \<open>simp add: shrinks_def\<close>)
  moreover have "\<exists>t x. now (db s) \<le> t \<and> t \<le> now (db s2) \<and> t + 2 * hour \<le> x
        \<and> entry (db s2) ?k = Some (VStr (format_int t), Some x)" if "w = Inr ()"
  proof -
    from w [OF that] obtain y where "r = Inr y" by blast
    with sv obtain t' where "now (db s1) \<le> t'"
      and "db s2 = put ?k (VStr (format_int t)) (Some (t' + in_millis (2 * MenuCacheMaxTTL))) (at_time t' (db s1))"
      by (auto simp: MenuCacheMaxTTL_def duration_defs elim: served_SET)
    with t le show ?thesis
      by (intro exI [of _ t] exI [of _ "t' + in_millis (2 * MenuCacheMaxTTL)"])
         (simp add: MenuCacheMaxTTL_def in_millis_def duration_defs)
  qed
  ultimately show ?thesis using t le s' by auto
qed


lemma menu_Set_cases:
  assumes "menu_Set R i p ttl f s = (w, s')"
  obtains "w = Inr False" "s' = s"
  | s1 c where "0 < ttl" "set_check R i f s = (c, s1)" "c \<noteq> Inr False" "s' = s1" "w \<noteq> Inr True"
  | s1 where "0 < ttl" "set_check R i f s = (Inr False, s1)"
      "set_write R i p (min ttl MenuCacheMaxTTL) s1 = (w, s')"
proof -
  obtain c s1 where q: "set_check R i f s = (c, s1)" by (cases "set_check R i f s")
  from assms q that show thesis
    by (cases "ttl \<le> 0") (auto simp: menu_Set_def split: sum.splits bool.splits)
qed

lemma Invalidate_db:
  assumes ok: "menu_inv R db s" and "Invalidate R i s = Some (d, s')"
  shows "now (db s) \<le> now (db s') \<and> cached_in (db s') \<subseteq>\<^sub>m cached_in (db s)
    \<and> (\<forall>n. d = Inr n \<longrightarrow> (\<forall>j. i = '''' \<or> i = j \<longrightarrow> cached_in (db s') j = None)
      \<and> (\<exists>t x. now (db s) \<le> t \<and> t \<le> now (db s') \<and> t + 2 * hour \<le> x
        \<and> entry (db s') (menuInvalidatedPrefix @ (if i = '''' then allRestaurants else i))
            = Some (VStr (format_int t), Some x)))"
proof -
  let ?k = "menuInvalidatedPrefix @ (if i = '''' then allRestaurants else i)"
  obtain m s1 where 1: "inv_mark R i s = (m, s1)" by (cases "inv_mark R i s")
  note M = inv_mark_db [OF ok 1]
  from ok have R: "redis_ok (mcr_redis R) db" by (simp add: menu_inv_def)
  have step: "cached_in (db s') \<subseteq>\<^sub>m cached_in (db s) \<and> now (db s) \<le> now (db s') \<and> now (db s1) \<le> now (db s')"
    if "\<And>k. shrinks (db s1) (db s') k"
    using M cached_in_mono [of "db s1" "db s'"] that map_le_trans that [of ?k]
    unfolding shrinks_def by (meson order_trans)
  show ?thesis
  proof (cases m)
    case (Inl e)
    with assms(2) 1 M show ?thesis by (auto simp: Invalidate_def)
  next
    case m: (Inr u)
    show ?thesis
    proof (cases "i = ''''")
      case False
      obtain r s2 where q: "Del (mcr_redis R) [menuKeyPrefix @ i] s1 = (r, s2)"
        by (cases "Del (mcr_redis R) [menuKeyPrefix @ i] s1")
      from assms(2) 1 m q False have s': "s' = s2" and d: "\<And>n. d = Inr n \<Longrightarrow> r = Inr ()"
        by (auto simp: Invalidate_def split: sum.splits)
      note D = Del_shrinks [OF R q]
      have "cached_in (db s2) i = None" "entry (db s2) ?k = entry (db s1) ?k" if "r = Inr ()"
        using D that by (auto simp: cached_in_def live_def)
      with step D s' d M m False show ?thesis by fastforce
    next
      case True
      with assms(2) 1 m have q: "scan_delete (mcr_redis R) 0 0 s1 = Some (d, s')"
        by (simp add: Invalidate_def)
      have D: "(\<forall>k. shrinks (db s1) (db s') k)
          \<and> (\<forall>k. \<not> menu_key k \<longrightarrow> entry (db s') k = entry (db s1) k)
          \<and> (\<forall>n. d = Inr n \<longrightarrow> (\<forall>k. menu_key k \<longrightarrow> live (db s') k = None))"
        using scan_delete_db [OF q R] by simp
      have "menu_key (menuKeyPrefix @ j)" "\<not> menu_key ?k" for j
        by (auto simp: menu_key_def menuKeyPrefix_def menuInvalidatedPrefix_def has_prefix_def)
      then have "entry (db s') ?k = entry (db s1) ?k"
        and "\<And>n j. d = Inr n \<Longrightarrow> cached_in (db s') j = None"
        using D by (auto simp: cached_in_def)
      with step D M m show ?thesis by fastforce
    qed
  qed
qed


lemma menu_inv_any: "menu_inv R db s \<Longrightarrow> menu_inv R db s'"
  by (simp add: menu_inv_def)

lemma menu_Set_db:
  assumes ok: "menu_inv R db s" and "menu_Set R i p ttl f s = (w, s')"
  shows "now (db s) \<le> now (db s') \<and> blocks_in (db s') = blocks_in (db s)
    \<and> (\<forall>j c. cached_in (db s') j = Some c \<longrightarrow> cached_in (db s) j = Some c \<or> (j = i \<and> c = p))
    \<and> (w = Inr False \<longrightarrow> cached_in (db s') \<subseteq>\<^sub>m cached_in (db s))
    \<and> ((\<exists>t. now (db s) \<le> t \<and> t \<le> now (db s') \<and> \<not> blocks_in (db s) i f t)
       \<or> (w \<noteq> Inr True \<and> cached_in (db s') \<subseteq>\<^sub>m cached_in (db s)))"
proof -
  from ok have R: "redis_ok (mcr_redis R) db" by (simp add: menu_inv_def)
  from assms(2) show ?thesis
  proof (cases rule: menu_Set_cases)
    case (2 s1 c)
    note A = set_check_db [OF R 2(2)]
    have C: "cached_in (db s1) \<subseteq>\<^sub>m cached_in (db s) \<and> blocks_in (db s1) = blocks_in (db s)"
      using A ages_cached by blast
    moreover have "now (db s) \<le> now (db s1)" using A by (simp add: ages_def)
    ultimately show ?thesis using 2 by (auto simp: map_le_def dom_def)
  next
    case (3 s1)
    note A = set_check_db [OF R 3(2)] and W = set_write_db [OF R 3(3)]
    have C: "cached_in (db s1) \<subseteq>\<^sub>m cached_in (db s) \<and> blocks_in (db s1) = blocks_in (db s)"
      using A ages_cached by blast
    then have "cached_in (db s1) j = Some c \<Longrightarrow> cached_in (db s) j = Some c" for j c
      by (auto simp: map_le_def dom_def)
    moreover have "now (db s) \<le> now (db s1)" using A by (simp add: ages_def)
    ultimately show ?thesis using W A C by (intro conjI) (auto intro: exI [of _ "now (db s1)"])
  qed auto
qed

text \<open>\<open>blocks_in\<close> as used by the interface: a mark for \<open>i\<close> or for all, younger than two hours.\<close>

interpretation cache: menu_cache
  "menu_Get R" "menu_Set R" "Invalidate R" "menu_inv R db" "\<lambda>s. now (db s)"
  "\<lambda>s. cached_in (db s)" "\<lambda>s. blocks_in (db s)"
  for R :: "'s menu_cache_repo" and db :: "'s \<Rightarrow> redis_db"
proof (unfold_locales, goal_cases)
  case (1 s i g s')
  then obtain x where "GetBytes (mcr_redis R) (menuKeyPrefix @ i) s = (x, s')"
    by (auto simp: menu_Get_def split: prod.splits sum.splits)
  with 1 GetBytes_db [of "mcr_redis R" db "menuKeyPrefix @ i" s x s'] have "ages (db s) (db s')"
    by (auto simp: menu_inv_def)
  with ages_cached menu_inv_any [OF 1(1)] show ?case by (auto simp: ages_def)
next
  case (2 s i p s')
  then have "GetBytes (mcr_redis R) (menuKeyPrefix @ i) s = (Inr (Some p), s')"
    by (auto simp: menu_Get_def split: prod.splits sum.splits)
  with 2 GetBytes_db [of "mcr_redis R" db] have "ages (db s) (db s')" "cached_in (db s') i = Some p"
    by (auto simp: menu_inv_def cached_in_def)
  with ages_shrinks cached_in_shrinks show ?case by blast
next
  case (3 s i s')
  then have "GetBytes (mcr_redis R) (menuKeyPrefix @ i) s = (Inr None, s')"
    by (auto simp: menu_Get_def split: prod.splits sum.splits)
  with 3 GetBytes_db [of "mcr_redis R" db] show ?case by (auto simp: menu_inv_def cached_in_def)
next
  case (4 s i p ttl f w s')
  with menu_Set_db [OF 4] menu_inv_any [OF 4(1), of s'] show ?case by simp
next
  case (5 s i p ttl f s')
  with menu_Set_db [OF 5] show ?case by simp
next
  case (6 s i p ttl f w s')
  then show ?case using menu_Set_db [OF 6(1,2)] by blast
next
  case (7 s i d s')
  with Invalidate_db [OF 7] menu_inv_any [OF 7(1), of s'] show ?case by simp
next
  case (8 s i n s' j)
  with Invalidate_db [OF 8(1,2)] show ?case by blast
next
  case (9 s i n s' j f t)
  obtain u x where u: "now (db s) \<le> u" "u \<le> now (db s')" "u + 2 * hour \<le> x"
    and e: "entry (db s') (menuInvalidatedPrefix @ (if i = '''' then allRestaurants else i))
        = Some (VStr (format_int u), Some x)"
    using Invalidate_db [OF 9(1,2)] by blast
  have "parse_int (format_int u) = Some u" using u 9 by (intro parse_format) auto
  with u e 9 have "mark_blocks (db s') (menuInvalidatedPrefix @ (if i = '''' then allRestaurants else i)) f t"
    unfolding mark_blocks_def by (intro exI [of _ "format_int u"] exI [of _ "Some x"] exI [of _ u]) auto
  with 9(3) show ?case by (auto simp: blocks_in_def split: if_splits)
qed


section \<open>Properties\<close>

text \<open>
  What other requests do to the cache meanwhile: reads, and writes by \<open>Set\<close>; of restaurant \<open>j\<close> only
  menus fetched at \<open>f\<close> or earlier are written.
\<close>

inductive menu_traffic :: "'s menu_cache_repo \<Rightarrow> string \<Rightarrow> int \<Rightarrow> 's \<Rightarrow> 's \<Rightarrow> bool"
  for R :: "'s menu_cache_repo" and j :: string and f :: int and s0 :: 's where
  quiet: "menu_traffic R j f s0 s0"
| reads: "menu_traffic R j f s0 s \<Longrightarrow> menu_Get R i s = (g, s') \<Longrightarrow> menu_traffic R j f s0 s'"
| writes: "menu_traffic R j f s0 s \<Longrightarrow> menu_Set R i p ttl fetchedAt s = (w, s') \<Longrightarrow>
    (i = j \<Longrightarrow> fetchedAt \<le> f) \<Longrightarrow> menu_traffic R j f s0 s'"

lemma blocks_in_earlier: "blocks_in d j f t \<Longrightarrow> f' \<le> f \<Longrightarrow> blocks_in d j f' t"
  unfolding blocks_in_def mark_blocks_def by fastforce

lemma menu_traffic_blocked:
  assumes "menu_traffic R j f s1 s2" and ok: "menu_inv R db s1"
    and "cached_in (db s1) j = None" and "\<And>t. t \<le> now (db s2) \<Longrightarrow> blocks_in (db s1) j f t"
  shows "cached_in (db s2) j = None \<and> blocks_in (db s2) = blocks_in (db s1) \<and> now (db s1) \<le> now (db s2)"
  using assms(1,4)
proof induction
  case quiet
  with assms(3) show ?case by simp
next
  case (reads s i g s')
  note G = cache.get_keeps [OF menu_inv_any [OF ok, of s] reads.hyps(2)]
  with reads have IH: "cached_in (db s) j = None \<and> blocks_in (db s) = blocks_in (db s1) \<and> now (db s1) \<le> now (db s)"
    by (meson order_trans)
  then have "cached_in (db s') j = None"
    using G by (metis domIff map_le_def)
  with IH G show ?case by auto
next
  case (writes s i p ttl fetchedAt w s')
  note W = cache.set_only [OF menu_inv_any [OF ok, of s] writes.hyps(2)]
  with writes have IH: "cached_in (db s) j = None \<and> blocks_in (db s) = blocks_in (db s1) \<and> now (db s1) \<le> now (db s)"
    by (meson order_trans)
  have "cached_in (db s') j = None"
  proof (cases "i = j")
    case True
    have "w \<noteq> Inr True \<and> cached_in (db s') \<subseteq>\<^sub>m cached_in (db s)"
    proof (rule cache.set_blocked [OF menu_inv_any [OF ok, of s] writes.hyps(2)])
      fix t assume "t \<le> now (db s')"
      then have "blocks_in (db s1) j f t" by (rule writes.prems)
      with IH True writes.hyps(3) show "blocks_in (db s) i fetchedAt t"
        by (simp add: blocks_in_earlier)
    qed
    with IH show ?thesis by (metis domIff map_le_def)
  next
    case False
    have "cached_in (db s) j = Some c" if "cached_in (db s') j = Some c" for c
      using W that False by auto
    with IH show ?thesis by (cases "cached_in (db s') j") auto
  qed
  with IH W show ?case by auto
qed


lemma invalidated_stays_out:
  assumes "menu_inv R db s" and "Invalidate R i s = Some (Inr n, s1)" and "i = '''' \<or> i = j"
    and "menu_traffic R j f s1 s2" and "f \<le> now (db s)"
    and "0 \<le> now (db s)" and "now (db s1) < 2 ^ 63" and "now (db s2) < now (db s) + 2 * hour"
  shows "cached_in (db s2) j = None"
proof -
  have "blocks_in (db s1) j f t" if "t \<le> now (db s2)" for t
    using cache.drop_blocks [OF assms(1-3,5-7)] that assms(8) by simp
  with menu_traffic_blocked [OF assms(4) menu_inv_any [OF assms(1)]] cache.drop_gone [OF assms(1-3)]
  show ?thesis by blast
qed


text \<open>
  A cached menu ends with its time to live, which is never more than an hour: after \<open>Set\<close> wrote
  a menu, reading the restaurant's menu later than that finds nothing (Redis counts in milliseconds,
  at least one).
\<close>

theorem cached_menu_expires:
  assumes "menu_inv R db s" and "menu_Set R i p ttl f s = (Inr True, s')"
    and "entry (db s2) (menuKeyPrefix @ i) = entry (db s') (menuKeyPrefix @ i)"
    and "now (db s') + max millisecond (min ttl MenuCacheMaxTTL) \<le> now (db s2)"
    and "menu_Get R i s2 = (g, s3)"
  shows "0 < ttl \<and> g \<noteq> Inr (Some q)"
proof -
  from assms(1) have R: "redis_ok (mcr_redis R) db" by (simp add: menu_inv_def)
  from assms(2) obtain s1 where ttl: "0 < ttl"
    and W: "set_write R i p (min ttl MenuCacheMaxTTL) s1 = (Inr True, s')"
    by (cases rule: menu_Set_cases) auto
  obtain t where t: "t \<le> now (db s')" and
    e: "entry (db s') (menuKeyPrefix @ i) = Some (VStr p, Some (t + in_millis (min ttl MenuCacheMaxTTL)))"
    using set_write_stored [OF R W] ttl by (auto simp: MenuCacheMaxTTL_def duration_defs)
  have "in_millis (min ttl MenuCacheMaxTTL) \<le> max millisecond (min ttl MenuCacheMaxTTL)"
    using in_millis_le [of "min ttl MenuCacheMaxTTL"] ttl
    by (simp add: MenuCacheMaxTTL_def duration_defs max.commute)
  with t e assms(3,4) have "cached_in (db s2) i = None"
    by (simp add: cached_in_def live_def)
  with ttl cache.get_hit [OF menu_inv_any [OF assms(1)], of i s2 q s3] assms(5) show ?thesis by auto
qed

text \<open>The SCAN iteration comes to an end: what is left to be returned decreases.\<close>

definition scan_ends :: "'s redis \<Rightarrow> (nat \<Rightarrow> 's \<Rightarrow> nat) \<Rightarrow> bool" where
  "scan_ends R left \<longleftrightarrow>
     (\<forall>c pat n s ks nxt. fst (rd R (SCAN c pat n) s) = Inr (RScan ks nxt) \<and> nxt \<noteq> 0 \<longrightarrow>
        left nxt (snd (rd R (SCAN c pat n) s)) < left c s)
     \<and> (\<forall>c ks s. left c (snd (rd R (DEL ks) s)) \<le> left c s)"

lemma scan_delete_returns:
  assumes "scan_ends R left"
  shows "\<exists>y. scan_delete R c deleted s = Some y"
proof (induction "left c s" arbitrary: c deleted s rule: less_induct)
  case less
  obtain r s1 where q: "rd R (SCAN c (menuKeyPrefix @ ''*'') 200) s = (r, s1)"
    by (cases "rd R (SCAN c (menuKeyPrefix @ ''*'') 200) s")
  show ?case
  proof (cases "\<exists>ks nxt. r = Inr (RScan ks nxt) \<and> nxt \<noteq> 0")
    case True
    then obtain ks nxt where r: "r = Inr (RScan ks nxt)" "nxt \<noteq> 0" by blast
    obtain x s2 where d: "(if ks = [] then (Inr (), s1) else Del R ks s1) = (x, s2)"
      by (metis prod.exhaust)
    have "left nxt s1 < left c s" using assms q r unfolding scan_ends_def by (metis fst_conv snd_conv)
    moreover have "s2 = s1 \<or> s2 = snd (rd R (DEL ks) s1)"
      using d by (auto simp: Del_def ask_def split: if_splits prod.splits sum.splits)
    then have "left nxt s2 \<le> left nxt s1"
      using assms unfolding scan_ends_def by auto
    ultimately have "\<exists>y. scan_delete R nxt (deleted + length ks) s2 = Some y"
      by (intro less) simp
    with q r d show ?thesis
      by (subst scan_delete.simps) (simp add: ask_def split: sum.split)
  next
    case False
    with q show ?thesis
      by (subst scan_delete.simps)
         (auto simp: ask_def as_scan_Inr split: sum.split prod.split)
  qed
qed



text \<open>
  A fetch racing with an invalidation.  \<open>Set\<close> reads the marks before it writes: when the
  invalidation runs in between, both succeed, and a menu fetched before the change is cached after it.
\<close>

theorem stale_menu_race:
  "\<exists>d1 d2 d3. let R = \<lparr>mcr_redis = ref_redis, mcr_Now = ref_clock\<rparr> in
     set_check R ''r1'' 5 (empty_db 10) = (Inr False, d1)
     \<and> Invalidate R ''r1'' d1 = Some (Inr 1, d2)
     \<and> set_write R ''r1'' ''old menu'' hour d2 = (Inr True, d3)
     \<and> cached_in d3 ''r1'' = Some ''old menu''"
  by (simp add: Let_def set_check_def stale_def Invalidate_def inv_mark_def set_write_def SetBytes_def
      Del_def ask_def ref_redis_def ref_clock_def put_def drop_keys_def live_def entry_def cached_in_def
      in_millis_def duration_defs empty_db_def menuKeyPrefix_def menuInvalidatedPrefix_def
      allRestaurants_def MenuCacheMaxTTL_def)


section \<open>The properties on the concrete client\<close>

definition ref_cache :: "redis_db menu_cache_repo" where
  "ref_cache = \<lparr>mcr_redis = ref_redis, mcr_Now = ref_clock\<rparr>"

lemma ref_cache_inv: "menu_inv ref_cache id d"
  by (simp add: menu_inv_def ref_cache_def ref_redis_ok ref_clock_ok)

lemmas cache_run_simps =
  menu_Set_def set_check_def stale_def Invalidate_def inv_mark_def set_write_def SetBytes_def GetBytes_def
  menu_Get_def Del_def ask_def put_def drop_keys_def live_def entry_def cached_in_def in_millis_def
  duration_defs empty_db_def menuKeyPrefix_def menuInvalidatedPrefix_def allRestaurants_def
  MenuCacheMaxTTL_def Let_def

lemma ref_cache_simps [simp]:
  "rd (mcr_redis ref_cache) = ref_rd" "mcr_Now ref_cache d = (now d, d)"
  by (simp_all add: ref_cache_def ref_redis_def ref_clock_def)

lemma ref_cache_now: "now (snd (menu_Set ref_cache i p ttl f d)) = now d"
  by (auto simp: menu_Set_def set_check_def set_write_def SetBytes_def ask_def put_def
      split: sum.split prod.split bool.split)


lemma cached_menu_expires_witness:
  "fst (menu_Get ref_cache ''r1'' (at_time (3 * hour) (snd (menu_Set ref_cache ''r1'' ''menu'' (2 * hour) 5 (empty_db 10)))))
   \<noteq> Inr (Some ''menu'')"
proof -
  define d1 where "d1 = snd (menu_Set ref_cache ''r1'' ''menu'' (2 * hour) 5 (empty_db 10))"
  have 1: "menu_Set ref_cache ''r1'' ''menu'' (2 * hour) 5 (empty_db 10) = (Inr True, d1)" and n1: "now d1 = 10"
    unfolding d1_def by (simp_all add: cache_run_simps)
  have "now d1 + max millisecond (min (2 * hour) MenuCacheMaxTTL) \<le> now (at_time (3 * hour) d1)"
    using n1 by (simp add: MenuCacheMaxTTL_def duration_defs)
  from cached_menu_expires [OF ref_cache_inv 1 _ _ prod.collapse [symmetric], of "at_time (3 * hour) d1" "''menu''"]
    this show ?thesis by (simp add: d1_def)
qed


end
