(* ===== verification/Menu_Service.thy ===== *)
theory Menu_Service
  imports Menu_Cache Order_Service Platform
begin

text \<open>
  The menu service (internal/service/menu_service.go): the effective menu of a restaurant, from the
  cache or, on a miss, from kfc-crm.  The JSON codec is protojson, a parameter.  A call to kfc-crm
  takes time and leaves Redis alone.
\<close>

section \<open>The service\<close>

record 's menu_cache_api =
  mca_Get :: "string \<Rightarrow> ('s, string option) op"
  mca_Set :: "string \<Rightarrow> string \<Rightarrow> int \<Rightarrow> int \<Rightarrow> ('s, bool) op"
  mca_Invalidate :: "string \<Rightarrow> 's \<Rightarrow> ((go_error + nat) \<times> 's) option"

definition NewMenuCacheRepository :: "'s menu_cache_repo \<Rightarrow> 's menu_cache_api" where
  "NewMenuCacheRepository R =
     \<lparr>mca_Get = menu_Get R, mca_Set = menu_Set R, mca_Invalidate = Invalidate R\<rparr>"

record 's menu_service =
  ms_cache :: "'s menu_cache_api"
  ms_crm :: "'s crm_api"
  ms_Now :: "'s clock"
  ms_Marshal :: "menu \<Rightarrow> go_error + string"
  ms_Unmarshal :: "string \<Rightarrow> go_error + menu"

text \<open>
  The time to live of a fetched menu: until its next scheduled change, if it has one, an hour
  otherwise.
\<close>

definition menu_ttl :: "'s menu_service \<Rightarrow> menu \<Rightarrow> 's \<Rightarrow> int \<times> 's" where
  "menu_ttl S resp s =
     (if 0 < sint (menu_ValidUntil resp) then
        (let (t, s1) = ms_Now S s in (until (sint (menu_ValidUntil resp) * second) t, s1))
      else (MenuCacheMaxTTL, s))"

definition GetEffectiveMenu :: "'s menu_service \<Rightarrow> string \<Rightarrow> ('s, string) op" where
  "GetEffectiveMenu S restaurantID s =
     (let (c, s1) = mca_Get (ms_cache S) restaurantID s in
      case c of
        Inr (Some payload) \<Rightarrow> (Inr payload, s1)
      | _ \<Rightarrow>
          (let (fetchedAt, s2) = ms_Now S s1 in
           case crm_GetEffectiveMenu (ms_crm S) restaurantID s2 of
             (Inl e, s3) \<Rightarrow>
               (Inl (if status_code e = NotFound then Sentinel ErrMenuNotFound
                     else Wrapped ''fetch effective menu'' (RpcError e)), s3)
           | (Inr resp, s3) \<Rightarrow>
               (case ms_Marshal S resp of
                  Inl e \<Rightarrow> (Inl (Wrapped ''marshal menu to json'' e), s3)
                | Inr payload \<Rightarrow>
                    (let (ttl, s4) = menu_ttl S resp s3 in
                     (Inr payload, snd (mca_Set (ms_cache S) restaurantID payload ttl fetchedAt s4))))))"

definition GetMenu :: "'s menu_service \<Rightarrow> string \<Rightarrow> ('s, menu) op" where
  "GetMenu S restaurantID s =
     (case GetEffectiveMenu S restaurantID s of
        (Inl e, s1) \<Rightarrow> (Inl e, s1)
      | (Inr payload, s1) \<Rightarrow>
          (case ms_Unmarshal S payload of
             Inl e \<Rightarrow> (Inl (Wrapped ''decode cached menu'' e), s1)
           | Inr m \<Rightarrow> (Inr m, s1)))"

section \<open>A client of the cache\<close>

text \<open>A fact that does not depend on the state may join the invariant.\<close>

context menu_cache begin

lemma with_fact: "menu_cache get set invalidate (\<lambda>s. inv s \<and> Q) clock cached blocks"
proof (unfold_locales, goal_cases)
  case (1 s i g s')
  with get_keeps [of s i g s'] show ?case by simp
next
  case (2 s i p s')
  with get_hit [of s i p s'] show ?case by simp
next
  case (3 s i s')
  with get_miss [of s i s'] show ?case by simp
next
  case (4 s i p ttl f w s')
  with set_only [of s i p ttl f w s'] show ?case by simp
next
  case (5 s i p ttl f s')
  with set_skipped [of s i p ttl f s'] show ?case by simp
next
  case (6 s i p ttl f w s')
  with set_blocked [of s i p ttl f w s'] show ?case by simp
next
  case (7 s i d s')
  with drop_keeps [of s i d s'] show ?case by simp
next
  case (8 s i n s' j)
  with drop_gone [of s i n s' j] show ?case by simp
next
  case (9 s i n s' j f t)
  with drop_blocks [of s i n s' j f t] show ?case by simp
qed

end

text \<open>
  \<open>crm_menu i m\<close>: kfc-crm lists \<open>m\<close> as the menu of restaurant \<open>i\<close>.  A cached menu is genuine when it
  is the JSON of such a menu.
\<close>

locale menu_reader = menu_cache get set invalidate inv clock cached blocks
  for get :: "string \<Rightarrow> 's \<Rightarrow> (go_error + string option) \<times> 's"
    and set :: "string \<Rightarrow> string \<Rightarrow> int \<Rightarrow> int \<Rightarrow> 's \<Rightarrow> (go_error + bool) \<times> 's"
    and invalidate :: "string \<Rightarrow> 's \<Rightarrow> ((go_error + nat) \<times> 's) option"
    and inv :: "'s \<Rightarrow> bool"
    and clock :: "'s \<Rightarrow> int"
    and cached :: "'s \<Rightarrow> string \<Rightarrow> string option"
    and blocks :: "'s \<Rightarrow> string \<Rightarrow> int \<Rightarrow> int \<Rightarrow> bool" +
  fixes S :: "'s menu_service"
    and crm_menu :: "string \<Rightarrow> menu \<Rightarrow> bool"
  assumes cache_is: "ms_cache S = \<lparr>mca_Get = get, mca_Set = set, mca_Invalidate = invalidate\<rparr>"
    and now_keeps: "inv s \<Longrightarrow> ms_Now S s = (t, s') \<Longrightarrow>
      inv s' \<and> clock s \<le> t \<and> clock s' = t \<and> cached s' \<subseteq>\<^sub>m cached s"
    and crm_keeps: "inv s \<Longrightarrow> crm_GetEffectiveMenu (ms_crm S) i s = (q, s') \<Longrightarrow>
      inv s' \<and> clock s \<le> clock s' \<and> cached s' \<subseteq>\<^sub>m cached s \<and> (\<forall>m. q = Inr m \<longrightarrow> crm_menu i m)"
begin

definition genuine :: "'s \<Rightarrow> bool" where
  "genuine s \<longleftrightarrow> (\<forall>i p. cached s i = Some p \<longrightarrow> (\<exists>m. crm_menu i m \<and> ms_Marshal S m = Inr p))"

lemma genuine_mono: "genuine s \<Longrightarrow> cached s' \<subseteq>\<^sub>m cached s \<Longrightarrow> genuine s'"
  unfolding genuine_def map_le_def by (metis domI)

lemma cache_sel: "mca_Get (ms_cache S) = get" "mca_Set (ms_cache S) = set"
  by (simp_all add: cache_is)

lemma ttl_keeps:
  assumes "inv s" and "menu_ttl S m s = (ttl, s')"
  shows "inv s' \<and> clock s \<le> clock s' \<and> cached s' \<subseteq>\<^sub>m cached s"
  using now_keeps [OF assms(1)] assms by (auto simp: menu_ttl_def split: if_splits prod.splits)

lemma fetch_steps:
  assumes "inv s" and "GetEffectiveMenu S i s = (r, s')"
  obtains (hit) p where "r = Inr p" "get i s = (Inr (Some p), s')"
  | (fails) e where "r = Inl e" "inv s'" "clock s \<le> clock s'" "cached s' \<subseteq>\<^sub>m cached s"
  | (fetched) p m ttl f s3 s4 w c s1 where "r = Inr p" "crm_menu i m" "ms_Marshal S m = Inr p"
      "inv s3" "menu_ttl S m s3 = (ttl, s4)" "clock s \<le> f" "f \<le> clock s3" "clock s3 \<le> clock s4"
      "cached s4 \<subseteq>\<^sub>m cached s" "inv s4" "set i p ttl f s4 = (w, s')"
      "get i s = (c, s1)" "\<And>p. c \<noteq> Inr (Some p)" "cached s4 \<subseteq>\<^sub>m cached s1"
proof -
  obtain c s1 where 1: "get i s = (c, s1)" by (cases "get i s")
  note k1 = get_keeps [OF assms(1) 1]
  obtain f s2 where 2: "ms_Now S s1 = (f, s2)" by (cases "ms_Now S s1")
  note k2 = now_keeps [OF conjunct1 [OF k1] 2]
  obtain q s3 where 3: "crm_GetEffectiveMenu (ms_crm S) i s2 = (q, s3)"
    by (cases "crm_GetEffectiveMenu (ms_crm S) i s2")
  note k3 = crm_keeps [OF conjunct1 [OF k2] 3]
  have le: "clock s \<le> clock s3" "clock s \<le> f" "f \<le> clock s3" using k1 k2 k3 by auto
  have sub: "cached s3 \<subseteq>\<^sub>m cached s" and sub1: "cached s3 \<subseteq>\<^sub>m cached s1"
    using k1 k2 k3 map_le_trans by blast+
  show thesis
  proof (cases "\<exists>p. c = Inr (Some p)")
    case True
    with assms(2) 1 show thesis by (auto simp: GetEffectiveMenu_def cache_sel intro: hit)
  next
    case miss: False
    show thesis
    proof (cases "\<exists>m p. q = Inr m \<and> ms_Marshal S m = Inr p")
      case True
      then obtain m p where m: "q = Inr m" "ms_Marshal S m = Inr p" by blast
      obtain ttl s4 where 4: "menu_ttl S m s3 = (ttl, s4)" by (cases "menu_ttl S m s3")
      note k4 = ttl_keeps [OF conjunct1 [OF k3] 4]
      obtain w s5 where 5: "set i p ttl f s4 = (w, s5)" by (cases "set i p ttl f s4")
      from assms(2) 1 2 3 4 5 m miss have "r = Inr p" "s' = s5"
        by (auto simp: GetEffectiveMenu_def cache_sel split: sum.splits option.splits)
      moreover have "cached s4 \<subseteq>\<^sub>m cached s" "cached s4 \<subseteq>\<^sub>m cached s1"
        using k4 sub sub1 map_le_trans by blast+
      ultimately show thesis using m k3 k4 1 4 5 le miss
        by (intro fetched [of p m s3 ttl s4 f w c s1]) auto
    next
      case False
      with assms(2) 1 2 3 miss have "s' = s3" "\<exists>e. r = Inl e"
        by (auto simp: GetEffectiveMenu_def cache_sel split: sum.splits option.splits prod.splits)
      with k3 le sub show thesis by (auto intro: fails)
    qed
  qed
qed

text \<open>What is served, and what is left in the cache, comes from kfc-crm.\<close>

lemma served_genuine:
  assumes "inv s" and "genuine s" and "GetEffectiveMenu S i s = (r, s')"
  shows "inv s' \<and> clock s \<le> clock s' \<and> genuine s'
    \<and> (\<forall>p. r = Inr p \<longrightarrow> (\<exists>m. crm_menu i m \<and> ms_Marshal S m = Inr p))"
  using assms(1,3)
proof (cases rule: fetch_steps)
  case (hit p)
  then show ?thesis
    using get_keeps [OF assms(1) hit(2)] get_hit [OF assms(1) hit(2)] genuine_mono [OF assms(2)] assms(2)
    by (auto simp: genuine_def)
next
  case (fails e)
  then show ?thesis using genuine_mono [OF assms(2)] by auto
next
  case (fetched p m ttl f s3 s4 w c s1)
  note W = set_only [OF fetched(10,11)]
  have "genuine s4" using genuine_mono [OF assms(2) fetched(9)] .
  with W fetched(2,3) have "genuine s'" unfolding genuine_def by metis
  with W fetched show ?thesis by auto
qed

end


section \<open>The service as wired\<close>

definition NewMenuService ::
  "'s menu_cache_repo \<Rightarrow> 's crm_api \<Rightarrow> (menu \<Rightarrow> go_error + string) \<Rightarrow> (string \<Rightarrow> go_error + menu)
     \<Rightarrow> 's menu_service" where
  "NewMenuService R crm marshal unmarshal =
     \<lparr>ms_cache = NewMenuCacheRepository R, ms_crm = crm, ms_Now = mcr_Now R,
      ms_Marshal = marshal, ms_Unmarshal = unmarshal\<rparr>"

text \<open>What kfc-crm's calls do to Redis (nothing), and what it lists.\<close>

definition crm_ok :: "'s crm_api \<Rightarrow> ('s \<Rightarrow> redis_db) \<Rightarrow> (string \<Rightarrow> menu \<Rightarrow> bool) \<Rightarrow> bool" where
  "crm_ok crm db listed \<longleftrightarrow>
     (\<forall>i. aside db (crm_GetEffectiveMenu crm i))
     \<and> (\<forall>i s m. fst (crm_GetEffectiveMenu crm i s) = Inr m \<longrightarrow> listed i m)"

lemma aside_cached: "aside db f \<Longrightarrow> f s = (x, s') \<Longrightarrow> now (db s) \<le> now (db s') \<and> cached_in (db s') \<subseteq>\<^sub>m cached_in (db s)"
  using ages_cached aside_ages by (metis ages_def)


interpretation menus: menu_reader
  "menu_Get R" "menu_Set R" "Invalidate R" "\<lambda>s. menu_inv R db s \<and> crm_ok crm db listed"
  "\<lambda>s. now (db s)" "\<lambda>s. cached_in (db s)" "\<lambda>s. blocks_in (db s)" "NewMenuService R crm ma um" listed
  for R :: "'s menu_cache_repo" and crm ma um listed and db :: "'s \<Rightarrow> redis_db"
proof (intro menu_reader.intro menu_reader_axioms.intro cache.with_fact, goal_cases)
  case 1
  show ?case by (simp add: NewMenuService_def NewMenuCacheRepository_def)
next
  case (2 s t s')
  then have n: "mcr_Now R s = (t, s')" and c: "clock_ok (mcr_Now R) db"
    by (simp_all add: NewMenuService_def menu_inv_def)
  with aside_cached [OF clock_aside [OF c] n] clock_okD [OF c n] menu_inv_any [of R db s s'] 2(1)
  show ?case by auto
next
  case (3 s i q s')
  then have c: "crm_GetEffectiveMenu crm i s = (q, s')" and ok: "crm_ok crm db listed"
    by (simp_all add: NewMenuService_def)
  from ok have "aside db (crm_GetEffectiveMenu crm i)" by (simp add: crm_ok_def)
  from aside_cached [OF this c] c ok menu_inv_any [of R db s s'] 3(1)
  show ?case by (auto simp: crm_ok_def dest: arg_cong [of _ _ fst])
qed

section \<open>Properties\<close>

definition genuine_cache :: "(menu \<Rightarrow> go_error + string) \<Rightarrow> (string \<Rightarrow> menu \<Rightarrow> bool) \<Rightarrow> redis_db \<Rightarrow> bool" where
  "genuine_cache ma listed d \<longleftrightarrow>
     (\<forall>i p. cached_in d i = Some p \<longrightarrow> (\<exists>m. listed i m \<and> ma m = Inr p))"



lemma NewMenuService_sel [simp]:
  "ms_Marshal (NewMenuService R crm ma um) = ma" "ms_Unmarshal (NewMenuService R crm ma um) = um"
  "ms_crm (NewMenuService R crm ma um) = crm" "ms_Now (NewMenuService R crm ma um) = mcr_Now R"
  "mca_Get (ms_cache (NewMenuService R crm ma um)) = menu_Get R"
  "mca_Set (ms_cache (NewMenuService R crm ma um)) = menu_Set R"
  by (simp_all add: NewMenuService_def NewMenuCacheRepository_def)

text \<open>
  C24. Menus come from kfc-crm.  That every cached menu is the JSON of a menu kfc-crm listed for that
  restaurant is an invariant of \<open>GetMenu\<close>, whatever Redis and kfc-crm answer, and the menu it returns
  (the one orders are priced with) is one kfc-crm listed for the restaurant asked for.
\<close>

theorem menus_from_crm:
  assumes "menu_inv R db s" and "crm_ok crm db listed" and "genuine_cache ma listed (db s)"
    and "\<And>m p. ma m = Inr p \<Longrightarrow> um p = Inr m"
    and "GetMenu (NewMenuService R crm ma um) i s = (r, s')"
  shows "genuine_cache ma listed (db s') \<and> (\<forall>m. r = Inr m \<longrightarrow> listed i m)"
proof -
  obtain x s1 where 1: "GetEffectiveMenu (NewMenuService R crm ma um) i s = (x, s1)"
    by (cases "GetEffectiveMenu (NewMenuService R crm ma um) i s")
  have "genuine_cache ma listed (db s1) \<and> (\<forall>p. x = Inr p \<longrightarrow> (\<exists>m. listed i m \<and> ma m = Inr p))"
    using menus.served_genuine [of R db s crm listed ma um i x s1] assms(1-3) 1
    by (simp add: menus.genuine_def genuine_cache_def)
  with 1 assms(4,5) show ?thesis by (auto simp: GetMenu_def split: sum.splits)
qed

text \<open>What a write leaves: the old entry, or the new one with its expiry.\<close>

lemma menu_Set_entry:
  assumes ok: "menu_inv R db s" and "menu_Set R i p ttl f s = (w, s')"
  shows "entry (db s') (menuKeyPrefix @ i) = entry (db s) (menuKeyPrefix @ i)
    \<or> (0 < ttl \<and> (\<exists>t \<le> now (db s'). entry (db s') (menuKeyPrefix @ i)
         = Some (VStr p, Some (t + in_millis (min ttl MenuCacheMaxTTL)))))"
proof -
  from ok have R: "redis_ok (mcr_redis R) db" by (simp add: menu_inv_def)
  from assms(2) show ?thesis
  proof (cases rule: menu_Set_cases)
    case (2 s1 c)
    then show ?thesis using set_check_db [OF R 2(2)] by (simp add: ages_def)
  next
    case (3 s1)
    obtain g s2 where q: "SetBytes (mcr_redis R) (menuKeyPrefix @ i) p (min ttl MenuCacheMaxTTL) s1 = (g, s2)"
      by (cases "SetBytes (mcr_redis R) (menuKeyPrefix @ i) p (min ttl MenuCacheMaxTTL) s1")
    with 3(3) have "s' = s2" by (auto simp: set_write_def split: sum.splits)
    with SetBytes_db [OF R q] set_check_db [OF R 3(2)] 3(1) show ?thesis
      by (auto simp: ages_def MenuCacheMaxTTL_def duration_defs)
  qed simp
qed

text \<open>
  C25. A menu does not outlive its next scheduled change.  When every menu kfc-crm lists for a
  restaurant is valid until \<open>v\<close> at the latest, a menu that \<open>GetEffectiveMenu\<close> fetches and caches is
  gone from the cache at \<open>v\<close>, up to the time the call took and Redis's millisecond.
\<close>

theorem menu_ends_with_promotion:
  assumes "menu_inv R db s" and "crm_ok crm db listed"
    and "\<And>m. listed i m \<Longrightarrow> 0 < sint (menu_ValidUntil m) \<and> sint (menu_ValidUntil m) * second \<le> v"
    and "fst (menu_Get R i s) = Inr None"
    and "GetEffectiveMenu (NewMenuService R crm ma um) i s = (Inr p, s')"
    and "entry (db s2) (menuKeyPrefix @ i) = entry (db s') (menuKeyPrefix @ i)"
    and "now (db s') \<le> now (db s2)" and "v + (now (db s') - now (db s)) + millisecond \<le> now (db s2)"
  shows "fst (menu_Get R i s2) \<noteq> Inr (Some q)"
proof
  assume "fst (menu_Get R i s2) = Inr (Some q)"
  then have hit: "cached_in (db s2) i = Some q"
    using cache.get_hit [OF menu_inv_any [OF assms(1)]] by (metis prod.collapse)
  have ok: "menu_inv R db s \<and> crm_ok crm db listed" using assms by simp
  from ok assms(5) show False
  proof (cases rule: menus.fetch_steps)
    case (fetched p' m ttl f s3 s4 w c s1)
    let ?v = "sint (menu_ValidUntil m) * second"
    from assms(3) [OF fetched(2)] fetched(5) obtain t where t: "mcr_Now R s3 = (t, s4)" "ttl = until ?v t" and v: "?v \<le> v"
      by (auto simp: menu_ttl_def split: prod.splits)
    have s4: "now (db s) \<le> t" "now (db s4) = t"
      using clock_okD [of "mcr_Now R" db s3 t s4] t(1) ok fetched(6,7) by (auto simp: menu_inv_def)
    have w: "menu_Set R i p' ttl f s4 = (w, s')" and inv4: "menu_inv R db s4" using fetched by simp_all
    have later: "now (db s4) \<le> now (db s')" using menu_Set_db [OF inv4 w] by simp
    from menu_Set_entry [OF inv4 w] show False
    proof (elim disjE conjE exE)
      assume "entry (db s') (menuKeyPrefix @ i) = entry (db s4) (menuKeyPrefix @ i)"
      with assms(6,7) later hit have "cached_in (db s4) i = Some q"
        using cached_in_shrinks [of "db s4" "db s2" i q] by (simp add: shrinks_def)
      with fetched(14) have "cached_in (db s1) i = Some q" by (metis domI map_le_def)
      moreover have "c = Inr None" using fetched(12) assms(4) by simp
      ultimately show False using cache.get_miss [of R db s i s1] assms(1) fetched(12) by simp
    next
      fix t' assume "0 < ttl" "t' \<le> now (db s')" and
        "entry (db s') (menuKeyPrefix @ i) = Some (VStr p', Some (t' + in_millis (min ttl MenuCacheMaxTTL)))"
      moreover from this(1) have "in_millis (min ttl MenuCacheMaxTTL) \<le> millisecond + ttl"
        using in_millis_le [of "min ttl MenuCacheMaxTTL"] by (auto simp: MenuCacheMaxTTL_def duration_defs)
      moreover have "ttl \<le> v - now (db s)"
        using until_le [of ?v t] t v s4 \<open>0 < ttl\<close> by simp
      ultimately show False using hit assms(6,8) by (simp add: cached_in_def live_def)
    qed
  qed (use assms(4) in auto)
qed


section \<open>The properties on the concrete client\<close>

definition short_menu :: menu where
  "short_menu = test_menu\<lparr>menu_ValidUntil := 100\<rparr>"

definition ref_crm :: "redis_db crm_api" where
  "ref_crm = \<lparr>crm_GetEffectiveMenu = (\<lambda>i d. (Inr short_menu, d)),
     crm_ListRegions = (\<lambda>d. (Inr [], d)), crm_ListRestaurants = (\<lambda>_ d. (Inr [], d)),
     crm_GetRestaurant = (\<lambda>_ d. (Inl (RpcPlain ''down''), d))\<rparr>"

definition ref_marshal :: "menu \<Rightarrow> go_error + string" where
  "ref_marshal m = (if m = short_menu then Inr ''menu'' else Inl (Text ''no JSON''))"

abbreviation ref_menus :: "redis_db menu_service" where
  "ref_menus \<equiv> NewMenuService ref_cache ref_crm ref_marshal (\<lambda>_. Inr short_menu)"

lemma ref_crm_ok: "crm_ok ref_crm id (\<lambda>_ m. m = short_menu)"
  by (auto simp: crm_ok_def ref_crm_def aside_def intro: exI [of _ "now _"])

lemma short_menu_valid [simp]: "menu_ValidUntil short_menu = 100"
  by (simp add: short_menu_def)

lemma ref_marshal_inj: "ref_marshal m = Inr p \<Longrightarrow> Inr short_menu = Inr m"
  by (auto simp: ref_marshal_def split: if_splits)

lemma menus_from_crm_witness:
  "\<exists>s'. GetMenu ref_menus ''r1'' (empty_db 10) = (Inr short_menu, s')
    \<and> genuine_cache ref_marshal (\<lambda>_ m. m = short_menu) s'"
proof -
  obtain r s' where 1: "GetMenu ref_menus ''r1'' (empty_db 10) = (r, s')"
    by (cases "GetMenu ref_menus ''r1'' (empty_db 10)")
  have "genuine_cache ref_marshal (\<lambda>_ m. m = short_menu) (id (empty_db 10))"
    by (simp add: genuine_cache_def cached_in_def live_def entry_def empty_db_def)
  from menus_from_crm [OF ref_cache_inv ref_crm_ok this ref_marshal_inj 1]
  have "genuine_cache ref_marshal (\<lambda>_ m. m = short_menu) s'" by simp
  moreover have "r = Inr short_menu"
    using 1 by (auto simp: GetMenu_def GetEffectiveMenu_def menu_Get_def GetBytes_def live_def entry_def
        empty_db_def ref_crm_def ref_marshal_def menu_ttl_def ask_def is_nil_def split: sum.splits prod.splits)
  ultimately show ?thesis using 1 by simp
qed


lemma menu_ends_with_promotion_witness:
  "let d = snd (GetEffectiveMenu ref_menus ''r1'' (empty_db 10)) in
   fst (menu_Get ref_cache ''r1'' (at_time (101 * second) d)) \<noteq> Inr (Some ''menu'')"
proof -
  define d where "d = snd (GetEffectiveMenu ref_menus ''r1'' (empty_db 10))"
  have 1: "GetEffectiveMenu ref_menus ''r1'' (empty_db 10) = (Inr ''menu'', d)" and n: "now d = 10"
    unfolding d_def
    by (simp_all add: GetEffectiveMenu_def menu_Get_def GetBytes_def live_def entry_def empty_db_def
        ref_crm_def ref_marshal_def menu_ttl_def ask_def is_nil_def ref_cache_now)
  have "fst (menu_Get ref_cache ''r1'' (empty_db 10)) = Inr None"
    by (simp add: menu_Get_def GetBytes_def live_def entry_def empty_db_def ask_def is_nil_def)
  from menu_ends_with_promotion [OF ref_cache_inv ref_crm_ok _ this 1,
      of "100 * second" "at_time (101 * second) d"] n
  show ?thesis by (simp add: d_def duration_defs empty_db_def)
qed

end
