(* ===== verification/Handlers.thy ===== *)
theory Handlers
  imports Middleware Sign_In Menu_Service
begin

text \<open>
  The HTTP handlers (internal/transport/http/handler): what each endpoint reads of a request, which
  service operation it calls, and what it answers.  A handler takes what fiber has parsed: the body
  (nothing when it cannot be parsed), path and query parameters, cookies, and the claims the
  middleware left.  Logging and response headers are left out, except the refresh cookie.
\<close>

section \<open>order_handler.go\<close>

definition PlaceKioskOrderHandler ::
  "'s order_service \<Rightarrow> DeviceTokenClaims option \<Rightarrow> PlaceOrderRequest option \<Rightarrow> ('s, OrderView) handler" where
  "PlaceKioskOrderHandler S claims body s =
     (case claims of
        None \<Rightarrow> (Unauthorized ''unauthorized'' ''missing device context'', s)
      | Some c \<Rightarrow>
          (case body of
             None \<Rightarrow> (BadRequest ''invalid request body'', s)
           | Some req \<Rightarrow>
               (case PlaceKioskOrder S c req s of
                  (Inl e, s1) \<Rightarrow> (FromError e, s1)
                | (Inr v, s1) \<Rightarrow> (created v, s1))))"

definition KitchenOrders :: "'s order_service \<Rightarrow> DeviceTokenClaims option \<Rightarrow> ('s, OrderView list) handler" where
  "KitchenOrders S claims s =
     (case claims of
        None \<Rightarrow> (Unauthorized ''unauthorized'' ''missing device context'', s)
      | Some c \<Rightarrow>
          (case ListActive S (os_uuid_String S (dc_RestaurantID c)) s of
             (Inl e, s1) \<Rightarrow> (FromError e, s1)
           | (Inr vs, s1) \<Rightarrow> (ok vs, s1)))"

record UpdateStatusRequest =
  us_Status :: string

definition UpdateKitchenStatus ::
  "'s order_service \<Rightarrow> DeviceTokenClaims option \<Rightarrow> string \<Rightarrow> UpdateStatusRequest option \<Rightarrow> ('s, OrderView) handler" where
  "UpdateKitchenStatus S claims orderID body s =
     (case claims of
        None \<Rightarrow> (Unauthorized ''unauthorized'' ''missing device context'', s)
      | Some c \<Rightarrow>
          (case body of
             None \<Rightarrow> (BadRequest ''status is required'', s)
           | Some req \<Rightarrow>
               if us_Status req = '''' then (BadRequest ''status is required'', s)
               else (case UpdateFromKitchen S c orderID (us_Status req) s of
                       (Inl e, s1) \<Rightarrow> (FromError e, s1)
                     | (Inr v, s1) \<Rightarrow> (ok v, s1))))"

definition DisplayOrders :: "'s order_service \<Rightarrow> DeviceTokenClaims option \<Rightarrow> ('s, DisplayOrder list) handler" where
  "DisplayOrders S claims s =
     (case claims of
        None \<Rightarrow> (Unauthorized ''unauthorized'' ''missing device context'', s)
      | Some c \<Rightarrow>
          (case ListActive S (os_uuid_String S (dc_RestaurantID c)) s of
             (Inl e, s1) \<Rightarrow> (FromError e, s1)
           | (Inr vs, s1) \<Rightarrow> (ok (map ToDisplay vs), s1)))"

section \<open>public_handler.go\<close>

record regionJSON =
  rj_ID :: string
  rj_Name :: string
  rj_Code :: string
  rj_Timezone :: string
  rj_RestaurantCount :: i64

record restaurantJSON =
  sj_ID :: string
  sj_Name :: string
  sj_Code :: string
  sj_RegionID :: string
  sj_RegionName :: string
  sj_Address :: string
  sj_City :: string
  sj_Phone :: string
  sj_Timezone :: string

definition restaurant_json :: "restaurant \<Rightarrow> restaurantJSON" where
  "restaurant_json r =
     \<lparr>sj_ID = rs_Id r, sj_Name = rs_Name r, sj_Code = rs_Code r, sj_RegionID = rs_RegionId r,
      sj_RegionName = rs_RegionName r, sj_Address = rs_Address r, sj_City = rs_City r,
      sj_Phone = rs_Phone r, sj_Timezone = rs_Timezone r\<rparr>"

definition Regions :: "'s crm_api \<Rightarrow> ('s, regionJSON list) handler" where
  "Regions crm s =
     (case crm_ListRegions crm s of
        (Inl _, s1) \<Rightarrow> (ErrorResponse 502 ''upstream'' ''could not load cities'', s1)
      | (Inr rs, s1) \<Rightarrow>
          (ok (map (\<lambda>r. \<lparr>rj_ID = rg_Id r, rj_Name = rg_Name r, rj_Code = rg_Code r, rj_Timezone = rg_Timezone r,
                         rj_RestaurantCount = int64_of (rg_RestaurantCount r)\<rparr>) rs), s1))"

definition Restaurants :: "'s crm_api \<Rightarrow> string \<Rightarrow> ('s, restaurantJSON list) handler" where
  "Restaurants crm region_id s =
     (case crm_ListRestaurants crm region_id s of
        (Inl _, s1) \<Rightarrow> (ErrorResponse 502 ''upstream'' ''could not load restaurants'', s1)
      | (Inr rs, s1) \<Rightarrow> (ok (map restaurant_json rs), s1))"

definition Restaurant :: "'s crm_api \<Rightarrow> string \<Rightarrow> ('s, restaurantJSON) handler" where
  "Restaurant crm i s =
     (case crm_GetRestaurant crm i s of
        (Inl _, s1) \<Rightarrow> (NotFoundResponse ''restaurant not found'', s1)
      | (Inr r, s1) \<Rightarrow> (ok (restaurant_json r), s1))"

definition PublicOrder :: "'s order_service \<Rightarrow> string \<Rightarrow> ('s, OrderView) handler" where
  "PublicOrder S i s =
     (case Get S i s of
        (Inl e, s1) \<Rightarrow>
          (if IsValidationError e then NotFoundResponse ''order not found'' else FromError e, s1)
      | (Inr v, s1) \<Rightarrow> (ok (ToPublic v), s1))"

section \<open>menu_handler.go\<close>

text \<open>This endpoint has error bodies of its own: a string under \<open>error\<close>.\<close>

datatype 'a menu_response = Menu_Payload 'a | Menu_Error int string

definition MenuHandlerGet :: "'s menu_service \<Rightarrow> string \<Rightarrow> 's \<Rightarrow> string menu_response \<times> 's" where
  "MenuHandlerGet S restaurantID s =
     (if restaurantID = '''' then (Menu_Error 400 ''restaurant_id is required'', s)
      else case GetEffectiveMenu S restaurantID s of
             (Inl e, s1) \<Rightarrow>
               (if errors_is e ErrMenuNotFound then Menu_Error 404 ''restaurant not found''
                else Menu_Error 502 ''could not fetch menu'', s1)
           | (Inr payload, s1) \<Rightarrow> (Menu_Payload payload, s1))"

section \<open>customer_handler.go\<close>

text \<open>Times are in nanoseconds; \<open>MaxAge\<close> is in seconds.\<close>

record cookie =
  ck_Name :: string
  ck_Value :: string
  ck_Path :: string
  ck_MaxAge :: int
  ck_Expires :: int
  ck_HTTPOnly :: bool
  ck_Secure :: bool
  ck_SameSite :: string

definition refreshCookie :: string where "refreshCookie = ''kfc_rt''"
definition refreshCookiePath :: string where "refreshCookiePath = ''/api/v1/customer/auth''"

record 's customer_handler =
  ch_customers :: "'s customer_service"
  ch_orders :: "'s order_service"
  ch_cfg :: CustomerAuthConfig
  ch_Now :: "'s clock"

text \<open>A response with the cookie it sets.\<close>

type_synonym ('s, 'a) cookie_handler = "'s \<Rightarrow> ('a http_response \<times> cookie option) \<times> 's"

definition setRefreshCookie :: "'s customer_handler \<Rightarrow> string \<Rightarrow> 's \<Rightarrow> cookie \<times> 's" where
  "setRefreshCookie H token s =
     (let (t, s1) = ch_Now H s in
      (\<lparr>ck_Name = refreshCookie, ck_Value = token, ck_Path = refreshCookiePath,
        ck_MaxAge = int_seconds (cac_RefreshTTL (ch_cfg H)), ck_Expires = t + cac_RefreshTTL (ch_cfg H),
        ck_HTTPOnly = True, ck_Secure = cac_CookieSecure (ch_cfg H), ck_SameSite = ''Strict''\<rparr>, s1))"

definition clearRefreshCookie :: "'s customer_handler \<Rightarrow> cookie" where
  "clearRefreshCookie H =
     \<lparr>ck_Name = refreshCookie, ck_Value = '''', ck_Path = refreshCookiePath, ck_MaxAge = -1,
      ck_Expires = 0, ck_HTTPOnly = True, ck_Secure = cac_CookieSecure (ch_cfg H), ck_SameSite = ''Strict''\<rparr>"

definition RequestCodeHandler :: "'s customer_handler \<Rightarrow> string option \<Rightarrow> string \<Rightarrow> ('s, CodeSent) handler" where
  "RequestCodeHandler H body ip s =
     (case body of
        None \<Rightarrow> (BadRequest ''invalid request body'', s)
      | Some phone \<Rightarrow>
          (case RequestCode (ch_customers H) phone ip s of
             (Inl e, s1) \<Rightarrow> (FromError e, s1)
           | (Inr sent, s1) \<Rightarrow> (ok sent, s1)))"

record VerifyCodeRequest =
  vr_Phone :: string
  vr_Code :: string
  vr_FirstName :: string

text \<open>The refresh token goes into the cookie; the field of the session is not in the body.\<close>

definition session_body :: "Session \<Rightarrow> Session" where
  "session_body sess = sess\<lparr>sess_RefreshToken := ''''\<rparr>"

definition VerifyCodeHandler :: "'s customer_handler \<Rightarrow> VerifyCodeRequest option \<Rightarrow> ('s, Session) cookie_handler" where
  "VerifyCodeHandler H body s =
     (case body of
        None \<Rightarrow> ((BadRequest ''invalid request body'', None), s)
      | Some req \<Rightarrow>
          (case VerifyCode (ch_customers H) (vr_Phone req) (trim_space (vr_Code req)) (vr_FirstName req) s of
             (Inl e, s1) \<Rightarrow> ((FromError e, None), s1)
           | (Inr sess, s1) \<Rightarrow>
               (let (ck, s2) = setRefreshCookie H (sess_RefreshToken sess) s1
                in ((ok (session_body sess), Some ck), s2))))"

definition RefreshHandler :: "'s customer_handler \<Rightarrow> string \<Rightarrow> ('s, Session) cookie_handler" where
  "RefreshHandler H token s =
     (case Refresh (ch_customers H) token s of
        (Inl e, s1) \<Rightarrow> ((FromError e, Some (clearRefreshCookie H)), s1)
      | (Inr sess, s1) \<Rightarrow>
          (let (ck, s2) = setRefreshCookie H (sess_RefreshToken sess) s1
           in ((ok (session_body sess), Some ck), s2)))"

definition LogoutHandler :: "'s customer_handler \<Rightarrow> string \<Rightarrow> ('s, bool) cookie_handler" where
  "LogoutHandler H token s = ((ok True, Some (clearRefreshCookie H)), snd (Logout (ch_customers H) token s))"

text \<open>
  The account endpoints.  \<open>middleware.CustomerClaims\<close> gives what \<open>CustomerAuth\<close> left; without it
  reading the member panics, so that the claims are an argument.
\<close>

definition MeHandler :: "'s customer_handler \<Rightarrow> CustomerClaims \<Rightarrow> ('s, Member) handler" where
  "MeHandler H claims s =
     (case Me (ch_customers H) (cc_MemberID claims) s of
        (Inl e, s1) \<Rightarrow> (FromError e, s1) | (Inr m, s1) \<Rightarrow> (ok m, s1))"

definition UpdateMeHandler ::
  "'s customer_handler \<Rightarrow> CustomerClaims \<Rightarrow> (string \<times> string) option \<Rightarrow> ('s, Member) handler" where
  "UpdateMeHandler H claims body s =
     (case body of
        None \<Rightarrow> (BadRequest ''invalid request body'', s)
      | Some (firstName, email) \<Rightarrow>
          (case UpdateMe (ch_customers H) (cc_MemberID claims) firstName email s of
             (Inl e, s1) \<Rightarrow> (FromError e, s1) | (Inr m, s1) \<Rightarrow> (ok m, s1)))"

text \<open>\<open>c.QueryInt\<close>: the integer of a query parameter, or a default.\<close>

definition PointsHandler ::
  "'s customer_handler \<Rightarrow> CustomerClaims \<Rightarrow> (string \<Rightarrow> i64 \<Rightarrow> i64) \<Rightarrow> ('s, PointsHistory) handler" where
  "PointsHandler H claims queryInt s =
     (case Points (ch_customers H) (cc_MemberID claims) (queryInt ''limit'' 20) (queryInt ''offset'' 0) s of
        (Inl e, s1) \<Rightarrow> (FromError e, s1) | (Inr p, s1) \<Rightarrow> (ok p, s1))"

definition CodeHandler :: "'s customer_handler \<Rightarrow> CustomerClaims \<Rightarrow> ('s, MemberCode) handler" where
  "CodeHandler H claims s =
     (case IssueKioskCode (ch_customers H) (cc_MemberID claims) s of
        (Inl e, s1) \<Rightarrow> (FromError e, s1) | (Inr c, s1) \<Rightarrow> (ok c, s1))"

definition OrdersHandler ::
  "'s customer_handler \<Rightarrow> CustomerClaims \<Rightarrow> (string \<Rightarrow> i64 \<Rightarrow> i64) \<Rightarrow> ('s, OrderView list \<times> i64) handler" where
  "OrdersHandler H claims queryInt s =
     (case Orders (ch_customers H) (cc_MemberID claims) (queryInt ''limit'' 10) (queryInt ''offset'' 0) s of
        (Inl e, s1) \<Rightarrow> (FromError e, s1) | (Inr p, s1) \<Rightarrow> (ok p, s1))"

definition PlaceOrderHandler ::
  "'s customer_handler \<Rightarrow> CustomerClaims \<Rightarrow> string \<Rightarrow> PlaceOrderRequest option \<Rightarrow> ('s, OrderView) handler" where
  "PlaceOrderHandler H claims restaurantID body s =
     (case body of
        None \<Rightarrow> (BadRequest ''invalid request body'', s)
      | Some req \<Rightarrow>
          (case PlaceWebOrder (ch_orders H) (cc_MemberID claims) restaurantID req s of
             (Inl e, s1) \<Rightarrow> (FromError e, s1) | (Inr v, s1) \<Rightarrow> (created (ToPublic v), s1)))"

definition ProgramHandler :: "'s customer_handler \<Rightarrow> ('s, Program) handler" where
  "ProgramHandler H s =
     (case LoyaltyProgram (ch_customers H) s of
        (Inl e, s1) \<Rightarrow> (FromError e, s1) | (Inr p, s1) \<Rightarrow> (ok p, s1))"

definition IdentifyAtKioskHandler ::
  "'s customer_handler \<Rightarrow> DeviceTokenClaims option \<Rightarrow> string option \<Rightarrow> ('s, KioskSession) handler" where
  "IdentifyAtKioskHandler H claims body s =
     (case claims of
        None \<Rightarrow> (Unauthorized ''unauthorized'' ''missing device context'', s)
      | Some c \<Rightarrow>
          (case body of
             None \<Rightarrow> (BadRequest ''code is required'', s)
           | Some code \<Rightarrow>
               if trim_space code = '''' then (BadRequest ''code is required'', s)
               else (case IdentifyAtKiosk (ch_customers H) c code s of
                       (Inl e, s1) \<Rightarrow> (FromError e, s1) | (Inr k, s1) \<Rightarrow> (ok k, s1))))"

end
