(* ===== verification/Hub.thy ===== *)
theory Hub
  imports Prelude "HOL-Library.Multiset" "HOL-Library.Sublist"
begin

text \<open>
  The in-memory publish/subscribe hub of internal/sse/hub.go.  A subscriber is a buffered channel;
  channels are references into a heap, so that the hub, the streams and a publisher share them.  A
  send on a closed channel and a second close panic (\<open>None\<close>).  The maps of subscribers are lists of
  their keys and members; the order in which Go ranges over them is not specified, and is a
  parameter.

  The mutex makes every operation atomic with respect to subscribing and unsubscribing; each hub
  has one publisher (the goroutine of its Kafka consumer).
\<close>

section \<open>Channels\<close>

text \<open>Capacity of a subscriber's buffer.\<close>

definition buffer_size :: nat where "buffer_size = 8"

record channel =
  buffer :: "string list"
  is_closed :: bool

type_synonym subscriber = nat

definition make_chan :: channel where
  "make_chan = \<lparr>buffer = [], is_closed = False\<rparr>"

text \<open>A send that does not wait: false when the buffer is full.\<close>

definition trySend :: "subscriber \<Rightarrow> string \<Rightarrow> (subscriber \<Rightarrow> channel) \<Rightarrow> (bool \<times> (subscriber \<Rightarrow> channel)) option" where
  "trySend ch payload C =
     (if is_closed (C ch) then None
      else if length (buffer (C ch)) < buffer_size then
        Some (True, C(ch := (C ch)\<lparr>buffer := buffer (C ch) @ [payload]\<rparr>))
      else Some (False, C))"

definition close_chan :: "subscriber \<Rightarrow> (subscriber \<Rightarrow> channel) \<Rightarrow> (subscriber \<Rightarrow> channel) option" where
  "close_chan ch C = (if is_closed (C ch) then None else Some (C(ch := (C ch)\<lparr>is_closed := True\<rparr>)))"

text \<open>A receive: the oldest payload, the end of a closed channel, or nothing yet.\<close>

datatype received = Payload string | Closed_channel | Empty_channel

definition receive :: "subscriber \<Rightarrow> (subscriber \<Rightarrow> channel) \<Rightarrow> received \<times> (subscriber \<Rightarrow> channel)" where
  "receive ch C =
     (case buffer (C ch) of
        p # q \<Rightarrow> (Payload p, C(ch := (C ch)\<lparr>buffer := q\<rparr>))
      | [] \<Rightarrow> (if is_closed (C ch) then Closed_channel else Empty_channel, C))"

section \<open>The hub\<close>

text \<open>\<open>fresh\<close> is the next reference \<open>make\<close> returns.\<close>

record hub =
  byRestaurant :: "(string \<times> subscriber list) list"
  hub_global :: "subscriber list"
  chans :: "subscriber \<Rightarrow> channel"
  fresh :: subscriber

definition NewHub :: "(subscriber \<Rightarrow> channel) \<Rightarrow> subscriber \<Rightarrow> hub" where
  "NewHub C n = \<lparr>byRestaurant = [], hub_global = [], chans = C, fresh = n\<rparr>"

definition set_entry :: "string \<Rightarrow> subscriber list \<Rightarrow> (string \<times> subscriber list) list \<Rightarrow> (string \<times> subscriber list) list" where
  "set_entry k v m = (k, v) # filter (\<lambda>x. fst x \<noteq> k) m"

definition subs_of :: "string \<Rightarrow> (string \<times> subscriber list) list \<Rightarrow> subscriber list" where
  "subs_of k m = (case map_of m k of None \<Rightarrow> [] | Some v \<Rightarrow> v)"

definition Subscribe :: "string \<Rightarrow> hub \<Rightarrow> subscriber \<times> hub" where
  "Subscribe r h =
     (let ch = fresh h;
          h1 = h\<lparr>fresh := ch + 1, chans := (chans h)(ch := make_chan)\<rparr>
      in if r = '''' then (ch, h1\<lparr>hub_global := List.insert ch (hub_global h)\<rparr>)
         else (ch, h1\<lparr>byRestaurant := set_entry r (List.insert ch (subs_of r (byRestaurant h))) (byRestaurant h)\<rparr>))"

definition Unsubscribe :: "string \<Rightarrow> subscriber \<Rightarrow> hub \<Rightarrow> hub option" where
  "Unsubscribe r ch h =
     (let h1 = (if r = '''' then h\<lparr>hub_global := removeAll ch (hub_global h)\<rparr>
                else case map_of (byRestaurant h) r of
                       None \<Rightarrow> h
                     | Some subs \<Rightarrow>
                         let left = removeAll ch subs in
                         if left = [] then h\<lparr>byRestaurant := filter (\<lambda>x. fst x \<noteq> r) (byRestaurant h)\<rparr>
                         else h\<lparr>byRestaurant := set_entry r left (byRestaurant h)\<rparr>)
      in case close_chan ch (chans h1) of None \<Rightarrow> None | Some C \<Rightarrow> Some (h1\<lparr>chans := C\<rparr>))"

fun send_each :: "string \<Rightarrow> subscriber list \<Rightarrow> (subscriber \<Rightarrow> channel) \<Rightarrow> (subscriber \<Rightarrow> channel) option" where
  "send_each payload [] C = Some C"
| "send_each payload (ch # chs) C =
     (case trySend ch payload C of None \<Rightarrow> None | Some (_, C1) \<Rightarrow> send_each payload chs C1)"

text \<open>Whom an event goes to; \<open>ord\<close> is the order Go ranges in.\<close>

definition audience_of :: "(subscriber list \<Rightarrow> subscriber list) \<Rightarrow> string \<Rightarrow> hub \<Rightarrow> subscriber list" where
  "audience_of ord r h =
     (if r = '''' then ord (hub_global h) @ ord (concat (map snd (byRestaurant h)))
      else ord (subs_of r (byRestaurant h)) @ ord (hub_global h))"

definition Publish :: "(subscriber list \<Rightarrow> subscriber list) \<Rightarrow> string \<Rightarrow> string \<Rightarrow> hub \<Rightarrow> hub option" where
  "Publish ord r payload h =
     (case send_each payload (audience_of ord r h) (chans h) of
        None \<Rightarrow> None | Some C \<Rightarrow> Some (h\<lparr>chans := C\<rparr>))"

section \<open>What the hub promises\<close>

text \<open>
  The contract: every subscriber has a key (a restaurant, or the empty string for all) and a queue of
  at most eight payloads.  An event for a restaurant goes to its subscribers and to the global ones,
  an event for no restaurant to everyone; it is dropped where the queue is full.
\<close>

type_synonym queues = "subscriber \<rightharpoonup> string \<times> string list"

definition hears :: "string \<Rightarrow> string \<Rightarrow> bool" where
  "hears key r \<longleftrightarrow> r = '''' \<or> key = '''' \<or> key = r"

definition enqueue :: "string \<Rightarrow> string list \<Rightarrow> string list" where
  "enqueue p q = (if length q < buffer_size then q @ [p] else q)"

definition publish_spec :: "string \<Rightarrow> string \<Rightarrow> queues \<Rightarrow> queues" where
  "publish_spec r p A = (\<lambda>c. map_option (\<lambda>(k, q). (k, if hears k r then enqueue p q else q)) (A c))"

definition registered :: "hub \<Rightarrow> subscriber list" where
  "registered h = hub_global h @ concat (map snd (byRestaurant h))"

definition hub_ok :: "hub \<Rightarrow> bool" where
  "hub_ok h \<longleftrightarrow> distinct (map fst (byRestaurant h)) \<and> distinct (registered h)
     \<and> (\<forall>x \<in> set (byRestaurant h). fst x \<noteq> '''' \<and> snd x \<noteq> [])
     \<and> (\<forall>c \<in> set (registered h). c < fresh h \<and> \<not> is_closed (chans h c) \<and> length (buffer (chans h c)) \<le> buffer_size)"

text \<open>The key of a subscriber, and its queue.\<close>

definition key_of :: "hub \<Rightarrow> subscriber \<rightharpoonup> string" where
  "key_of h c =
     (if c \<in> set (hub_global h) then Some ''''
      else map_option fst (find (\<lambda>x. c \<in> set (snd x)) (byRestaurant h)))"

definition queues_of :: "hub \<Rightarrow> queues" where
  "queues_of h = (\<lambda>c. map_option (\<lambda>k. (k, buffer (chans h c))) (key_of h c))"

lemma in_subs_of:
  assumes "distinct (map fst m)"
  shows "c \<in> set (subs_of r m) \<longleftrightarrow> (\<exists>v. (r, v) \<in> set m \<and> c \<in> set v)"
  using assms by (auto simp: subs_of_def map_of_eq_Some_iff split: option.split dest: map_of_SomeD)

lemma key_of_Some:
  assumes ok: "hub_ok h"
  shows "key_of h c = Some k \<longleftrightarrow>
    (k = '''' \<and> c \<in> set (hub_global h)) \<or> (k \<noteq> '''' \<and> c \<in> set (subs_of k (byRestaurant h)))"
proof -
  let ?m = "byRestaurant h"
  have dist: "distinct (map fst ?m)" "distinct (concat (map snd ?m))"
    using ok by (simp_all add: hub_ok_def registered_def)
  have named: "v \<noteq> ''''" "c \<in> set x \<Longrightarrow> c \<notin> set (hub_global h)" if "(v, x) \<in> set ?m" for v x
  proof -
    show "v \<noteq> ''''" using ok that by (auto simp: hub_ok_def)
    have "set x \<subseteq> set (concat (map snd ?m))" using that by (auto intro!: bexI [of _ "(v, x)"])
    moreover have "set (hub_global h) \<inter> set (concat (map snd ?m)) = {}"
      using ok unfolding hub_ok_def registered_def distinct_append by blast
    ultimately show "c \<in> set x \<Longrightarrow> c \<notin> set (hub_global h)" by blast
  qed
  have one: "x = y" if "x \<in> set m" "y \<in> set m" "c \<in> set (snd x)" "c \<in> set (snd y)"
      "distinct (concat (map snd m))" for x y and m :: "(string \<times> nat list) list"
    using that
  proof (induction m)
    case (Cons z m)
    have "c \<in> set (concat (map snd m))" if "w \<in> set m" "c \<in> set (snd w)" for w using that by auto
    with Cons show ?case by (cases "x = z"; cases "y = z") auto
  qed simp
  have f: "find (\<lambda>x. c \<in> set (snd x)) ?m = Some (k, v) \<longleftrightarrow> (k, v) \<in> set ?m \<and> c \<in> set v" for v
  proof (cases "find (\<lambda>x. c \<in> set (snd x)) ?m")
    case None
    then have "\<forall>x \<in> set ?m. c \<notin> set (snd x)" by (auto simp: find_None_iff)
    with None show ?thesis by auto
  next
    case (Some y)
    then have "y \<in> set ?m" "c \<in> set (snd y)" by (auto simp: find_Some_iff)
    with one [of y ?m "(k, v)"] dist(2) Some show ?thesis by auto
  qed
  show ?thesis
    using dist f by (auto simp: key_of_def in_subs_of dest: named)
qed

lemma registered_key: "c \<in> set (registered h) \<longleftrightarrow> (\<exists>k. key_of h c = Some k)"
proof (cases "find (\<lambda>x. c \<in> set (snd x)) (byRestaurant h)")
  case None
  then have "\<forall>x \<in> set (byRestaurant h). c \<notin> set (snd x)" by (auto simp: find_None_iff)
  with None show ?thesis by (auto simp: registered_def key_of_def)
next
  case (Some x)
  then have "x \<in> set (byRestaurant h)" "c \<in> set (snd x)" by (auto simp: find_Some_iff)
  with Some show ?thesis by (auto simp: registered_def key_of_def)
qed

lemma hub_okD:
  assumes "hub_ok h" and "key_of h c = Some k"
  shows "\<not> is_closed (chans h c)" "c < fresh h" "length (buffer (chans h c)) \<le> buffer_size"
  using assms registered_key [of c h] by (auto simp: hub_ok_def)

section \<open>Sending\<close>

lemma send_each_open:
  assumes "distinct chs" and "\<forall>c \<in> set chs. \<not> is_closed (C c)"
  shows "\<exists>C'. send_each p chs C = Some C' \<and> (\<forall>c. C' c = (if c \<in> set chs
    then (C c)\<lparr>buffer := enqueue p (buffer (C c))\<rparr> else C c))"
  using assms
proof (induction chs arbitrary: C)
  case (Cons ch chs)
  define C1 where "C1 = C(ch := (C ch)\<lparr>buffer := enqueue p (buffer (C ch))\<rparr>)"
  have "\<exists>b. trySend ch p C = Some (b, C1)"
    using Cons.prems(2) by (auto simp: trySend_def enqueue_def C1_def)
  moreover have "\<forall>c \<in> set chs. \<not> is_closed (C1 c)" using Cons.prems by (simp add: C1_def)
  moreover have "distinct chs" using Cons.prems by simp
  ultimately obtain C' where "send_each p (ch # chs) C = Some C'" "\<forall>c. C' c = (if c \<in> set chs
      then (C1 c)\<lparr>buffer := enqueue p (buffer (C1 c))\<rparr> else C1 c)"
    using Cons.IH [of C1] by auto
  then show ?case using Cons.prems(1) by (auto simp: C1_def)
qed simp

text \<open>Go's ranging order: any order, the same elements.\<close>

definition ranges :: "(subscriber list \<Rightarrow> subscriber list) \<Rightarrow> bool" where
  "ranges ord \<longleftrightarrow> (\<forall>xs. mset (ord xs) = mset xs)"

lemma rangesD:
  assumes "ranges ord"
  shows "set (ord xs) = set xs" "distinct (ord xs) \<longleftrightarrow> distinct xs"
  using assms unfolding ranges_def by (metis set_mset_mset, metis mset_eq_imp_distinct_iff)

lemma audience_of:
  assumes ok: "hub_ok h" and ord: "ranges ord"
  shows "distinct (audience_of ord r h)"
    "c \<in> set (audience_of ord r h) \<longleftrightarrow> (\<exists>k. key_of h c = Some k \<and> hears k r)"
proof -
  have d: "distinct (registered h)" "distinct (map fst (byRestaurant h))" using ok by (simp_all add: hub_ok_def)
  have sub: "distinct (subs_of r (byRestaurant h)) \<and> set (subs_of r (byRestaurant h)) \<inter> set (hub_global h) = {}"
  proof (cases "map_of (byRestaurant h) r")
    case (Some v)
    then have "v \<in> set (map snd (byRestaurant h))" by (force dest: map_of_SomeD)
    with d(1) Some show ?thesis
      by (auto simp: subs_of_def registered_def distinct_concat_iff)
  qed (simp add: subs_of_def)
  show "distinct (audience_of ord r h)"
    using d(1) sub rangesD [OF ord] by (auto simp: audience_of_def registered_def)
  show "c \<in> set (audience_of ord r h) \<longleftrightarrow> (\<exists>k. key_of h c = Some k \<and> hears k r)"
  proof (cases "r = ''''")
    case True
    then have "c \<in> set (audience_of ord r h) \<longleftrightarrow> c \<in> set (registered h)"
      using rangesD(1) [OF ord] by (simp add: audience_of_def registered_def)
    with True registered_key [of c h] show ?thesis by (simp add: hears_def)
  next
    case False
    with rangesD(1) [OF ord] key_of_Some [OF ok, of c] show ?thesis
      by (auto simp: audience_of_def hears_def)
  qed
qed

section \<open>Subscribing\<close>

lemma concat_split:
  assumes "distinct (map fst m)"
  shows "mset (concat (map snd m)) = mset (subs_of r m @ concat (map snd (filter (\<lambda>x. fst x \<noteq> r) m)))"
  using assms
proof (induction m)
  case (Cons x m)
  have "filter (\<lambda>y. fst y \<noteq> r) m = m" if "fst x = r"
    using Cons.prems that by (auto simp: filter_id_conv rev_image_eqI)
  moreover have "subs_of r m = []" if "fst x = r"
    using Cons.prems that by (auto simp: subs_of_def split: option.split dest!: map_of_SomeD intro: rev_image_eqI)
  ultimately show ?case using Cons by (cases x) (auto simp: subs_of_def)
qed (simp add: subs_of_def)

lemma set_entry_keys: "distinct (map fst m) \<Longrightarrow> distinct (map fst (set_entry r v m))"
  by (auto simp: set_entry_def distinct_map inj_on_def intro: distinct_filter)

lemma subs_of_set_entry: "subs_of k (set_entry r v m) = (if k = r then v else subs_of k m)"
  by (simp add: set_entry_def subs_of_def map_of_filter_fst [of "\<lambda>x. x \<noteq> r"])

text \<open>Replacing the members of one restaurant in a well-formed hub.\<close>

lemma hub_ok_replace:
  assumes ok: "hub_ok h" and r: "r \<noteq> ''''" and v: "v \<noteq> []"
    and d: "distinct (v @ hub_global h @ concat (map snd (filter (\<lambda>x. fst x \<noteq> r) (byRestaurant h))))"
    and live: "\<And>c. c \<in> set v \<or> c \<in> set (hub_global h) \<or> (\<exists>x \<in> set (byRestaurant h). fst x \<noteq> r \<and> c \<in> set (snd x)) \<Longrightarrow>
      c < n \<and> \<not> is_closed (C c) \<and> length (buffer (C c)) \<le> buffer_size"
  shows "hub_ok (h\<lparr>byRestaurant := set_entry r v (byRestaurant h), chans := C, fresh := n\<rparr>)"
proof -
  have "distinct (map fst (set_entry r v (byRestaurant h)))"
    using ok by (simp add: hub_ok_def set_entry_keys)
  moreover have "\<forall>x \<in> set (set_entry r v (byRestaurant h)). fst x \<noteq> '''' \<and> snd x \<noteq> []"
    using ok r v by (auto simp: hub_ok_def set_entry_def)
  moreover have "distinct (hub_global h @ concat (map snd (set_entry r v (byRestaurant h))))"
    using d by (auto simp: set_entry_def)
  ultimately show ?thesis
    using live by (auto simp: hub_ok_def registered_def set_entry_def)
qed

lemma others_distinct:
  assumes "hub_ok h"
  shows "distinct (subs_of r (byRestaurant h) @ hub_global h
    @ concat (map snd (filter (\<lambda>x. fst x \<noteq> r) (byRestaurant h))))"
proof -
  have m: "mset (concat (map snd (byRestaurant h)))
      = mset (subs_of r (byRestaurant h) @ concat (map snd (filter (\<lambda>x. fst x \<noteq> r) (byRestaurant h))))"
    using assms concat_split [of "byRestaurant h" r] by (simp add: hub_ok_def)
  have "mset (registered h) = mset (subs_of r (byRestaurant h) @ hub_global h
      @ concat (map snd (filter (\<lambda>x. fst x \<noteq> r) (byRestaurant h))))"
    using m by (simp add: registered_def)
  with assms show ?thesis unfolding hub_ok_def by (metis mset_eq_imp_distinct_iff)
qed

lemma registered_others:
  assumes "hub_ok h" and "c \<in> set (subs_of r (byRestaurant h)) \<or> c \<in> set (hub_global h) \<or> (\<exists>x \<in> set (byRestaurant h). c \<in> set (snd x))"
  shows "c < fresh h \<and> \<not> is_closed (chans h c) \<and> length (buffer (chans h c)) \<le> buffer_size"
proof -
  have "c \<in> set (registered h)"
    using assms in_subs_of [of "byRestaurant h" c r] by (fastforce simp: hub_ok_def registered_def)
  with assms(1) show ?thesis by (simp add: hub_ok_def)
qed

lemma Subscribe_ok:
  assumes ok: "hub_ok h"
  shows "hub_ok (snd (Subscribe r h))"
proof (cases "r = ''''")
  case True
  have "fresh h \<notin> set (registered h)" using ok by (auto simp: hub_ok_def)
  then have new: "fresh h \<notin> set (hub_global h)" "\<forall>x \<in> set (byRestaurant h). fresh h \<notin> set (snd x)"
    by (auto simp: registered_def)
  with True ok show ?thesis
    by (auto simp: Subscribe_def hub_ok_def registered_def Let_def make_chan_def List.insert_def less_Suc_eq)
next
  case False
  let ?subs = "subs_of r (byRestaurant h)"
  have "fresh h \<notin> set (registered h)" using ok by (auto simp: hub_ok_def)
  then have new: "fresh h \<notin> set (hub_global h)" "\<forall>x \<in> set (byRestaurant h). fresh h \<notin> set (snd x)"
    "fresh h \<notin> set ?subs"
    using in_subs_of [of "byRestaurant h" "fresh h" r] ok by (auto simp: registered_def hub_ok_def)
  have "hub_ok (h\<lparr>byRestaurant := set_entry r (List.insert (fresh h) ?subs) (byRestaurant h),
      chans := (chans h)(fresh h := make_chan), fresh := fresh h + 1\<rparr>)"
    using new others_distinct [OF ok, of r] registered_others [OF ok, of _ r]
    by (intro hub_ok_replace [OF ok False]) (auto simp: List.insert_def make_chan_def less_Suc_eq)
  with False show ?thesis by (simp add: Subscribe_def Let_def hub_ok_def registered_def)
qed

lemma Subscribe_key:
  assumes ok: "hub_ok h"
  shows "key_of (snd (Subscribe r h)) = (key_of h)(fresh h \<mapsto> r)"
proof
  fix c
  note K = key_of_Some [OF ok, of c] key_of_Some [OF Subscribe_ok [OF ok], of r c]
  have "key_of (snd (Subscribe r h)) c = Some k \<longleftrightarrow> ((key_of h)(fresh h \<mapsto> r)) c = Some k" for k
  proof (cases "c = fresh h")
    case True
    have "key_of h c = None" using hub_okD(2) [OF ok, of c] True by (cases "key_of h c") auto
    with True K show ?thesis by (auto simp: Subscribe_def Let_def subs_of_set_entry)
  next
    case False
    with K show ?thesis by (auto simp: Subscribe_def Let_def subs_of_set_entry)
  qed
  then show "key_of (snd (Subscribe r h)) c = ((key_of h)(fresh h \<mapsto> r)) c"
    by (metis option.exhaust)
qed

section \<open>Unsubscribing, publishing, receiving\<close>

lemma Unsubscribe_ok:
  assumes ok: "hub_ok h" and key: "key_of h ch = Some r"
  shows "\<exists>h'. Unsubscribe r ch h = Some h' \<and> hub_ok h' \<and> key_of h' = (key_of h)(ch := None)
    \<and> (\<forall>c. c \<noteq> ch \<longrightarrow> chans h' c = chans h c) \<and> is_closed (chans h' ch) \<and> fresh h' = fresh h"
proof -
  let ?C = "(chans h)(ch := (chans h ch)\<lparr>is_closed := True\<rparr>)" and ?m = "byRestaurant h"
  have close: "close_chan ch (chans h) = Some ?C"
    using hub_okD(1) [OF ok key] by (simp add: close_chan_def)
  have here: "r = '''' \<and> ch \<in> set (hub_global h) \<or> r \<noteq> '''' \<and> ch \<in> set (subs_of r ?m)"
    using key_of_Some [OF ok] key by blast
  have keys: "key_of h' = (key_of h)(ch := None)" if ok': "hub_ok h'"
    and g: "set (hub_global h') = (if r = '''' then set (hub_global h) - {ch} else set (hub_global h))"
    and s: "\<And>k. k \<noteq> '''' \<Longrightarrow> set (subs_of k (byRestaurant h')) = (if k = r then set (subs_of k ?m) - {ch} else set (subs_of k ?m))" for h'
  proof
    fix c
    have other: "key_of h ch = Some k \<Longrightarrow> k = r" for k using key by simp
    have "key_of h' c = Some k \<longleftrightarrow> key_of h c = Some k \<and> c \<noteq> ch" for k
    proof (cases "k = ''''")
      case True
      have "key_of h' c = Some k \<longleftrightarrow> c \<in> set (hub_global h')" "key_of h c = Some k \<longleftrightarrow> c \<in> set (hub_global h)"
        using True key_of_Some [OF ok, of c k] key_of_Some [OF ok', of c k] by blast+
      with True g other [of k] show ?thesis by (cases "r = ''''") auto
    next
      case False
      have "key_of h' c = Some k \<longleftrightarrow> c \<in> set (subs_of k (byRestaurant h'))"
        "key_of h c = Some k \<longleftrightarrow> c \<in> set (subs_of k ?m)"
        using False key_of_Some [OF ok, of c k] key_of_Some [OF ok', of c k] by blast+
      with s [OF False] other [of k] show ?thesis by (cases "k = r") auto
    qed
    then have "key_of h' c = Some k \<longleftrightarrow> ((key_of h)(ch := None)) c = Some k" for k by auto
    then show "key_of h' c = ((key_of h)(ch := None)) c" by (metis option.exhaust)
  qed
  note others = others_distinct [OF ok, of r] and live = registered_others [OF ok, of _ r]
  show ?thesis
  proof (cases "r = ''''")
    case True
    let ?h = "h\<lparr>hub_global := removeAll ch (hub_global h), chans := ?C\<rparr>"
    have "hub_ok ?h"
      using ok here True by (auto simp: hub_ok_def registered_def distinct_removeAll)
    moreover have "Unsubscribe r ch h = Some ?h" using True close by (simp add: Unsubscribe_def)
    ultimately show ?thesis using keys [of ?h] True by auto
  next
    case False
    then obtain subs where m: "map_of ?m r = Some subs" "subs_of r ?m = subs" "ch \<in> set subs"
      using here by (cases "map_of ?m r") (auto simp: subs_of_def)
    let ?left = "removeAll ch subs"
    from others m(2) have "set subs \<inter> (set (hub_global h) \<union> set (concat (map snd (filter (\<lambda>x. fst x \<noteq> r) ?m)))) = {}"
      by simp
    with m(3) have gone: "ch \<notin> set (hub_global h)" "\<And>x. x \<in> set ?m \<Longrightarrow> fst x \<noteq> r \<Longrightarrow> ch \<notin> set (snd x)"
      by auto
    show ?thesis
    proof (cases "?left = []")
      case True
      let ?h = "h\<lparr>byRestaurant := filter (\<lambda>x. fst x \<noteq> r) ?m, chans := ?C\<rparr>"
      have "distinct (map fst (filter (\<lambda>x. fst x \<noteq> r) ?m))"
        using set_entry_keys [of ?m r "[]"] ok by (simp add: hub_ok_def set_entry_def)
      moreover have "distinct (registered ?h)" using others by (simp add: registered_def)
      moreover have "c < fresh ?h \<and> \<not> is_closed (chans ?h c) \<and> length (buffer (chans ?h c)) \<le> buffer_size"
        if "c \<in> set (registered ?h)" for c
      proof -
        from that have c: "c \<in> set (hub_global h) \<or> (\<exists>x \<in> set ?m. fst x \<noteq> r \<and> c \<in> set (snd x))"
          by (fastforce simp: registered_def)
        with gone have "c \<noteq> ch" by blast
        with live [of c] c show ?thesis by auto
      qed
      ultimately have "hub_ok ?h" using ok by (auto simp: hub_ok_def)
      moreover have "Unsubscribe r ch h = Some ?h" using False True m close by (simp add: Unsubscribe_def Let_def)
      moreover have "set subs - {ch} = {}" using arg_cong [OF True, of set] by simp
      then have "set (subs_of k (byRestaurant ?h)) = (if k = r then set (subs_of k ?m) - {ch} else set (subs_of k ?m))" for k
        using m by (auto simp: subs_of_def map_of_filter_fst [of "\<lambda>x. x \<noteq> r"] split: if_splits)
      ultimately show ?thesis using keys [of ?h] False by auto
    next
      case left: False
      let ?h = "h\<lparr>byRestaurant := set_entry r ?left ?m, chans := ?C, fresh := fresh h\<rparr>"
      have "hub_ok ?h"
      proof (rule hub_ok_replace [OF ok False left])
        show "distinct (?left @ hub_global h @ concat (map snd (filter (\<lambda>x. fst x \<noteq> r) ?m)))"
          using others m(2) by (auto simp: distinct_removeAll)
        fix c
        assume c: "c \<in> set ?left \<or> c \<in> set (hub_global h) \<or> (\<exists>x \<in> set ?m. fst x \<noteq> r \<and> c \<in> set (snd x))"
        with gone have "c \<noteq> ch" by auto
        with live [of c] c m(2) show "c < fresh h \<and> \<not> is_closed (?C c) \<and> length (buffer (?C c)) \<le> buffer_size"
          by auto
      qed
      moreover have "Unsubscribe r ch h = Some ?h" using False left m close by (simp add: Unsubscribe_def Let_def)
      ultimately show ?thesis using keys [of ?h] False m by (auto simp: subs_of_set_entry)
    qed
  qed
qed

lemma Publish_ok:
  assumes ok: "hub_ok h" and ord: "ranges ord"
  shows "\<exists>h'. Publish ord r p h = Some h' \<and> hub_ok h' \<and> key_of h' = key_of h \<and> fresh h' = fresh h
    \<and> (\<forall>c. chans h' c = (if \<exists>k. key_of h c = Some k \<and> hears k r
         then (chans h c)\<lparr>buffer := enqueue p (buffer (chans h c))\<rparr> else chans h c))"
proof -
  have "\<forall>c \<in> set (audience_of ord r h). \<not> is_closed (chans h c)"
    using audience_of(2) [OF ok ord] hub_okD(1) [OF ok] by blast
  with send_each_open [OF audience_of(1) [OF ok ord]] obtain C' where
    C': "send_each p (audience_of ord r h) (chans h) = Some C'" "\<forall>c. C' c = (if c \<in> set (audience_of ord r h)
        then (chans h c)\<lparr>buffer := enqueue p (buffer (chans h c))\<rparr> else chans h c)" by blast
  let ?h = "h\<lparr>chans := C'\<rparr>"
  have k: "key_of ?h = key_of h" by (simp add: key_of_def fun_eq_iff)
  have "hub_ok ?h"
    using ok C'(2) by (auto simp: hub_ok_def registered_def enqueue_def)
  with k C' audience_of(2) [OF ok ord] show ?thesis by (auto simp: Publish_def)
qed

lemma Publish_queues:
  assumes ok: "hub_ok h" and ord: "ranges ord"
  shows "\<exists>h'. Publish ord r' p h = Some h' \<and> queues_of h' = publish_spec r' p (queues_of h)"
proof -
  obtain h' where h': "Publish ord r' p h = Some h'" "key_of h' = key_of h"
      "\<forall>c. chans h' c = (if \<exists>k. key_of h c = Some k \<and> hears k r'
         then (chans h c)\<lparr>buffer := enqueue p (buffer (chans h c))\<rparr> else chans h c)"
    using Publish_ok [OF ok ord, of r' p] by blast
  have "queues_of h' c = publish_spec r' p (queues_of h) c" for c
    using h'(2,3) by (cases "key_of h c") (auto simp: queues_of_def publish_spec_def)
  then show ?thesis using h'(1) by blast
qed

lemma receive_ok:
  assumes ok: "hub_ok h" and k: "key_of h c = Some k"
  shows "hub_ok (h\<lparr>chans := snd (receive c (chans h))\<rparr>)"
    "queues_of (h\<lparr>chans := snd (receive c (chans h))\<rparr>) = (queues_of h)(c \<mapsto> (k, tl (buffer (chans h c))))"
    "fst (receive c (chans h)) = (case buffer (chans h c) of [] \<Rightarrow> Empty_channel | p # q \<Rightarrow> Payload p)"
proof -
  have C: "snd (receive c (chans h)) = (chans h)(c := (chans h c)\<lparr>buffer := tl (buffer (chans h c))\<rparr>)"
    by (auto simp: receive_def split: list.split)
  show "hub_ok (h\<lparr>chans := snd (receive c (chans h))\<rparr>)"
    using ok hub_okD(3) [OF ok k] unfolding C by (auto simp: hub_ok_def registered_def)
  have "key_of (h\<lparr>chans := snd (receive c (chans h))\<rparr>) = key_of h" by (simp add: key_of_def fun_eq_iff)
  with k show "queues_of (h\<lparr>chans := snd (receive c (chans h))\<rparr>) = (queues_of h)(c \<mapsto> (k, tl (buffer (chans h c))))"
    unfolding C by (auto simp: queues_of_def fun_eq_iff)
  show "fst (receive c (chans h)) = (case buffer (chans h c) of [] \<Rightarrow> Empty_channel | p # q \<Rightarrow> Payload p)"
    using hub_okD(1) [OF ok k] by (auto simp: receive_def split: list.split)
qed

section \<open>Runs\<close>

text \<open>
  A run of the hub, as the streams and the consumer drive it: a stream leaves with the restaurant it
  subscribed with.  The trace records what was published and what each subscriber received.
\<close>

datatype hub_event = Published string string | Received subscriber string | Joined | Departed subscriber

inductive hub_run :: "(subscriber list \<Rightarrow> subscriber list) \<Rightarrow> hub \<Rightarrow> hub_event list \<Rightarrow> hub \<Rightarrow> bool" for ord h0 where
  begins: "hub_run ord h0 [] h0"
| joins: "hub_run ord h0 tr h \<Longrightarrow> hub_run ord h0 (tr @ [Joined]) (snd (Subscribe r h))"
| leaves: "hub_run ord h0 tr h \<Longrightarrow> key_of h c = Some r \<Longrightarrow> Unsubscribe r c h = Some h' \<Longrightarrow>
    hub_run ord h0 (tr @ [Departed c]) h'"
| publishes: "hub_run ord h0 tr h \<Longrightarrow> Publish ord r p h = Some h' \<Longrightarrow> hub_run ord h0 (tr @ [Published r p]) h'"
| receives: "hub_run ord h0 tr h \<Longrightarrow> key_of h c = Some k \<Longrightarrow> receive c (chans h) = (Payload p, C) \<Longrightarrow>
    hub_run ord h0 (tr @ [Received c p]) (h\<lparr>chans := C\<rparr>)"

definition heard :: "string \<Rightarrow> hub_event list \<Rightarrow> string list" where
  "heard key tr = concat (map (\<lambda>e. case e of Published r p \<Rightarrow> if hears key r then [p] else [] | _ \<Rightarrow> []) tr)"

definition got :: "subscriber \<Rightarrow> hub_event list \<Rightarrow> string list" where
  "got c tr = concat (map (\<lambda>e. case e of Received c' p \<Rightarrow> if c' = c then [p] else [] | _ \<Rightarrow> []) tr)"

lemma trace_simps [simp]:
  "heard key [] = []" "got c [] = []"
  "heard key (tr @ [e]) = heard key tr @ (case e of Published r p \<Rightarrow> if hears key r then [p] else [] | _ \<Rightarrow> [])"
  "got c (tr @ [e]) = got c tr @ (case e of Received c' p \<Rightarrow> if c' = c then [p] else [] | _ \<Rightarrow> [])"
  by (simp_all add: heard_def got_def)

lemma hub_run_ok:
  assumes "hub_run ord h0 tr h" and ok: "hub_ok h0" and ord: "ranges ord"
  shows "hub_ok h"
  using assms(1,2)
proof induction
  case (leaves tr h c r h')
  then show ?case using Unsubscribe_ok [of h c r] by auto
next
  case (publishes tr h r p h')
  then show ?case using Publish_ok [of h ord r p] ord by auto
next
  case (receives tr h c k p C)
  then show ?case using receive_ok(1) [of h c k] by simp
qed (simp_all add: Subscribe_ok)

text \<open>A subscriber that keeps up: never more than a buffer's worth behind.\<close>

definition keeps_up :: "subscriber \<Rightarrow> string \<Rightarrow> hub_event list \<Rightarrow> bool" where
  "keeps_up c key tr \<longleftrightarrow>
     (\<forall>n \<le> length tr. length (heard key (take n tr)) \<le> length (got c (take n tr)) + buffer_size)"

lemma keeps_up_snoc: "keeps_up c key (tr @ [e]) \<longleftrightarrow>
    keeps_up c key tr \<and> length (heard key (tr @ [e])) \<le> length (got c (tr @ [e])) + buffer_size"
proof -
  have "take n (tr @ [e]) = (if n \<le> length tr then take n tr else tr @ [e])" if "n \<le> Suc (length tr)" for n
    using that by (auto simp: not_le)
  then show ?thesis
    unfolding keeps_up_def by (auto simp del: trace_simps simp: le_Suc_eq)
qed

text \<open>What a subscriber has received and what waits for it, against what was published.\<close>

definition served_by :: "subscriber \<Rightarrow> string \<Rightarrow> hub_event list \<Rightarrow> hub \<Rightarrow> bool" where
  "served_by c key tr h \<longleftrightarrow> key_of h c = Some key \<and> subseq (got c tr @ buffer (chans h c)) (heard key tr)
     \<and> (keeps_up c key tr \<longrightarrow> got c tr @ buffer (chans h c) = heard key tr)"

lemma served_by_idle:
  assumes "served_by c key tr h" and "key_of h' c = key_of h c" and "chans h' c = chans h c"
    and "heard key (tr @ [e]) = heard key tr" and "got c (tr @ [e]) = got c tr"
  shows "served_by c key (tr @ [e]) h'"
  using assms by (auto simp: served_by_def keeps_up_snoc simp del: trace_simps)

lemma served_by_publish:
  assumes "served_by c key tr h" and "key_of h' c = Some key" and "hears key r"
    and "buffer (chans h' c) = enqueue p (buffer (chans h c))" and "length (buffer (chans h c)) \<le> buffer_size"
  shows "served_by c key (tr @ [Published r p]) h'"
proof -
  have "subseq ((got c tr @ buffer (chans h c)) @ [p]) (heard key tr @ [p])"
    using assms(1) unfolding served_by_def by (intro list_emb_append_mono) auto
  then show ?thesis
    using assms by (auto simp: served_by_def keeps_up_snoc enqueue_def dest: arg_cong [of _ _ length])
qed

lemma served_by_receive:
  assumes "served_by c key tr h" and "key_of h' c = Some key" and "buffer (chans h c) = p # buffer (chans h' c)"
  shows "served_by c key (tr @ [Received c p]) h'"
  using assms by (auto simp: served_by_def keeps_up_snoc)

lemma hub_run_serves:
  assumes "hub_run ord h0 tr h" and ok: "hub_ok h0" and ord: "ranges ord"
    and new: "key_of h0 c = Some key" "buffer (chans h0 c) = []"
  shows "c < fresh h \<and> (Departed c \<notin> set tr \<longrightarrow> served_by c key tr h)"
  using assms(1)
proof induction
  case begins
  show ?case using hub_okD(2) [OF ok new(1)] new by (simp add: served_by_def)
next
  case (joins tr h r)
  note ok' = hub_run_ok [OF joins.hyps ok ord]
  show ?case
    using joins.IH Subscribe_key [OF ok', of r]
    by (auto simp: Subscribe_def Let_def intro!: served_by_idle [of c key tr h])
next
  case (leaves tr h c' r h')
  from Unsubscribe_ok [OF hub_run_ok [OF leaves.hyps(1) ok ord] leaves.hyps(2)] leaves.hyps(3)
  show ?case using leaves.IH by (auto intro!: served_by_idle [of c key tr h])
next
  case (publishes tr h r p h')
  note ok' = hub_run_ok [OF publishes.hyps(1) ok ord]
  note P = Publish_ok [OF ok' ord, of r p]
  show ?case
  proof (cases "hears key r")
    case True
    with P publishes hub_okD(3) [OF ok', of c key] show ?thesis
      by (auto simp: served_by_def [of c key tr h] intro!: served_by_publish [of c key tr h])
  next
    case False
    with P publishes show ?thesis
      by (auto simp: served_by_def [of c key tr h] intro!: served_by_idle [of c key tr h])
  qed
next
  case (receives tr h c' k p C)
  have "key_of (h\<lparr>chans := C\<rparr>) = key_of h" by (simp add: key_of_def fun_eq_iff)
  moreover obtain q where "buffer (chans h c') = p # q" "C = (chans h)(c' := (chans h c')\<lparr>buffer := q\<rparr>)"
    using receives.hyps(3) by (auto simp: receive_def split: list.splits if_splits)
  ultimately show ?case
    using receives.IH
    by (cases "c' = c") (auto simp: served_by_def [of c key tr h] intro!: served_by_receive [of c key tr h] served_by_idle [of c key tr h])
qed

section \<open>Properties\<close>

text \<open>
  C32. The hub implements the queues it promises.  Seen as a map from subscribers to their key and
  queue, subscribing adds an empty queue, leaving removes it, publishing appends to every queue whose
  key hears the event and has room (in whatever order Go ranges over its maps), a receive takes the
  oldest payload, and none of them panics.
\<close>

theorem hub_refines_queues:
  assumes ok: "hub_ok h" and ord: "ranges ord"
  shows "queues_of (snd (Subscribe r h)) = (queues_of h)(fst (Subscribe r h) \<mapsto> (r, []))
    \<and> (\<exists>h'. Publish ord r' p h = Some h' \<and> queues_of h' = publish_spec r' p (queues_of h))
    \<and> (\<forall>c k q. queues_of h c = Some (k, q) \<longrightarrow>
        (\<exists>h'. Unsubscribe k c h = Some h' \<and> queues_of h' = (queues_of h)(c := None))
        \<and> fst (receive c (chans h)) = (case q of [] \<Rightarrow> Empty_channel | p # _ \<Rightarrow> Payload p)
        \<and> queues_of (h\<lparr>chans := snd (receive c (chans h))\<rparr>) = (queues_of h)(c \<mapsto> (k, tl q)))"
proof -
  have ch: "chans (snd (Subscribe r h)) = (chans h)(fresh h := make_chan)" "fst (Subscribe r h) = fresh h"
    by (simp_all add: Subscribe_def Let_def)
  have "queues_of (snd (Subscribe r h)) = (queues_of h)(fst (Subscribe r h) \<mapsto> (r, []))"
    unfolding queues_of_def Subscribe_key [OF ok] ch by (auto simp: fun_eq_iff make_chan_def)
  moreover have "\<exists>h'. Publish ord r' p h = Some h' \<and> queues_of h' = publish_spec r' p (queues_of h)"
    by (rule Publish_queues [OF ok ord])
  moreover have "\<exists>h'. Unsubscribe k c h = Some h' \<and> queues_of h' = (queues_of h)(c := None)"
    if "key_of h c = Some k" for c k
    using Unsubscribe_ok [OF ok that] by (auto simp: queues_of_def fun_eq_iff)
  moreover have "queues_of h c = Some (k, q) \<Longrightarrow> key_of h c = Some k \<and> q = buffer (chans h c)" for c k q
    by (auto simp: queues_of_def)
  ultimately show ?thesis using receive_ok(2,3) [OF ok] by metis
qed

text \<open>
  Nothing in the life of a hub panics.  In every run of joining, leaving, publishing and
  receiving from a well-formed hub, the hub stays well-formed: no registered channel is closed, none
  is registered twice, none holds more than eight payloads; the next publication and every leaving
  succeed.
\<close>

theorem hub_never_panics:
  assumes "hub_run ord h0 tr h" and "hub_ok h0" and "ranges ord"
  shows "hub_ok h \<and> (\<exists>h'. Publish ord r p h = Some h')
    \<and> (\<forall>c k. key_of h c = Some k \<longrightarrow> (\<exists>h'. Unsubscribe k c h = Some h'))"
proof -
  have ok: "hub_ok h" by (rule hub_run_ok [OF assms])
  with Publish_ok [OF ok assms(3), of r p] Unsubscribe_ok [OF ok] show ?thesis by blast
qed

text \<open>
  What a subscriber sees.  From the moment it subscribes until it leaves, what a subscriber has
  received, followed by what waits in its buffer, is a subsequence of the events published for it, in
  their order; and while it is never more than eight events behind, it is all of them.
\<close>

theorem subscriber_hears:
  assumes "hub_ok h" and "ranges ord" and "hub_run ord (snd (Subscribe r h)) tr h'"
    and "Departed (fst (Subscribe r h)) \<notin> set tr"
  shows "subseq (got (fst (Subscribe r h)) tr @ buffer (chans h' (fst (Subscribe r h)))) (heard r tr)
    \<and> (keeps_up (fst (Subscribe r h)) r tr \<longrightarrow>
         got (fst (Subscribe r h)) tr @ buffer (chans h' (fst (Subscribe r h))) = heard r tr)"
proof -
  have "fst (Subscribe r h) = fresh h" "buffer (chans (snd (Subscribe r h)) (fresh h)) = []"
    by (simp_all add: Subscribe_def Let_def make_chan_def)
  moreover from this(1) have "key_of (snd (Subscribe r h)) (fst (Subscribe r h)) = Some r"
    using Subscribe_key [OF assms(1), of r] by simp
  ultimately show ?thesis
    using hub_run_serves [OF assms(3) Subscribe_ok [OF assms(1)] assms(2), of "fst (Subscribe r h)" r] assms(4)
    by (simp add: served_by_def)
qed

section \<open>A hub at work\<close>

definition quiet_hub :: hub where
  "quiet_hub = NewHub (\<lambda>_. make_chan) 0"

lemma NewHub_ok: "hub_ok (NewHub C n)"
  by (simp add: NewHub_def hub_ok_def registered_def)

lemma ranges_rev: "ranges rev"
  by (simp add: ranges_def)

lemmas hub_run_simps = quiet_hub_def NewHub_def Subscribe_def Publish_def Unsubscribe_def audience_of_def subs_of_def set_entry_def
  trySend_def make_chan_def buffer_size_def Let_def

text \<open>Two screens of restaurant 7 and one of all; nine events, of which the ninth finds no room.\<close>

fun publish_all :: "string \<Rightarrow> string list \<Rightarrow> hub \<Rightarrow> hub option" where
  "publish_all r [] h = Some h"
| "publish_all r (p # ps) h = (case Publish rev r p h of None \<Rightarrow> None | Some h' \<Rightarrow> publish_all r ps h')"

lemma publish_all_run:
  "publish_all r ps h = Some h' \<Longrightarrow> hub_run rev h0 tr h \<Longrightarrow> hub_run rev h0 (tr @ map (Published r) ps) h'"
proof (induction ps arbitrary: h tr)
  case (Cons p ps)
  then obtain h1 where "Publish rev r p h = Some h1" "publish_all r ps h1 = Some h'" by (auto split: option.splits)
  with Cons.IH [of h1 "tr @ [Published r p]"] hub_run.publishes [OF Cons.prems(2), of r p h1] show ?case by simp
qed simp

theorem subscriber_hears_witness:
  "case publish_all ''7'' [''a'', ''b'', ''c'', ''d'', ''e'', ''f'', ''g'', ''h'', ''i''] (snd (Subscribe ''7'' quiet_hub)) of
     None \<Rightarrow> False
   | Some h \<Rightarrow> buffer (chans h 0) = [''a'', ''b'', ''c'', ''d'', ''e'', ''f'', ''g'', ''h'']
       \<and> subseq (buffer (chans h 0)) [''a'', ''b'', ''c'', ''d'', ''e'', ''f'', ''g'', ''h'', ''i'']"
proof -
  let ?ps = "[''a'', ''b'', ''c'', ''d'', ''e'', ''f'', ''g'', ''h'', ''i'']"
  obtain h where h: "publish_all ''7'' ?ps (snd (Subscribe ''7'' quiet_hub)) = Some h"
    "buffer (chans h 0) = [''a'', ''b'', ''c'', ''d'', ''e'', ''f'', ''g'', ''h'']"
    by (simp add: hub_run_simps)
  have "hub_run rev (snd (Subscribe ''7'' quiet_hub)) (map (Published ''7'') ?ps) h"
    using publish_all_run [OF h(1) hub_run.begins] by simp
  moreover have "fst (Subscribe ''7'' quiet_hub) = 0" by (simp add: hub_run_simps)
  ultimately have "subseq (buffer (chans h 0)) ?ps"
    using subscriber_hears [OF NewHub_ok [of "\<lambda>_. make_chan" 0, folded quiet_hub_def] ranges_rev, of "''7''" "map (Published ''7'') ?ps" h]
    by (simp add: heard_def got_def hears_def)
  with h show ?thesis by simp
qed

theorem hub_refines_queues_witness:
  "map_option (\<lambda>h. queues_of h 0) (Publish rev '''' ''menu'' (snd (Subscribe ''7'' quiet_hub))) = Some (Some (''7'', [''menu'']))"
proof -
  have ok: "hub_ok (snd (Subscribe ''7'' quiet_hub))"
    unfolding quiet_hub_def by (intro Subscribe_ok NewHub_ok)
  have "queues_of (snd (Subscribe ''7'' quiet_hub)) 0 = Some (''7'', [])"
    by (simp add: hub_run_simps queues_of_def key_of_def)
  moreover obtain h' where "Publish rev '''' ''menu'' (snd (Subscribe ''7'' quiet_hub)) = Some h'"
      "queues_of h' = publish_spec '''' ''menu'' (queues_of (snd (Subscribe ''7'' quiet_hub)))"
    using hub_refines_queues [OF ok ranges_rev, where r' = "''''" and p = "''menu''" and r = "''''"] by blast
  ultimately show ?thesis
    by (simp add: publish_spec_def hears_def enqueue_def buffer_size_def)
qed

theorem hub_never_panics_witness:
  "\<exists>h. Unsubscribe ''7'' 0 (snd (Subscribe '''' (snd (Subscribe ''7'' quiet_hub)))) = Some h"
proof -
  have "hub_run rev quiet_hub [Joined, Joined] (snd (Subscribe '''' (snd (Subscribe ''7'' quiet_hub))))"
    using hub_run.joins [OF hub_run.joins [OF hub_run.begins]] by simp
  moreover have "hub_ok quiet_hub" unfolding quiet_hub_def by (rule NewHub_ok)
  moreover have "key_of (snd (Subscribe '''' (snd (Subscribe ''7'' quiet_hub)))) 0 = Some ''7''"
    by (simp add: hub_run_simps key_of_def)
  ultimately show ?thesis using hub_never_panics [OF _ _ ranges_rev] by blast
qed

end
