(* ===== verification/Kafka.thy ===== *)
theory Kafka
  imports Upstream
begin

text \<open>
  The Kafka consumer of pkg/kafka/consumer.go: a handler with retries, and the loop that fetches,
  handles and commits.  The reader (segmentio/kafka-go), the context and the timers are parameters.
  The metrics are in \<open>Metrics\<close>; logging is left out.
\<close>

section \<open>The consumer\<close>

record kafka_message =
  msg_Topic :: string
  msg_Key :: string
  msg_Value :: string

type_synonym 's message_handler = "string \<Rightarrow> string \<Rightarrow> ('s, unit) op"

datatype start_offset = FirstOffset | LastOffset

text \<open>Durations are in nanoseconds.\<close>

record reader_config =
  rc_Brokers :: "string list"
  rc_Topic :: string
  rc_GroupID :: string
  rc_MinBytes :: int
  rc_MaxBytes :: int
  rc_MaxWait :: int
  rc_StartOffset :: start_offset
  rc_CommitInterval :: int
  rc_ReadBackoffMin :: int
  rc_ReadBackoffMax :: int

record 's kafka_reader =
  kr_Fetch :: "('s, kafka_message) op"
  kr_Commit :: "kafka_message \<Rightarrow> ('s, unit) op"

text \<open>
  The context and the clock: whether the context is cancelled, a wait that ends with the timer
  (true) or with the context (false), and a sleep.
\<close>

record 's kafka_env =
  ke_done :: "'s \<Rightarrow> bool"
  ke_wait :: "i64 \<Rightarrow> 's \<Rightarrow> bool \<times> 's"
  ke_sleep :: "int \<Rightarrow> 's \<Rightarrow> 's"

record 's kafka_consumer =
  kc_reader :: "'s kafka_reader"
  kc_handler :: "'s message_handler"
  kc_attempts :: int
  kc_env :: "'s kafka_env"

section \<open>Making one\<close>

text \<open>An option changes the number of attempts and the configuration.\<close>

type_synonym kafka_option = "int \<times> reader_config \<Rightarrow> int \<times> reader_config"

definition StartAtLatest :: kafka_option where
  "StartAtLatest = (\<lambda>(n, c). (n, c\<lparr>rc_StartOffset := LastOffset\<rparr>))"

definition RetryHandler :: "int \<Rightarrow> kafka_option" where
  "RetryHandler attempts = (\<lambda>(n, c). (attempts, c))"

definition NewConsumer ::
  "(reader_config \<Rightarrow> 's kafka_reader) \<Rightarrow> 's kafka_env \<Rightarrow> string list \<Rightarrow> string \<Rightarrow> string
     \<Rightarrow> 's message_handler \<Rightarrow> kafka_option list \<Rightarrow> 's kafka_consumer" where
  "NewConsumer newReader env brokers topic groupID handler opts =
     (let cfg = \<lparr>rc_Brokers = brokers, rc_Topic = topic, rc_GroupID = groupID, rc_MinBytes = 1,
                 rc_MaxBytes = 10000000, rc_MaxWait = 500000000, rc_StartOffset = FirstOffset,
                 rc_CommitInterval = 0, rc_ReadBackoffMin = 100000000, rc_ReadBackoffMax = 1000000000\<rparr>;
          (attempts, cfg) = fold (\<lambda>opt x. opt x) opts (1, cfg)
      in \<lparr>kc_reader = newReader cfg, kc_handler = handler, kc_attempts = attempts, kc_env = env\<rparr>)"

section \<open>Handling a message\<close>

text \<open>
  The attempts that are left, the first of them now; the pause before the next one doubles in 64 bits.
  With no attempts at all the loop is not entered and there is no error.
\<close>

fun attempt :: "'s kafka_env \<Rightarrow> ('s, unit) op \<Rightarrow> nat \<Rightarrow> i64 \<Rightarrow> ('s, unit) op" where
  "attempt E f 0 backoff s = (Inr (), s)"
| "attempt E f (Suc left) backoff s =
     (case f s of
        (Inr _, s1) \<Rightarrow> (Inr (), s1)
      | (Inl e, s1) \<Rightarrow>
          if left = 0 \<or> ke_done E s1 then (Inl e, s1)
          else (case ke_wait E backoff s1 of
                  (False, s2) \<Rightarrow> (Inl e, s2)
                | (True, s2) \<Rightarrow> attempt E f left (backoff * 2) s2))"

definition first_backoff :: i64 where "first_backoff = 500000000"

definition kafka_handle :: "'s kafka_consumer \<Rightarrow> kafka_message \<Rightarrow> ('s, unit) op" where
  "kafka_handle C msg =
     attempt (kc_env C) (kc_handler C (msg_Key msg) (msg_Value msg)) (nat (kc_attempts C)) first_backoff"

text \<open>One round of the loop; whether there is another.  The message is committed whatever happened.\<close>

definition consume_one :: "'s kafka_consumer \<Rightarrow> 's \<Rightarrow> bool \<times> 's" where
  "consume_one C s =
     (case kr_Fetch (kc_reader C) s of
        (Inl e, s1) \<Rightarrow> if ke_done (kc_env C) s1 then (False, s1) else (True, ke_sleep (kc_env C) 1000000000 s1)
      | (Inr msg, s1) \<Rightarrow>
          (let (r, s2) = kafka_handle C msg s1 in (True, snd (kr_Commit (kc_reader C) msg s2))))"

partial_function (option) consume :: "'s kafka_consumer \<Rightarrow> 's \<Rightarrow> 's option" where
  "consume C s = (case consume_one C s of (again, s1) \<Rightarrow> if again then consume C s1 else Some s1)"

text \<open>
  \<open>Stop\<close> of a consumer that was started: the context is cancelled, the loop runs to its end from the
  round it is in, and the reader is closed.  \<open>None\<close>: it waits for ever.
\<close>

definition StopConsumer ::
  "'s kafka_consumer \<Rightarrow> ('s \<Rightarrow> 's) \<Rightarrow> ('s, unit) op \<Rightarrow> 's \<Rightarrow> ((go_error + unit) \<times> 's) option" where
  "StopConsumer C cancel close s =
     map_option (\<lambda>s1. case close s1 of
         (Inl e, s2) \<Rightarrow> (Inl (Wrapped ''close kafka reader'' e), s2)
       | (Inr _, s2) \<Rightarrow> (Inr (), s2)) (consume C (cancel s))"

section \<open>What a message goes through\<close>

text \<open>Failed attempts with the pauses between them.\<close>

inductive failing :: "'s kafka_env \<Rightarrow> ('s, unit) op \<Rightarrow> i64 \<Rightarrow> nat \<Rightarrow> 's \<Rightarrow> 's \<Rightarrow> bool" for E f where
  none: "failing E f b 0 s s"
| more: "f s = (Inl e, s1) \<Longrightarrow> \<not> ke_done E s1 \<Longrightarrow> ke_wait E b s1 = (True, s2) \<Longrightarrow>
    failing E f (b * 2) n s2 s' \<Longrightarrow> failing E f b (Suc n) s s'"

inductive_cases failing_SucE: "failing E f b (Suc n) s s'"
inductive_simps failing_0: "failing E f b 0 s s'"

text \<open>The last attempt, and why it is the last.\<close>

definition settled :: "'s kafka_env \<Rightarrow> ('s, unit) op \<Rightarrow> bool \<Rightarrow> i64 \<Rightarrow> 's \<Rightarrow> go_error + unit \<Rightarrow> 's \<Rightarrow> bool" where
  "settled E f is_last b s r s' \<longleftrightarrow>
     (case f s of
        (Inr _, s1) \<Rightarrow> r = Inr () \<and> s' = s1
      | (Inl e, s1) \<Rightarrow> r = Inl e \<and> (if is_last \<or> ke_done E s1 then s' = s1 else ke_wait E b s1 = (False, s')))"

lemma attempt_settles:
  "attempt E f (Suc n) b s = (r, s') \<longleftrightarrow>
     (\<exists>j \<le> n. \<exists>t. failing E f b j s t \<and> settled E f (j = n) (b * 2 ^ j) t r s')"
proof (induction n arbitrary: b s)
  case 0
  show ?case by (auto simp: settled_def failing_0 split: sum.split prod.split)
next
  case (Suc n)
  have split: "(\<exists>j \<le> Suc n. P j) \<longleftrightarrow> P 0 \<or> (\<exists>j \<le> n. P (Suc j))" for P
    by (metis Suc_le_mono le0 not0_implies_Suc)
  show ?case
  proof (cases "fst (f s)")
    case (Inr x)
    then have "\<not> failing E f b (Suc j) s t" for j t by (auto elim: failing_SucE)
    then show ?thesis using Inr
      by (subst split) (auto simp: settled_def failing_0 split: prod.splits)
  next
    case (Inl e)
    obtain s1 where f: "f s = (Inl e, s1)" using Inl by (cases "f s") auto
    obtain go s2 where w: "ke_wait E b s1 = (go, s2)" by force
    have step: "failing E f b (Suc j) s t \<longleftrightarrow> \<not> ke_done E s1 \<and> go \<and> failing E f (b * 2) j s2 t" for j t
      using f w by (auto elim: failing_SucE intro: failing.more)
    have now: "(\<exists>t. failing E f b 0 s t \<and> settled E f (0 = Suc n) (b * 2 ^ 0) t r s')
        \<longleftrightarrow> r = Inl e \<and> (if ke_done E s1 then s' = s1 else \<not> go \<and> s' = s2)"
      using f w by (auto simp: settled_def failing_0)
    have later: "(\<exists>j \<le> n. \<exists>t. failing E f b (Suc j) s t \<and> settled E f (Suc j = Suc n) (b * 2 ^ Suc j) t r s')
        \<longleftrightarrow> \<not> ke_done E s1 \<and> go \<and> attempt E f (Suc n) (b * 2) s2 = (r, s')"
      unfolding Suc.IH step by (auto simp: mult.assoc)
    have "attempt E f (Suc (Suc n)) b s = (if ke_done E s1 then (Inl e, s1) else if go
        then attempt E f (Suc n) (b * 2) s2 else (Inl e, s2))"
      using f w by (subst attempt.simps) (simp del: attempt.simps split: bool.split)
    then show ?thesis
      unfolding split now later by auto
  qed
qed

section \<open>The loop\<close>

inductive cycles :: "'s kafka_consumer \<Rightarrow> nat \<Rightarrow> 's \<Rightarrow> 's \<Rightarrow> bool" for C where
  none: "cycles C 0 s s"
| more: "consume_one C s = (True, s1) \<Longrightarrow> cycles C n s1 s' \<Longrightarrow> cycles C (Suc n) s s'"

lemma consume_one_stops:
  "consume_one C s = (False, s') \<longleftrightarrow> (\<exists>e. kr_Fetch (kc_reader C) s = (Inl e, s') \<and> ke_done (kc_env C) s')"
  by (auto simp: consume_one_def Let_def split: prod.splits sum.splits if_splits)

lemma consume_cycles:
  assumes "consume C s = Some s'"
  shows "\<exists>n t. cycles C n s t \<and> consume_one C t = (False, s')"
  using assms
proof (induction rule: consume.raw_induct [rotated, consumes 1, case_names step])
  case (step consume C s s')
  obtain again s1 where o: "consume_one C s = (again, s1)" by force
  show ?case
  proof (cases again)
    case True
    with step.hyps o have "consume C s1 = Some s'" by simp
    with step.IH [of C s1 s'] obtain n t where "cycles C n s1 t" "consume_one C t = (False, s')" by blast
    moreover have "consume_one C s = (True, s1)" using True o by simp
    ultimately show ?thesis using cycles.more [of C s s1 n t] by blast
  next
    case False
    with step.hyps o have "consume_one C s = (False, s')" by simp
    with cycles.none [of C s] show ?thesis by blast
  qed
qed

lemma cycles_consume: "cycles C n s t \<Longrightarrow> consume_one C t = (False, s') \<Longrightarrow> consume C s = Some s'"
proof (induction rule: cycles.induct)
  case (none s)
  then show ?case by (subst consume.simps) simp
next
  case (more s s1 n t)
  then show ?case by (subst consume.simps) simp
qed

text \<open>Once a fetch fails because of the cancelled context, stopping returns, with the reader closed.\<close>

lemma StopConsumer_returns:
  assumes "cycles C n (cancel s) t" and "kr_Fetch (kc_reader C) t = (Inl e, s1)" and "ke_done (kc_env C) s1"
  shows "\<exists>r. StopConsumer C cancel close s = Some (r, snd (close s1))"
proof -
  have "consume_one C t = (False, s1)" using assms(2,3) by (simp add: consume_one_stops)
  with cycles_consume [OF assms(1)] have "consume C (cancel s) = Some s1" by simp
  then show ?thesis by (auto simp: StopConsumer_def split: prod.split sum.split)
qed

section \<open>Properties\<close>

text \<open>
  C33. How a message ends.  With \<open>n + 1\<close> attempts configured, handling a message is: some number
  \<open>j\<close> of failed attempts, each followed by its full pause (half a second, doubled each time), then one
  last attempt that succeeds, or fails because it was number \<open>n + 1\<close> or the context ended.  In
  particular the handler runs at least once and at most \<open>n + 1\<close> times.
\<close>

theorem kafka_handle_outcome:
  assumes "kc_attempts C = int (Suc n)"
  shows "kafka_handle C msg s = (r, s') \<longleftrightarrow>
    (\<exists>j \<le> n. \<exists>t. failing (kc_env C) (kc_handler C (msg_Key msg) (msg_Value msg)) first_backoff j s t
       \<and> settled (kc_env C) (kc_handler C (msg_Key msg) (msg_Value msg)) (j = n) (first_backoff * 2 ^ j) t r s')"
proof -
  have "nat (kc_attempts C) = Suc n" using assms by simp
  then show ?thesis by (simp only: kafka_handle_def attempt_settles)
qed

text \<open>
  C34. The consumer stops exactly when it is told to.  The loop returns if and only if after some
  number of rounds a fetch fails with the context cancelled; any other failed fetch, a failed handler
  or a failed commit never ends it.
\<close>

theorem consumer_stops:
  "consume C s = Some s' \<longleftrightarrow>
     (\<exists>n t e. cycles C n s t \<and> kr_Fetch (kc_reader C) t = (Inl e, s') \<and> ke_done (kc_env C) s')"
  using consume_cycles [of C s s'] cycles_consume [of C _ s _ s'] consume_one_stops [of C _ s']
  by metis

section \<open>A run\<close>

text \<open>A world that counts, and a handler that fails twice.\<close>

definition counting_env :: "nat kafka_env" where
  "counting_env = \<lparr>ke_done = (\<lambda>_. False), ke_wait = (\<lambda>_ n. (True, n)), ke_sleep = (\<lambda>_ n. n)\<rparr>"

definition third_time :: "nat message_handler" where
  "third_time _ _ n = (if n < 2 then Inl (Text ''timeout'') else Inr (), n + 1)"

definition durable :: "nat kafka_consumer" where
  "durable = NewConsumer (\<lambda>cfg. \<lparr>kr_Fetch = (\<lambda>n. (Inl (Text ''closed''), n)), kr_Commit = (\<lambda>_ n. (Inr (), n))\<rparr>)
     counting_env [''kafka:9092''] ''crm.menu.updated'' ''userapi'' third_time [RetryHandler 5]"

theorem kafka_handle_outcome_witness:
  "\<exists>j \<le> 4. \<exists>t. failing counting_env (third_time ''k'' ''v'') first_backoff j 0 t
     \<and> settled counting_env (third_time ''k'' ''v'') (j = 4) (first_backoff * 2 ^ j) t (Inr ()) 3"
proof -
  let ?m = "\<lparr>msg_Topic = ''crm.menu.updated'', msg_Key = ''k'', msg_Value = ''v''\<rparr>"
  have C: "kc_attempts durable = int (Suc 4)" "kc_env durable = counting_env" "kc_handler durable = third_time"
    by (simp_all add: durable_def NewConsumer_def RetryHandler_def)
  have "kafka_handle durable ?m 0 = (Inr (), 3)"
    unfolding kafka_handle_def C
    by (simp add: third_time_def counting_env_def eval_nat_numeral)
  then show ?thesis
    unfolding kafka_handle_outcome [OF C(1)] C(2,3) by simp
qed

end
