(* ===== verification/Consumers.thy ===== *)
theory Consumers
  imports Hub Kafka Menu_Service
begin

text \<open>
  What the Kafka messages do (internal/consumer, internal/events): menu events clear the cache and
  wake the menu screens, order events go to the order screens.  The state is the world and the hub of
  the process; \<open>None\<close> is a call that panics or does not return.  The JSON decoders are parameters.
\<close>

section \<open>Menu events\<close>

definition TopicMenuUpdated :: string where "TopicMenuUpdated = ''crm.menu.updated''"

record menu_event =
  ev_RestaurantID :: string
  ev_RegionID :: string
  ev_Reason :: string
  ev_OccurredAt :: int

record 's menu_consumer =
  mnc_cache :: "'s menu_cache_api"
  mnc_ord :: "subscriber list \<Rightarrow> subscriber list"
  mnc_Unmarshal :: "string \<Rightarrow> go_error + menu_event"

definition NewMenuConsumer ::
  "'s menu_cache_api \<Rightarrow> (subscriber list \<Rightarrow> subscriber list) \<Rightarrow> (string \<Rightarrow> go_error + menu_event) \<Rightarrow> 's menu_consumer" where
  "NewMenuConsumer cache ord U = \<lparr>mnc_cache = cache, mnc_ord = ord, mnc_Unmarshal = U\<rparr>"

definition decode_event :: "'s menu_consumer \<Rightarrow> string \<Rightarrow> go_error + menu_event" where
  "decode_event M value =
     (case mnc_Unmarshal M value of Inl e \<Rightarrow> Inl (Wrapped ''unmarshal menu event'' e) | Inr evt \<Rightarrow> Inr evt)"

definition invalidate_for :: "'s menu_consumer \<Rightarrow> menu_event \<Rightarrow> 's \<Rightarrow> ((go_error + unit) \<times> 's) option" where
  "invalidate_for M evt s =
     (case mca_Invalidate (mnc_cache M) (ev_RestaurantID evt) s of
        None \<Rightarrow> None
      | Some (Inl e, s1) \<Rightarrow> Some (Inl e, s1)
      | Some (Inr n, s1) \<Rightarrow> Some (Inr (), s1))"

definition InvalidateEvent ::
  "'s menu_consumer \<Rightarrow> string \<Rightarrow> string \<Rightarrow> 's \<Rightarrow> ((go_error + unit) \<times> 's) option" where
  "InvalidateEvent M key value s =
     (case decode_event M value of Inl e \<Rightarrow> Some (Inl e, s) | Inr evt \<Rightarrow> invalidate_for M evt s)"

text \<open>A failed invalidation is logged, and the screens are still told.\<close>

definition Broadcast ::
  "'s menu_consumer \<Rightarrow> string \<Rightarrow> string \<Rightarrow> 's \<times> hub \<Rightarrow> ((go_error + unit) \<times> 's \<times> hub) option" where
  "Broadcast M key value w =
     (let (s, h) = w in
      case decode_event M value of
        Inl e \<Rightarrow> Some (Inl e, s, h)
      | Inr evt \<Rightarrow>
          (case invalidate_for M evt s of
             None \<Rightarrow> None
           | Some (_, s1) \<Rightarrow>
               (case Publish (mnc_ord M) (ev_RestaurantID evt) value h of
                  None \<Rightarrow> None
                | Some h1 \<Rightarrow> Some (Inr (), s1, h1))))"

section \<open>Order events\<close>

record order_head =
  oh_Type :: string
  oh_RestaurantID :: string

text \<open>\<open>OrderConsumer.Handle\<close>: only the routing key is read, the payload is passed on as it is.\<close>

definition HandleOrderEvent ::
  "(string \<Rightarrow> go_error + order_head) \<Rightarrow> (subscriber list \<Rightarrow> subscriber list) \<Rightarrow> string \<Rightarrow> string \<Rightarrow> hub
     \<Rightarrow> ((go_error + unit) \<times> hub) option" where
  "HandleOrderEvent U ord key value h =
     (case U value of
        Inl e \<Rightarrow> Some (Inl (Wrapped ''unmarshal order event'' e), h)
      | Inr head \<Rightarrow>
          if oh_RestaurantID head = '''' then Some (Inl (Text ''order event without restaurant_id''), h)
          else map_option (\<lambda>h1. (Inr (), h1)) (Publish ord (oh_RestaurantID head) value h))"

section \<open>Properties\<close>


section \<open>A run\<close>

definition menu_changed :: menu_event where
  "menu_changed = \<lparr>ev_RestaurantID = ''r1'', ev_RegionID = '''', ev_Reason = ''price'', ev_OccurredAt = 0\<rparr>"

definition ref_menu_consumer :: "redis_db menu_consumer" where
  "ref_menu_consumer = NewMenuConsumer (NewMenuCacheRepository ref_cache) rev (\<lambda>_. Inr menu_changed)"


end
