(* ===== verification/Checkout.thy ===== *)
theory Checkout
  imports Order_Service
begin

text \<open>
  The checkout protocol.  Points are spent in two phases: a hold is reserved before the order is
  created and committed afterwards; a definite failure releases it, and an ambiguous one leaves it.
  The protocol is a state machine over the calls a checkout makes.  The service is run with its
  calls recorded, and every run of \<open>place\<close>, whatever the other services answer, is shown to be a
  complete run of the machine.
\<close>

section \<open>Recording calls\<close>

datatype call =
    CallMenu string "go_error + menu"
  | CallProgram "rpc_error + loyalty_program"
  | CallReserve reserve_points_request "rpc_error + loyalty_hold"
  | CallCreate create_order_request "rpc_error + order"
  | CallCommit commit_hold_request "rpc_error + loyalty_hold"
  | CallRelease string "rpc_error + loyalty_hold"

definition noting :: "('a \<Rightarrow> call) \<Rightarrow> ('s \<Rightarrow> 'a \<times> 's) \<Rightarrow> 's \<times> call list \<Rightarrow> 'a \<times> ('s \<times> call list)" where
  "noting ev f sl = (case f (fst sl) of (x, s') \<Rightarrow> (x, (s', snd sl @ [ev x])))"

definition silent :: "('s \<Rightarrow> 'a \<times> 's) \<Rightarrow> 's \<times> 'l \<Rightarrow> 'a \<times> ('s \<times> 'l)" where
  "silent f sl = (case f (fst sl) of (x, s') \<Rightarrow> (x, (s', snd sl)))"

lemma noting_simp [simp]: "noting ev f (s, l) = (fst (f s), (snd (f s), l @ [ev (fst (f s))]))"
  by (simp add: noting_def split_beta)

lemma silent_simp [simp]: "silent f (s, l) = (fst (f s), (snd (f s), l))"
  by (simp add: silent_def split_beta)

definition traced_orders :: "'s orders_api \<Rightarrow> ('s \<times> call list) orders_api" where
  "traced_orders O' =
     \<lparr>CreateOrder = (\<lambda>q. noting (CallCreate q) (CreateOrder O' q)),
      GetOrder = (\<lambda>i. silent (GetOrder O' i)),
      ListActiveOrders = (\<lambda>r st. silent (ListActiveOrders O' r st)),
      ListOrders = (\<lambda>q. silent (ListOrders O' q)),
      UpdateOrderStatus = (\<lambda>q. silent (UpdateOrderStatus O' q))\<rparr>"

definition traced_loyalty :: "'s loyalty_api \<Rightarrow> ('s \<times> call list) loyalty_api" where
  "traced_loyalty L =
     \<lparr>GetProgram = noting CallProgram (GetProgram L),
      GetMember = (\<lambda>i. silent (GetMember L i)),
      UpsertMemberByPhone = (\<lambda>p n. silent (UpsertMemberByPhone L p n)),
      UpdateMember = (\<lambda>i n e. silent (UpdateMember L i n e)),
      ListTransactions = (\<lambda>i a b. silent (ListTransactions L i a b)),
      IssueMemberCode = (\<lambda>i. silent (IssueMemberCode L i)),
      ResolveMemberCode = (\<lambda>c. silent (ResolveMemberCode L c)),
      ReservePoints = (\<lambda>q. noting (CallReserve q) (ReservePoints L q)),
      CommitHold = (\<lambda>q. noting (CallCommit q) (CommitHold L q)),
      ReleaseHold = (\<lambda>h. noting (CallRelease h) (ReleaseHold L h))\<rparr>"

definition traced_crm :: "'s crm_api \<Rightarrow> ('s \<times> call list) crm_api" where
  "traced_crm C =
     \<lparr>crm_GetEffectiveMenu = (\<lambda>r. silent (crm_GetEffectiveMenu C r)),
      crm_ListRegions = silent (crm_ListRegions C),
      crm_ListRestaurants = (\<lambda>r. silent (crm_ListRestaurants C r)),
      crm_GetRestaurant = (\<lambda>r. silent (crm_GetRestaurant C r))\<rparr>"

definition traced :: "'s order_service \<Rightarrow> ('s \<times> call list) order_service" where
  "traced S =
     \<lparr>os_orders = traced_orders (os_orders S), os_crm = traced_crm (os_crm S),
      os_GetMenu = (\<lambda>r. noting (CallMenu r) (os_GetMenu S r)),
      os_loyalty = traced_loyalty (os_loyalty S),
      os_VerifyKioskSession = (\<lambda>t. silent (os_VerifyKioskSession S t)),
      os_uuid_String = os_uuid_String S,
      os_uuid_NewString = silent (os_uuid_NewString S)\<rparr>"

lemmas traced_defs = traced_def traced_orders_def traced_loyalty_def traced_crm_def

text \<open>The calls a checkout makes.\<close>

definition place_calls ::
  "'s order_service \<Rightarrow> string \<Rightarrow> create_order_request \<Rightarrow> PlaceOrderRequest \<Rightarrow> uuid option \<Rightarrow> 's
     \<Rightarrow> call list" where
  "place_calls S r base q mid s = snd (snd (place (traced S) r base q mid (s, [])))"

section \<open>The protocol\<close>

datatype phase =
    Idle
  | Loaded menu
  | Valued menu loyalty_program
  | Holding menu loyalty_program reserve_points_request loyalty_hold
  | Owing loyalty_hold order
  | Releasing loyalty_hold
  | Closed

text \<open>
  One call of a checkout of request \<open>q\<close> at restaurant \<open>r\<close> by \<open>mid\<close> (a member's id, or
  none); \<open>b\<close> is the order request the channel starts from.
\<close>

definition priced_request ::
  "create_order_request \<Rightarrow> PlaceOrderRequest \<Rightarrow> string \<Rightarrow> string option \<Rightarrow> menu
     \<Rightarrow> create_order_request \<Rightarrow> bool" where
  "priced_request b q r mid m c \<longleftrightarrow>
     priceCart m (po_Items q) = Inr (co_Lines c) \<and> co_Lines c \<noteq> [] \<and> co_RestaurantId c = r
     \<and> co_MemberId c = (case mid of None \<Rightarrow> co_MemberId b | Some i \<Rightarrow> i)
     \<and> co_OrderType c \<in> {''dine_in'', ''takeaway''} \<and> co_Currency c = menu_Currency m
     \<and> co_Note c = trim_space (po_Note q) \<and> co_Channel c = co_Channel b
     \<and> co_PaymentMethod c = co_PaymentMethod b \<and> co_PaymentStatus c = co_PaymentStatus b
     \<and> co_CustomerName c = co_CustomerName b \<and> co_CustomerPhone c = co_CustomerPhone b
     \<and> co_DeviceId c = co_DeviceId b"

definition holds_points ::
  "PlaceOrderRequest \<Rightarrow> loyalty_program \<Rightarrow> reserve_points_request \<Rightarrow> loyalty_hold
     \<Rightarrow> create_order_request \<Rightarrow> bool" where
  "holds_points q p rq h c \<longleftrightarrow>
     rp_MemberId rq = co_MemberId c \<and> rp_Points rq = int32_of (po_RedeemPoints q)
     \<and> rp_OrderSubtotal rq = subtotal (co_Lines c)
     \<and> rp_Reference rq = ''order:'' @ co_IdempotencyKey c
     \<and> co_LoyaltyHoldId c = lh_Id h \<and> co_PointsRedeemed c = rp_Points rq
     \<and> co_Discount c = po_RedeemPoints q * lp_PointValueKopecks p"

inductive checkout_step ::
  "create_order_request \<Rightarrow> PlaceOrderRequest \<Rightarrow> string \<Rightarrow> string option \<Rightarrow> phase \<Rightarrow> call \<Rightarrow> phase \<Rightarrow> bool"
  for b :: create_order_request and q :: PlaceOrderRequest and r :: string and mid :: "string option" where
  load: "checkout_step b q r mid Idle (CallMenu r (Inr m)) (Loaded m)"
| load_fails: "checkout_step b q r mid Idle (CallMenu r (Inl e)) Closed"
| submit_plain: "po_RedeemPoints q = 0 \<Longrightarrow> priced_request b q r mid m c \<Longrightarrow> co_LoyaltyHoldId c = '''' \<Longrightarrow>
    checkout_step b q r mid (Loaded m) (CallCreate c res) Closed"
| value_points: "0 < sint (po_RedeemPoints q) \<Longrightarrow> mid \<noteq> None \<Longrightarrow>
    checkout_step b q r mid (Loaded m) (CallProgram (Inr p)) (Valued m p)"
| value_fails: "0 < sint (po_RedeemPoints q) \<Longrightarrow> mid \<noteq> None \<Longrightarrow>
    checkout_step b q r mid (Loaded m) (CallProgram (Inl e)) Closed"
| reserve: "Some (rp_MemberId rq) = mid \<Longrightarrow>
    checkout_step b q r mid (Valued m p) (CallReserve rq (Inr h)) (Holding m p rq h)"
| reserve_fails: "Some (rp_MemberId rq) = mid \<Longrightarrow>
    checkout_step b q r mid (Valued m p) (CallReserve rq (Inl e)) Closed"
| submit_held: "priced_request b q r mid m c \<Longrightarrow> holds_points q p rq h c \<Longrightarrow>
    checkout_step b q r mid (Holding m p rq h) (CallCreate c (Inr x)) (Owing h x)"
| submit_refused: "priced_request b q r mid m c \<Longrightarrow> holds_points q p rq h c \<Longrightarrow> \<not> isAmbiguous e \<Longrightarrow>
    checkout_step b q r mid (Holding m p rq h) (CallCreate c (Inl e)) (Releasing h)"
| submit_unclear: "priced_request b q r mid m c \<Longrightarrow> holds_points q p rq h c \<Longrightarrow> isAmbiguous e \<Longrightarrow>
    checkout_step b q r mid (Holding m p rq h) (CallCreate c (Inl e)) Closed"
| commit: "checkout_step b q r mid (Owing h x)
    (CallCommit \<lparr>ch_HoldId = lh_Id h, ch_OrderId = o_Id x, ch_OrderNumber = o_Number x,
                 ch_RestaurantId = r\<rparr> res) Closed"
| release: "checkout_step b q r mid (Releasing h) (CallRelease (lh_Id h) res) Closed"

inductive checkout_run ::
  "create_order_request \<Rightarrow> PlaceOrderRequest \<Rightarrow> string \<Rightarrow> string option \<Rightarrow> phase \<Rightarrow> call list \<Rightarrow> phase \<Rightarrow> bool"
  for b :: create_order_request and q :: PlaceOrderRequest and r :: string and mid :: "string option" where
  stop: "checkout_run b q r mid ph [] ph"
| go: "checkout_step b q r mid ph c ph1 \<Longrightarrow> checkout_run b q r mid ph1 cs ph2 \<Longrightarrow>
    checkout_run b q r mid ph (c # cs) ph2"

inductive_simps run_Nil [simp]: "checkout_run b q r mid ph [] ph'"
inductive_simps run_Cons: "checkout_run b q r mid ph (c # cs) ph'"

inductive_simps step_Idle: "checkout_step b q r mid Idle c ph"
inductive_simps step_Loaded: "checkout_step b q r mid (Loaded m) c ph"
inductive_simps step_Valued: "checkout_step b q r mid (Valued m p) c ph"
inductive_simps step_Holding: "checkout_step b q r mid (Holding m p rq h) c ph"
inductive_simps step_Owing: "checkout_step b q r mid (Owing h x) c ph"
inductive_simps step_Releasing: "checkout_step b q r mid (Releasing h) c ph"
inductive_simps step_Closed [simp]: "checkout_step b q r mid Closed c ph"

lemmas checkout_steps = step_Idle step_Loaded step_Valued step_Holding step_Owing step_Releasing

text \<open>A checkout may stop when no hold is open: nothing reserved, or the hold dealt with.\<close>

fun may_stop :: "phase \<Rightarrow> bool" where
  "may_stop Idle = True"
| "may_stop (Loaded m) = True"
| "may_stop Closed = True"
| "may_stop _ = False"

lemma run_end: "checkout_run b q r mid ph [c] ph' \<longleftrightarrow> checkout_step b q r mid ph c ph'"
  by (simp add: run_Cons)

section \<open>Every checkout follows the protocol\<close>

lemma traced_sel [simp]:
  "CreateOrder (os_orders (traced S)) c = noting (CallCreate c) (CreateOrder (os_orders S) c)"
  "os_GetMenu (traced S) r = noting (CallMenu r) (os_GetMenu S r)"
  "GetProgram (os_loyalty (traced S)) = noting CallProgram (GetProgram (os_loyalty S))"
  "ReservePoints (os_loyalty (traced S)) rq
     = noting (CallReserve rq) (ReservePoints (os_loyalty S) rq)"
  "CommitHold (os_loyalty (traced S)) ch = noting (CallCommit ch) (CommitHold (os_loyalty S) ch)"
  "ReleaseHold (os_loyalty (traced S)) h = noting (CallRelease h) (ReleaseHold (os_loyalty S) h)"
  "os_uuid_String (traced S) = os_uuid_String S"
  "os_uuid_NewString (traced S) = silent (os_uuid_NewString S)"
  by (simp_all add: traced_defs)

text \<open>Recording does not change what the service does.\<close>

lemma submit_traced:
  "submit (traced S) r c h (s, l) =
     (fst (submit S r c h s), (snd (submit S r c h s), snd (snd (submit (traced S) r c h (s, l)))))"
  by (auto simp: submit_def split: sum.split prod.split option.split)

lemma submit_log:
  "\<exists>cs. snd (snd (submit (traced S) r c h (s, l))) = l @ cs"
  by (auto simp: submit_def split: sum.split prod.split option.split)

lemma submit_plain_log:
  "\<exists>res. snd (snd (submit (traced S) r c None (s, l))) = l @ [CallCreate c res]"
  by (auto simp: submit_def split: sum.split prod.split)

lemma submit_held_log:
  assumes "priced_request b q r mid m c" and "holds_points q p rq h c"
  shows "\<exists>cs. snd (snd (submit (traced S) r c (Some h) (s, l))) = l @ cs
    \<and> checkout_run b q r mid (Holding m p rq h) cs Closed"
proof (cases "fst (CreateOrder (os_orders S) c s)")
  case (Inl e)
  show ?thesis
  proof (cases "isAmbiguous e")
    case True
    then show ?thesis
      using Inl assms by (intro exI [of _ "[CallCreate c (Inl e)]"])
        (simp add: submit_def run_Cons step_Holding)
  next
    case False
    let ?s1 = "snd (CreateOrder (os_orders S) c s)"
    show ?thesis
      using Inl assms False
      by (intro exI [of _ "[CallCreate c (Inl e),
            CallRelease (lh_Id h) (fst (ReleaseHold (os_loyalty S) (lh_Id h) ?s1))]"])
         (auto simp: submit_def run_Cons step_Holding step_Releasing)
  qed
next
  case (Inr x)
  let ?s1 = "snd (CreateOrder (os_orders S) c s)"
  let ?ch = "\<lparr>ch_HoldId = lh_Id h, ch_OrderId = o_Id x, ch_OrderNumber = o_Number x,
              ch_RestaurantId = r\<rparr>"
  show ?thesis
    using Inr assms
    by (intro exI [of _ "[CallCreate c (Inr x),
          CallCommit ?ch (fst (CommitHold (os_loyalty S) ?ch ?s1))]"])
       (auto simp: submit_def run_Cons step_Holding step_Owing)
qed

text \<open>What a reservation leaves: the request with the hold on it, or nothing open.\<close>

lemma reserve_log:
  assumes "reservePoints (traced S) c q mid (s, l) = (Inr (h, c'), (s', l'))"
  shows "\<exists>p rq i. mid = Some i \<and> 0 \<le> sint (po_RedeemPoints q)
    \<and> l' = l @ [CallProgram (Inr p), CallReserve rq (Inr h)]
    \<and> rp_MemberId rq = os_uuid_String S i \<and> co_Lines c' = co_Lines c
    \<and> (co_MemberId c = os_uuid_String S i \<longrightarrow> holds_points q p rq h c')
    \<and> c' = c\<lparr>co_IdempotencyKey := co_IdempotencyKey c', co_LoyaltyHoldId := co_LoyaltyHoldId c',
             co_PointsRedeemed := co_PointsRedeemed c', co_Discount := co_Discount c'\<rparr>"
  using assms
  by (auto simp: reservePoints_def Let_def holds_points_def split: option.splits if_splits
           sum.splits prod.splits)

lemma reserve_fails_log:
  assumes "reservePoints (traced S) c q mid (s, l) = (Inl e, (s', l'))"
  shows "l' = l \<or> (mid \<noteq> None \<and> 0 \<le> sint (po_RedeemPoints q)
    \<and> ((\<exists>e'. l' = l @ [CallProgram (Inl e')])
       \<or> (\<exists>p rq e'. Some (rp_MemberId rq) = map_option (os_uuid_String S) mid
            \<and> l' = l @ [CallProgram (Inr p), CallReserve rq (Inl e')])))"
  using assms
  by (auto simp: reservePoints_def Let_def split: option.splits if_splits sum.splits prod.splits)

lemma reserve_traced:
  "fst (reservePoints (traced S) c q mid (s, l)) = fst (reservePoints S c q mid s)"
  "fst (snd (reservePoints (traced S) c q mid (s, l))) = snd (reservePoints S c q mid s)"
  by (auto simp: reservePoints_def Let_def split: option.splits if_splits sum.splits prod.splits)

lemma submit_traced':
  "fst (submit (traced S) r c h (s, l)) = fst (submit S r c h s)"
  "fst (snd (submit (traced S) r c h (s, l))) = snd (submit S r c h s)"
  using submit_traced [of S r c h s l] by (metis fst_conv snd_conv)+

lemma place_traced:
  "fst (place (traced S) r base q mid (s, l)) = fst (place S r base q mid s)
   \<and> fst (snd (place (traced S) r base q mid (s, l))) = snd (place S r base q mid s)"
proof -
  have "fst (case reservePoints (traced S) c q mid (s1, l1) of
           (Inl e, s2) \<Rightarrow> (Inl e, s2)
         | (Inr (h, c'), s2) \<Rightarrow> submit (traced S) r c' (Some h) s2)
      = fst (case reservePoints S c q mid s1 of
           (Inl e, s2) \<Rightarrow> (Inl e, s2)
         | (Inr (h, c'), s2) \<Rightarrow> submit S r c' (Some h) s2)
    \<and> fst (snd (case reservePoints (traced S) c q mid (s1, l1) of
           (Inl e, s2) \<Rightarrow> (Inl e, s2)
         | (Inr (h, c'), s2) \<Rightarrow> submit (traced S) r c' (Some h) s2))
      = snd (case reservePoints S c q mid s1 of
           (Inl e, s2) \<Rightarrow> (Inl e, s2)
         | (Inr (h, c'), s2) \<Rightarrow> submit S r c' (Some h) s2)" for c s1 l1
    using reserve_traced [of S c q mid s1 l1]
    by (auto simp: submit_traced' split: sum.split prod.split)
  then show ?thesis
    by (auto simp: place_def Let_def submit_traced' split: sum.split prod.split option.split)
qed

text \<open>The part of a checkout after the cart has been priced.\<close>

lemma checkout_tail_run:
  assumes c: "priced_request base q r (map_option (os_uuid_String S) mid) m c" "co_LoyaltyHoldId c = ''''"
    and i: "\<And>i. mid = Some i \<Longrightarrow> co_MemberId c = os_uuid_String S i"
  shows "\<exists>cs ph. snd (snd (if po_RedeemPoints q \<noteq> 0 then
        (case reservePoints (traced S) c q mid (s, l) of
           (Inl e, s2) \<Rightarrow> (Inl e, s2)
         | (Inr (h, c'), s2) \<Rightarrow> submit (traced S) r c' (Some h) s2)
      else submit (traced S) r c None (s, l))) = l @ cs
    \<and> checkout_run base q r (map_option (os_uuid_String S) mid) (Loaded m) cs ph \<and> may_stop ph"
proof (cases "po_RedeemPoints q = 0")
  case True
  obtain res where "snd (snd (submit (traced S) r c None (s, l))) = l @ [CallCreate c res]"
    using submit_plain_log [of S r c s l] by auto
  with True c show ?thesis
    by (intro exI [of _ "[CallCreate c res]"] exI [of _ Closed]) (simp add: run_Cons step_Loaded)
next
  case False
  then have nz: "sint (po_RedeemPoints q) \<noteq> 0" using sint_eq_0 by blast
  let ?mid = "map_option (os_uuid_String S) mid"
  obtain x s' l' where r: "reservePoints (traced S) c q mid (s, l) = (x, (s', l'))"
    by (metis prod.collapse)
  show ?thesis
  proof (cases x)
    case (Inl e)
    with r have r: "reservePoints (traced S) c q mid (s, l) = (Inl e, (s', l'))" by simp
    show ?thesis
      using reserve_fails_log [OF r] nz False r
      by (fastforce simp: run_Cons step_Loaded step_Valued)
  next
    case (Inr hc)
    obtain h c' where hc: "hc = (h, c')" by (cases hc)
    with r Inr have r': "reservePoints (traced S) c q mid (s, l) = (Inr (h, c'), (s', l'))" by simp
    from reserve_log [OF r'] obtain p rq j where j: "mid = Some j" "0 \<le> sint (po_RedeemPoints q)"
      and l': "l' = l @ [CallProgram (Inr p), CallReserve rq (Inr h)]"
      and rq: "rp_MemberId rq = os_uuid_String S j"
      and c': "co_Lines c' = co_Lines c"
        "co_MemberId c = os_uuid_String S j \<longrightarrow> holds_points q p rq h c'"
        "c' = c\<lparr>co_IdempotencyKey := co_IdempotencyKey c', co_LoyaltyHoldId := co_LoyaltyHoldId c',
             co_PointsRedeemed := co_PointsRedeemed c', co_Discount := co_Discount c'\<rparr>"
      by blast
    have hp: "holds_points q p rq h c'" using c'(2) i [OF j(1)] by simp
    have "priced_request base q r ?mid m c'"
      using c(1) arg_cong [OF c'(3), of co_RestaurantId] arg_cong [OF c'(3), of co_MemberId]
        arg_cong [OF c'(3), of co_OrderType] arg_cong [OF c'(3), of co_Currency]
        arg_cong [OF c'(3), of co_Note] arg_cong [OF c'(3), of co_Channel]
        arg_cong [OF c'(3), of co_PaymentMethod] arg_cong [OF c'(3), of co_PaymentStatus]
        arg_cong [OF c'(3), of co_CustomerName] arg_cong [OF c'(3), of co_CustomerPhone]
        arg_cong [OF c'(3), of co_DeviceId] c'(1)
      by (simp add: priced_request_def)
    from submit_held_log [OF this hp, of S s' l'] obtain cs where
      cs: "snd (snd (submit (traced S) r c' (Some h) (s', l'))) = l' @ cs"
        "checkout_run base q r ?mid (Holding m p rq h) cs Closed" by blast
    have "checkout_run base q r ?mid (Loaded m) (CallProgram (Inr p) # CallReserve rq (Inr h) # cs) Closed"
      using nz j rq cs(2) by (simp add: run_Cons step_Loaded step_Valued)
    with False r' cs(1) l' show ?thesis
      by (intro exI [of _ "CallProgram (Inr p) # CallReserve rq (Inr h) # cs"] exI [of _ Closed]) simp
  qed
qed

lemma place_follows_protocol_aux:
  assumes "co_LoyaltyHoldId base = ''''"
  shows "\<exists>ph. checkout_run base q r (map_option (os_uuid_String S) mid) Idle
                (place_calls S r base q mid s) ph \<and> may_stop ph"
proof (cases "(po_OrderType q = ''dine_in'' \<or> po_OrderType q = ''takeaway'') \<and> po_Items q \<noteq> []
              \<and> rune_count (po_Note q) \<le> 200")
  case False
  then have "place_calls S r base q mid s = []"
    by (auto simp: place_calls_def place_def)
  then show ?thesis by (simp add: exI [of _ Idle])
next
  case True
  obtain x s1 where x: "os_GetMenu S r s = (x, s1)" by (cases "os_GetMenu S r s")
  show ?thesis
  proof (cases x)
    case (Inl e)
    with True x have "place_calls S r base q mid s = [CallMenu r (Inl e)]"
      by (auto simp: place_calls_def place_def)
    then show ?thesis by (intro exI [of _ Closed]) (simp add: run_Cons step_Idle)
  next
    case (Inr m)
    show ?thesis
    proof (cases "priceCart m (po_Items q)")
      case (Inl e)
      with True x Inr have "place_calls S r base q mid s = [CallMenu r (Inr m)]"
        by (auto simp: place_calls_def place_def)
      then show ?thesis by (intro exI [of _ "Loaded m"]) (simp add: run_Cons step_Idle)
    next
      case lines: (Inr lines)
      define base1 where "base1 = base\<lparr>co_RestaurantId := r, co_OrderType := po_OrderType q,
                       co_Note := trim_space (po_Note q), co_Currency := menu_Currency m,
                       co_IdempotencyKey := po_IdempotencyKey q, co_Lines := lines\<rparr>"
      define c where "c = (case mid of None \<Rightarrow> base1
                             | Some i \<Rightarrow> base1\<lparr>co_MemberId := os_uuid_String S i\<rparr>)"
      have "lines \<noteq> []"
        using priceCart_Inr(1) [OF lines, of 0] True by auto
      then have pr: "priced_request base q r (map_option (os_uuid_String S) mid) m c"
          "co_LoyaltyHoldId c = ''''" "\<And>i. mid = Some i \<Longrightarrow> co_MemberId c = os_uuid_String S i"
        using lines True assms
        by (auto simp: priced_request_def c_def base1_def split: option.split)
      have "place_calls S r base q mid s = snd (snd (if po_RedeemPoints q \<noteq> 0 then
        (case reservePoints (traced S) c q mid (s1, [CallMenu r (Inr m)]) of
           (Inl e, s2) \<Rightarrow> (Inl e, s2)
         | (Inr (h, c'), s2) \<Rightarrow> submit (traced S) r c' (Some h) s2)
        else submit (traced S) r c None (s1, [CallMenu r (Inr m)])))"
        using True x Inr lines
        by (cases mid) (auto simp: place_calls_def place_def Let_def c_def base1_def)
      with checkout_tail_run [OF pr, where s = s1 and l = "[CallMenu r (Inr m)]"]
      obtain cs ph where "place_calls S r base q mid s = CallMenu r (Inr m) # cs"
        "checkout_run base q r (map_option (os_uuid_String S) mid) (Loaded m) cs ph" "may_stop ph"
        by auto
      then show ?thesis by (auto simp: run_Cons step_Idle intro!: exI [of _ ph])
    qed
  qed
qed

section \<open>What the protocol guarantees\<close>

lemma run_Closed: "checkout_run b q r mid Closed cs ph \<longleftrightarrow> cs = [] \<and> ph = Closed"
  by (cases cs) (auto simp: run_Cons)

lemma run_unfold:
  "checkout_run b q r mid ph cs ph' \<longleftrightarrow>
     (cs = [] \<and> ph' = ph)
     \<or> (\<exists>c cs' ph1. cs = c # cs' \<and> checkout_step b q r mid ph c ph1 \<and> checkout_run b q r mid ph1 cs' ph')"
  by (cases cs) (auto simp: run_Cons)

definition settles :: "string \<Rightarrow> loyalty_hold \<Rightarrow> (rpc_error + order) \<Rightarrow> call list \<Rightarrow> bool" where
  "settles r h res cs \<longleftrightarrow>
     (case res of
        Inr x \<Rightarrow> \<exists>a. cs = [CallCommit \<lparr>ch_HoldId = lh_Id h, ch_OrderId = o_Id x,
                            ch_OrderNumber = o_Number x, ch_RestaurantId = r\<rparr> a]
      | Inl e \<Rightarrow> if isAmbiguous e then cs = [] else \<exists>a. cs = [CallRelease (lh_Id h) a])"

lemma run_Holding:
  assumes "checkout_run b q r mid (Holding m p rq h) cs ph" and "may_stop ph"
  shows "\<exists>c res cs'. cs = CallCreate c res # cs' \<and> priced_request b q r mid m c
    \<and> holds_points q p rq h c \<and> settles r h res cs'"
  using assms
  by (auto simp: run_unfold [of b q r mid "Holding m p rq h"] step_Holding settles_def run_Closed
        run_unfold [of b q r mid "Owing _ _"] step_Owing run_unfold [of b q r mid "Releasing _"]
        step_Releasing)

lemma run_Valued:
  assumes "checkout_run b q r mid (Valued m p) cs ph" and "may_stop ph"
  shows "(\<exists>rq e. cs = [CallReserve rq (Inl e)])
    \<or> (\<exists>rq h c res cs'. cs = CallReserve rq (Inr h) # CallCreate c res # cs'
         \<and> Some (rp_MemberId rq) = mid \<and> priced_request b q r mid m c
         \<and> holds_points q p rq h c \<and> settles r h res cs')"
  using assms run_Holding [of b q r mid m p _ _ _ ph]
  by (auto simp: run_unfold [of b q r mid "Valued m p"] step_Valued run_Closed)

lemma run_Idle:
  assumes "checkout_run b q r mid Idle cs ph" and "may_stop ph"
  shows "cs = [] \<or> (\<exists>e. cs = [CallMenu r (Inl e)]) \<or> (\<exists>m. cs = [CallMenu r (Inr m)])
    \<or> (\<exists>m c res. cs = [CallMenu r (Inr m), CallCreate c res] \<and> po_RedeemPoints q = 0
         \<and> priced_request b q r mid m c \<and> co_LoyaltyHoldId c = '''')
    \<or> (\<exists>m e. cs = [CallMenu r (Inr m), CallProgram (Inl e)])
    \<or> (\<exists>m p rq e. cs = [CallMenu r (Inr m), CallProgram (Inr p), CallReserve rq (Inl e)])
    \<or> (\<exists>m p rq h c res cs'.
         cs = CallMenu r (Inr m) # CallProgram (Inr p) # CallReserve rq (Inr h) # CallCreate c res # cs'
         \<and> 0 < sint (po_RedeemPoints q) \<and> Some (rp_MemberId rq) = mid \<and> priced_request b q r mid m c
         \<and> holds_points q p rq h c \<and> settles r h res cs')"
  using assms run_Valued [of b q r mid _ _ _ ph]
  by (auto simp: run_unfold [of b q r mid Idle] step_Idle run_Closed
        run_unfold [of b q r mid "Loaded _"] step_Loaded) blast+

lemma place_creates:
  assumes "co_LoyaltyHoldId base = ''''" and "CallCreate c res \<in> set (place_calls S r base q mid s)"
  shows "\<exists>m. CallMenu r (Inr m) \<in> set (place_calls S r base q mid s)
    \<and> priced_request base q r (map_option (os_uuid_String S) mid) m c
    \<and> (po_RedeemPoints q = 0 \<and> co_LoyaltyHoldId c = ''''
       \<or> 0 < sint (po_RedeemPoints q) \<and> mid \<noteq> None
         \<and> (\<exists>p rq h. CallProgram (Inr p) \<in> set (place_calls S r base q mid s)
              \<and> CallReserve rq (Inr h) \<in> set (place_calls S r base q mid s)
              \<and> holds_points q p rq h c))"
proof -
  have settled: "settles r h res' cs' \<Longrightarrow> CallCreate c res \<notin> set cs'" for h res' cs'
    by (auto simp: settles_def split: sum.splits if_splits)
  from place_follows_protocol_aux [OF assms(1), of q r S mid s] obtain ph where
    "checkout_run base q r (map_option (os_uuid_String S) mid) Idle
       (place_calls S r base q mid s) ph" "may_stop ph" by blast
  from run_Idle [OF this] assms(2) settled show ?thesis by fastforce
qed

definition no_order :: "call list \<Rightarrow> bool" where
  "no_order l \<longleftrightarrow> (\<forall>c x. CallCreate c (Inr x) \<notin> set l)"

definition truthful :: "(go_error + OrderView) \<times> 's \<times> call list \<Rightarrow> bool" where
  "truthful z \<longleftrightarrow>
     (case fst z of
        Inr v \<Rightarrow> \<exists>c x. CallCreate c (Inr x) \<in> set (snd (snd z)) \<and> v = OrderViewFromProto x
      | Inl e \<Rightarrow> no_order (snd (snd z)))"

lemma truthful_Inl [simp]: "truthful (Inl e, (s, l)) \<longleftrightarrow> no_order l"
  by (simp add: truthful_def)

lemma submit_truthful: "no_order l \<Longrightarrow> truthful (submit (traced S) r c h (s, l))"
  by (cases "fst (CreateOrder (os_orders S) c s)"; cases h)
     (fastforce simp: truthful_def submit_def no_order_def)+

lemma reserve_no_order: "no_order l \<Longrightarrow> no_order (snd (snd (reservePoints (traced S) c q mid (s, l))))"
  by (auto simp: reservePoints_def Let_def no_order_def split: option.split sum.split prod.split)

lemma place_truthful: "truthful (place (traced S) r base q mid (s, []))"
proof -
  have "truthful (case reservePoints (traced S) c q mid (s', l) of
           (Inl e, s2) \<Rightarrow> (Inl e, s2)
         | (Inr (h, c'), s2) \<Rightarrow> submit (traced S) r c' (Some h) s2)" if "no_order l" for c s' l
    using reserve_no_order [OF that, of S c q mid s'] submit_truthful
    by (auto split: sum.split prod.split)
  then show ?thesis
    by (auto simp: place_def Let_def submit_truthful no_order_def split: sum.split prod.split)
qed

section \<open>Properties\<close>

text \<open>
  C2. The checkout protocol.  Whatever the menu service, kfc-loyalty and kfc-order answer, the calls
  of a checkout form a complete run of the protocol machine: an order is submitted only for a cart
  priced from the menu just loaded; points are reserved before it, for the order's subtotal, under a
  reference made of its idempotency key, and the order carries the hold's id and the discount; after
  a reservation the order is always submitted, and a created order commits the hold, a definite
  failure releases it, an ambiguous one leaves it.  No run stops with a hold forgotten.
\<close>

theorem place_follows_protocol:
  assumes "co_LoyaltyHoldId base = ''''"
  shows "\<exists>ph. checkout_run base q r (map_option (os_uuid_String S) mid) Idle
                (place_calls S r base q mid s) ph \<and> may_stop ph"
  using assms by (rule place_follows_protocol_aux)

text \<open>
  C3. The fate of a hold.  Once points are reserved, the very next call submits an order carrying
  that hold, and what follows is decided by its answer alone: the hold is committed to the order
  created, released if the order was definitely refused, and left alone when the failure is
  ambiguous (the order may exist); nothing else is called.
\<close>

theorem hold_fate:
  assumes "co_LoyaltyHoldId base = ''''"
    and "place_calls S r base q mid s = before @ CallReserve rq (Inr h) # after"
  shows "\<exists>c res rest. after = CallCreate c res # rest \<and> co_LoyaltyHoldId c = lh_Id h
    \<and> settles r h res rest"
proof -
  have no: "settles r h' res' cs' \<Longrightarrow> CallReserve rq (Inr h) \<notin> set cs'" for h' res' cs'
    by (auto simp: settles_def split: sum.splits if_splits)
  from place_follows_protocol_aux [OF assms(1), of q r S mid s] obtain ph where
    "checkout_run base q r (map_option (os_uuid_String S) mid) Idle
       (place_calls S r base q mid s) ph" "may_stop ph" by blast
  from run_Idle [OF this] assms(2) no show ?thesis
    by (auto simp: append_eq_Cons_conv Cons_eq_append_conv holds_points_def dest: no)
qed


end
