(* ===== verification/Ordering.thy ===== *)
theory Ordering
  imports Checkout
begin

text \<open>
  What each channel submits (kiosk, website), what the points are worth, and what a kitchen screen
  may do; with a concrete shop on which the properties are run.
\<close>

section \<open>A shop to run the service on\<close>

definition demo_order :: order where
  "demo_order =
     \<lparr>o_Id = ''o1'', o_RestaurantId = ''7'', o_Number = 17, o_BusinessDate = '''', o_Channel = ''web'',
      o_OrderType = ''takeaway'', o_Status = OrderStatusAccepted, o_PaymentMethod = ''online'',
      o_PaymentStatus = ''paid'', o_CustomerName = '''', o_CustomerPhone = '''', o_Note = '''',
      o_DeviceId = '''', o_Subtotal = 73700, o_Total = 73700, o_Currency = ''RUB'', o_Lines = [],
      o_CancelReason = '''', o_CreatedAt = 0, o_UpdatedAt = 0, o_PreparingAt = 0, o_ReadyAt = 0,
      o_CompletedAt = 0, o_CancelledAt = 0, o_MemberId = '''', o_Discount = 0, o_PointsRedeemed = 0,
      o_LoyaltyHoldId = ''''\<rparr>"

definition demo_member :: loyalty_member where
  "demo_member = empty_loyalty_member\<lparr>lm_Id := ''m'', lm_Phone := ''+79990000000'', lm_FirstName := ''Anna''\<rparr>"

definition demo_hold :: loyalty_hold where
  "demo_hold = \<lparr>lh_Id = ''h1'', lh_MemberId = ''m'', lh_Points = 1, lh_Status = ''active'',
                lh_OrderId = '''', lh_ExpiresAt = 0\<rparr>"

text \<open>The world counts the calls that changed something.\<close>

definition demo_orders :: "(rpc_error + order) \<Rightarrow> nat orders_api" where
  "demo_orders answer =
     \<lparr>CreateOrder = (\<lambda>_ n. (answer, n + 1)), GetOrder = (\<lambda>_ n. (Inr demo_order, n)),
      ListActiveOrders = (\<lambda>_ _ n. (Inr [demo_order], n)),
      ListOrders = (\<lambda>_ n. (Inr \<lparr>lor_Orders = [demo_order], lor_Total = 1\<rparr>, n)),
      UpdateOrderStatus = (\<lambda>q n. (Inr (demo_order\<lparr>o_Status := uo_Status q\<rparr>), n + 1))\<rparr>"

definition demo_loyalty :: "nat loyalty_api" where
  "demo_loyalty =
     \<lparr>GetProgram = (\<lambda>n. (Inr \<lparr>lp_EarnPercent = 5, lp_MaxRedeemPercent = 50, lp_WelcomeBonus = 100,
                              lp_PointValueKopecks = 100\<rparr>, n)),
      GetMember = (\<lambda>_ n. (Inr demo_member, n)),
      UpsertMemberByPhone = (\<lambda>_ _ n. (Inr \<lparr>um_Member = Some demo_member, um_Created = False\<rparr>, n)),
      UpdateMember = (\<lambda>_ _ _ n. (Inr demo_member, n + 1)),
      ListTransactions = (\<lambda>_ _ _ n. (Inr \<lparr>ltr_Transactions = [], ltr_Total = 0\<rparr>, n)),
      IssueMemberCode = (\<lambda>_ n. (Inr \<lparr>mc_Code = ''12345678'', mc_ExpiresAt = 0\<rparr>, n)),
      ResolveMemberCode = (\<lambda>_ n. (Inr demo_member, n)),
      ReservePoints = (\<lambda>_ n. (Inr demo_hold, n + 1)),
      CommitHold = (\<lambda>_ n. (Inr demo_hold, n + 1)), ReleaseHold = (\<lambda>_ n. (Inr demo_hold, n + 1))\<rparr>"

definition demo_crm :: "nat crm_api" where
  "demo_crm =
     \<lparr>crm_GetEffectiveMenu = (\<lambda>_ n. (Inr test_menu, n)), crm_ListRegions = (\<lambda>n. (Inr [], n)),
      crm_ListRestaurants = (\<lambda>_ n. (Inr [], n)),
      crm_GetRestaurant = (\<lambda>i n. (Inr \<lparr>rs_Id = i, rs_Name = '''', rs_Code = '''', rs_RegionId = '''',
        rs_RegionName = '''', rs_Address = '''', rs_City = '''', rs_Phone = '''', rs_Timezone = ''''\<rparr>, n))\<rparr>"

definition demo_shop :: "(rpc_error + order) \<Rightarrow> nat order_service" where
  "demo_shop answer =
     \<lparr>os_orders = demo_orders answer, os_crm = demo_crm, os_GetMenu = (\<lambda>_ n. (Inr test_menu, n)),
      os_loyalty = demo_loyalty,
      os_VerifyKioskSession = (\<lambda>t n. (if t = ''session'' then
          Inr \<lparr>kc_MemberID = 5, kc_DeviceID = 3, kc_ExpiresAt = 0\<rparr> else Inl (Text ''invalid''), n)),
      os_uuid_String = (\<lambda>u. if u = 7 then ''7'' else ''x''),
      os_uuid_NewString = (\<lambda>n. (''fresh'', n))\<rparr>"

lemmas demo_defs = demo_shop_def demo_orders_def demo_loyalty_def demo_crm_def

definition demo_request :: "i64 \<Rightarrow> PlaceOrderRequest" where
  "demo_request points =
     \<lparr>po_OrderType = ''takeaway'', po_CustomerName = '''', po_CustomerPhone = '''', po_Note = '''',
      po_IdempotencyKey = ''k1'', po_Items = test_cart, po_RedeemPoints = points,
      po_LoyaltySession = ''''\<rparr>"

lemma demo_lines:
  "priceCart test_menu test_cart = Inr
     [\<lparr>cl_ItemId = ''zinger'', cl_ProductCode = '''', cl_Name = ''Zinger'', cl_VariationId = '''',
       cl_VariationName = '''', cl_Quantity = 2, cl_UnitPrice = 29900\<rparr>,
      \<lparr>cl_ItemId = ''cola'', cl_ProductCode = '''', cl_Name = ''Cola'', cl_VariationId = ''m'',
       cl_VariationName = ''0.4'', cl_Quantity = 1, cl_UnitPrice = 13900\<rparr>]"
  by (simp add: priceCart_def test_cart_def price_line_def byID_test_menu Let_def
        pickVariation_def test_item_def test_variation_def int32_of_def)

lemma trim_space_Nil [simp]: "trim_space [] = []"
  by (simp add: trim_space_def trim_left.simps trim_right.simps)

lemma rune_count_Nil [simp]: "rune_count [] = 0"
  by (simp add: rune_count_def runes.simps)

lemma test_cart_nonempty [simp]: "test_cart \<noteq> []"
  by (simp add: test_cart_def)

lemma test_menu_currency [simp]: "menu_Currency test_menu = ''RUB''"
  by (simp add: test_menu_def)

text \<open>A checkout with points, run on the shop.\<close>

lemma demo_place:
  "place_calls (demo_shop (Inr demo_order)) ''7'' empty_create_order_request (demo_request 3) (Some 5) 0
   = [CallMenu ''7'' (Inr test_menu),
      CallProgram (Inr \<lparr>lp_EarnPercent = 5, lp_MaxRedeemPercent = 50, lp_WelcomeBonus = 100,
                        lp_PointValueKopecks = 100\<rparr>),
      CallReserve \<lparr>rp_MemberId = ''x'', rp_Points = 3, rp_Reference = ''order:k1'',
                    rp_OrderSubtotal = 73700\<rparr> (Inr demo_hold),
      CallCreate (empty_create_order_request\<lparr>co_RestaurantId := ''7'', co_OrderType := ''takeaway'',
        co_Currency := ''RUB'', co_IdempotencyKey := ''k1'', co_MemberId := ''x'', co_Discount := 300,
        co_PointsRedeemed := 3, co_LoyaltyHoldId := ''h1'',
        co_Lines := [\<lparr>cl_ItemId = ''zinger'', cl_ProductCode = '''', cl_Name = ''Zinger'',
            cl_VariationId = '''', cl_VariationName = '''', cl_Quantity = 2, cl_UnitPrice = 29900\<rparr>,
          \<lparr>cl_ItemId = ''cola'', cl_ProductCode = '''', cl_Name = ''Cola'', cl_VariationId = ''m'',
            cl_VariationName = ''0.4'', cl_Quantity = 1, cl_UnitPrice = 13900\<rparr>]\<rparr>) (Inr demo_order),
      CallCommit \<lparr>ch_HoldId = ''h1'', ch_OrderId = ''o1'', ch_OrderNumber = 17, ch_RestaurantId = ''7''\<rparr>
        (Inr demo_hold)]"
  by (simp add: place_calls_def place_def demo_lines demo_request_def Let_def reservePoints_def
        submit_def demo_defs subtotal_def int64_of_def int32_of_def demo_hold_def demo_order_def
        empty_create_order_request_def)

section \<open>Points and money\<close>

lemma sint_word_add:
  fixes a b :: i64
  assumes "- (2 ^ 63) \<le> sint a + sint b" and "sint a + sint b < 2 ^ 63"
  shows "sint (a + b) = sint a + sint b"
  using assms by (simp add: sint_word_ariths signed_take_bit_int_eq_self)

lemma sint_word_mult:
  fixes a b :: i64
  assumes "- (2 ^ 63) \<le> sint a * sint b" and "sint a * sint b < 2 ^ 63"
  shows "sint (a * b) = sint a * sint b"
  using assms by (simp add: sint_word_ariths signed_take_bit_int_eq_self)

definition line_amount :: "create_order_line \<Rightarrow> int" where
  "line_amount l = sint (cl_UnitPrice l) * sint (cl_Quantity l)"

lemma subtotal_foldl:
  assumes "\<forall>l \<in> set ls. 0 \<le> line_amount l" and "0 \<le> sint acc"
    and "sint acc + sum_list (map line_amount ls) < 2 ^ 63"
  shows "sint (foldl (\<lambda>acc l. acc + cl_UnitPrice l * int64_of (cl_Quantity l)) acc ls)
    = sint acc + sum_list (map line_amount ls)"
  using assms
proof (induction ls arbitrary: acc)
  case (Cons l ls)
  have nonneg: "0 \<le> sum_list (map line_amount ls)"
    using Cons.prems(1) by (auto intro!: sum_list_nonneg)
  have l: "0 \<le> line_amount l" using Cons.prems(1) by simp
  have "line_amount l < 2 ^ 63"
    using nonneg Cons.prems(2,3) by simp
  then have m: "sint (cl_UnitPrice l * int64_of (cl_Quantity l)) = line_amount l"
    using l by (subst sint_word_mult) (auto simp: line_amount_def)
  have "sint (acc + cl_UnitPrice l * int64_of (cl_Quantity l)) = sint acc + line_amount l"
    using l nonneg Cons.prems(2,3) by (subst sint_word_add) (auto simp: m)
  then show ?case
    using Cons.IH [of "acc + cl_UnitPrice l * int64_of (cl_Quantity l)"] Cons.prems l by simp
qed simp

lemma line_amount_bounds:
  assumes "price_line (byID m) ci = Inr l"
    and "\<forall>it \<in> set (menu_items m). \<forall>c. (c = None \<or> (\<exists>v \<in> set (it_Variations it). c = Some v)) \<longrightarrow>
           0 \<le> sint (listed_price it c) \<and> sint (listed_price it c) \<le> M"
  shows "0 \<le> line_amount l \<and> line_amount l \<le> 50 * M"
proof -
  from price_line_Inr [OF assms(1)] obtain it c where
    it: "byID m (ci_ItemID ci) = Some it" "chosen it (ci_VariationID ci) c"
    and q: "1 \<le> sint (cl_Quantity l)" "sint (cl_Quantity l) \<le> 50"
    and p: "cl_UnitPrice l = listed_price it c" by auto
  have "c = None \<or> (\<exists>v \<in> set (it_Variations it). c = Some v)"
    using it(2) by (cases c) (auto simp: chosen_def)
  with assms(2) byID_Some(1) [OF it(1)] p
  have "0 \<le> sint (cl_UnitPrice l)" "sint (cl_UnitPrice l) \<le> M" by auto
  with q show ?thesis
    by (auto simp: line_amount_def mult.commute [of "50 :: int"] intro!: mult_mono)
qed

definition menu_prices_within :: "int \<Rightarrow> menu \<Rightarrow> bool" where
  "menu_prices_within M m \<longleftrightarrow>
     (\<forall>it \<in> set (menu_items m). (0 \<le> sint (listed_price it None) \<and> sint (listed_price it None) \<le> M)
        \<and> (\<forall>v \<in> set (it_Variations it).
             0 \<le> sint (listed_price it (Some v)) \<and> sint (listed_price it (Some v)) \<le> M))"

text \<open>
  C11. The subtotal sent with a reservation is the sum of price times quantity over the cart, with no
  wrap-around, for menus with prices up to a billion rubles and carts of up to a million lines.
\<close>

theorem subtotal_exact:
  assumes "priceCart m items = Inr lines" and "length items \<le> 1000000"
    and "menu_prices_within 100000000000 m"
  shows "sint (subtotal lines) = sum_list (map (\<lambda>l. sint (cl_UnitPrice l) * sint (cl_Quantity l)) lines)
    \<and> 0 \<le> sint (subtotal lines)"
proof -
  have b: "\<forall>l \<in> set lines. 0 \<le> line_amount l \<and> line_amount l \<le> 5000000000000"
  proof
    fix l assume "l \<in> set lines"
    then obtain ci where "price_line (byID m) ci = Inr l"
      using assms(1) by (auto simp: priceCart_def price_lines_Inr_iff list_all2_conv_all_nth in_set_conv_nth)
    from line_amount_bounds [OF this, of 100000000000] assms(3)
    show "0 \<le> line_amount l \<and> line_amount l \<le> 5000000000000"
      by (auto simp: menu_prices_within_def)
  qed
  have "length lines = length items"
    using assms(1) by (auto simp: priceCart_def price_lines_Inr_iff dest: list_all2_lengthD)
  have nonneg: "0 \<le> sum_list (map line_amount lines)"
    using b by (auto intro!: sum_list_nonneg)
  have "sum_list (map line_amount lines) \<le> sum_list (map (\<lambda>_. 5000000000000) lines)"
    using b by (intro sum_list_mono) auto
  also have "\<dots> = 5000000000000 * int (length lines)"
    by (simp add: sum_list_triv)
  also have "\<dots> < 2 ^ 63"
    using assms(2) \<open>length lines = length items\<close> by simp
  finally have "sint (subtotal lines) = sum_list (map line_amount lines)"
    using b subtotal_foldl [of lines 0] by (simp add: subtotal_def)
  with nonneg show ?thesis by (simp add: line_amount_def [abs_def])
qed

theorem subtotal_exact_witness:
  "\<exists>lines. priceCart test_menu test_cart = Inr lines \<and> sint (subtotal lines) = 73700"
proof -
  have w: "menu_prices_within 100000000000 test_menu"
    by (simp add: menu_prices_within_def menu_items_def test_menu_def test_item_def
          test_variation_def listed_price_def)
  have "length test_cart \<le> 1000000" by (simp add: test_cart_def)
  from subtotal_exact [OF demo_lines this w] show ?thesis
    by (simp add: demo_lines)
qed


text \<open>
  C12. The conversion to 32 bits keeps only the low bits of the number of points: a request for
  2^32 + 1 points reserves one point and takes the discount of 4294967297.
\<close>

theorem redeem_truncation:
  assumes "co_LoyaltyHoldId base = ''''"
    and "CallReserve rq (Inr h) \<in> set (place_calls S r base q mid s)"
    and "po_RedeemPoints q = 4294967297"
  shows "rp_Points rq = 1
    \<and> (\<exists>p c res. CallProgram (Inr p) \<in> set (place_calls S r base q mid s)
         \<and> CallCreate c res \<in> set (place_calls S r base q mid s)
         \<and> co_PointsRedeemed c = 1 \<and> co_Discount c = 4294967297 * lp_PointValueKopecks p)"
proof -
  have trunc: "int32_of 4294967297 = 1"
    by (simp add: int32_of_def unsigned_of_nat)
  have no: "settles r h' res' cs' \<Longrightarrow> CallReserve rq (Inr h) \<notin> set cs'" for h' res' cs'
    by (auto simp: settles_def split: sum.splits if_splits)
  from place_follows_protocol_aux [OF assms(1), of q r S mid s] obtain ph where
    "checkout_run base q r (map_option (os_uuid_String S) mid) Idle
       (place_calls S r base q mid s) ph" "may_stop ph" by blast
  from run_Idle [OF this] assms(2,3) no show ?thesis
    by (fastforce simp: holds_points_def trunc)
qed

text \<open>The properties above, run on the shop.\<close>

theorem place_follows_protocol_witness:
  "\<exists>ph. checkout_run empty_create_order_request (demo_request 3) ''7'' (Some ''x'') Idle
     (place_calls (demo_shop (Inr demo_order)) ''7'' empty_create_order_request (demo_request 3) (Some 5) 0)
     ph \<and> may_stop ph"
  using place_follows_protocol [of empty_create_order_request "demo_request 3" "''7''"
    "demo_shop (Inr demo_order)" "Some 5" 0]
  by (simp add: empty_create_order_request_def demo_shop_def)

lemma demo_split:
  "\<exists>before rq after. place_calls (demo_shop (Inr demo_order)) ''7'' empty_create_order_request
     (demo_request 3) (Some 5) 0 = before @ CallReserve rq (Inr demo_hold) # after"
proof -
  have "CallReserve \<lparr>rp_MemberId = ''x'', rp_Points = 3, rp_Reference = ''order:k1'',
      rp_OrderSubtotal = 73700\<rparr> (Inr demo_hold) \<in> set (place_calls (demo_shop (Inr demo_order)) ''7''
        empty_create_order_request (demo_request 3) (Some 5) 0)"
    by (simp add: demo_place)
  then show ?thesis by (metis split_list)
qed

theorem hold_fate_witness:
  "\<exists>before rq after c res rest.
     place_calls (demo_shop (Inr demo_order)) ''7'' empty_create_order_request (demo_request 3) (Some 5) 0
       = before @ CallReserve rq (Inr demo_hold) # after
     \<and> after = CallCreate c res # rest \<and> co_LoyaltyHoldId c = ''h1'' \<and> settles ''7'' demo_hold res rest"
proof -
  have b: "co_LoyaltyHoldId empty_create_order_request = ''''"
    by (simp add: empty_create_order_request_def)
  obtain before rq after where e: "place_calls (demo_shop (Inr demo_order)) ''7''
    empty_create_order_request (demo_request 3) (Some 5) 0 = before @ CallReserve rq (Inr demo_hold) # after"
    using demo_split by blast
  from hold_fate [OF b e] obtain c res rest where
    "after = CallCreate c res # rest" "co_LoyaltyHoldId c = ''h1'' \<and> settles ''7'' demo_hold res rest"
    by (auto simp: demo_hold_def)
  with e show ?thesis by blast
qed

lemma demo_create:
  "\<exists>c. CallCreate c (Inr demo_order) \<in> set (place_calls (demo_shop (Inr demo_order)) ''7''
       empty_create_order_request (demo_request 3) (Some 5) 0) \<and> co_Discount c = 300"
  by (simp add: demo_place)


lemma demo_truncation:
  "CallReserve \<lparr>rp_MemberId = ''x'', rp_Points = 1, rp_Reference = ''order:k1'',
                 rp_OrderSubtotal = 73700\<rparr> (Inr demo_hold)
   \<in> set (place_calls (demo_shop (Inr demo_order)) ''7'' empty_create_order_request
       (demo_request 4294967297) (Some 5) 0)"
  by (simp add: place_calls_def place_def demo_lines demo_request_def Let_def reservePoints_def
        submit_def demo_defs subtotal_def int64_of_def int32_of_def demo_hold_def demo_order_def
        empty_create_order_request_def)

theorem redeem_truncation_witness:
  "\<exists>c res (p :: loyalty_program). CallCreate c res \<in> set (place_calls (demo_shop (Inr demo_order)) ''7''
       empty_create_order_request (demo_request 4294967297) (Some 5) 0)
     \<and> co_PointsRedeemed c = 1 \<and> co_Discount c = 4294967297 * lp_PointValueKopecks p"
proof -
  have "co_LoyaltyHoldId empty_create_order_request = ''''"
    "po_RedeemPoints (demo_request 4294967297) = 4294967297"
    by (simp_all add: empty_create_order_request_def demo_request_def)
  from redeem_truncation [OF this(1) demo_truncation this(2)] show ?thesis by blast
qed

section \<open>What each channel submits\<close>

definition kiosk_calls ::
  "'s order_service \<Rightarrow> DeviceTokenClaims \<Rightarrow> PlaceOrderRequest \<Rightarrow> 's \<Rightarrow> call list" where
  "kiosk_calls S device req s = snd (snd (PlaceKioskOrder (traced S) device req (s, [])))"

definition web_calls ::
  "'s order_service \<Rightarrow> uuid \<Rightarrow> string \<Rightarrow> PlaceOrderRequest \<Rightarrow> 's \<Rightarrow> call list" where
  "web_calls S memberID r req s = snd (snd (PlaceWebOrder (traced S) memberID r req (s, [])))"

lemma traced_sel' [simp]:
  "os_VerifyKioskSession (traced S) t = silent (os_VerifyKioskSession S t)"
  "GetMember (os_loyalty (traced S)) i = silent (GetMember (os_loyalty S) i)"
  "crm_GetRestaurant (os_crm (traced S)) i = silent (crm_GetRestaurant (os_crm S) i)"
  by (simp_all add: traced_defs)

lemma place_calls_fold: "snd (snd (place (traced S) r base q mid (s, []))) = place_calls S r base q mid s"
  by (simp add: place_calls_def)

text \<open>
  C7. A kiosk can only order for itself.  Whatever the request says, an order submitted from a kiosk
  is for the restaurant and the device of its own token, paid by card at the terminal; it carries a
  member, and so can spend points, only if the request has a loyalty session that verifies and was
  opened on this very device.
\<close>

theorem kiosk_order:
  assumes "CallCreate c res \<in> set (kiosk_calls S device req s)"
  shows "co_RestaurantId c = os_uuid_String S (dc_RestaurantID device)
    \<and> co_DeviceId c = os_uuid_String S (dc_DeviceID device) \<and> co_Channel c = ''kiosk''
    \<and> co_PaymentMethod c = ''card'' \<and> co_PaymentStatus c = ''paid'' \<and> co_CustomerPhone c = ''''
    \<and> (if po_LoyaltySession req = '''' then co_MemberId c = '''' \<and> co_LoyaltyHoldId c = ''''
       else \<exists>claims. fst (os_VerifyKioskSession S (po_LoyaltySession req) s) = Inr claims
              \<and> kc_DeviceID claims = dc_DeviceID device
              \<and> co_MemberId c = os_uuid_String S (kc_MemberID claims))"
proof (cases "po_LoyaltySession req = ''''")
  case True
  then show ?thesis
    using assms
    by (auto simp: kiosk_calls_def PlaceKioskOrder_def Let_def place_calls_fold priced_request_def
          empty_create_order_request_def dest!: place_creates [rotated])
next
  case False
  then show ?thesis
    using assms
    by (auto simp: kiosk_calls_def PlaceKioskOrder_def Let_def place_calls_fold priced_request_def
          empty_create_order_request_def dest!: place_creates [rotated]
          split: sum.splits prod.splits if_splits)
qed

text \<open>
  C8. A website order is the signed-in customer's: it carries the member of the session, the phone
  number kfc-loyalty has verified for them (never one from the request) and a name of 2 to 60
  characters, the one given (trimmed) or else the profile's, and it goes to a restaurant kfc-crm
  knows.
\<close>

theorem web_order:
  assumes "CallCreate c res \<in> set (web_calls S memberID r req s)"
  shows "\<exists>member found.
    fst (GetMember (os_loyalty S) (os_uuid_String S memberID) s) = Inr member
    \<and> fst (crm_GetRestaurant (os_crm S) r
         (snd (GetMember (os_loyalty S) (os_uuid_String S memberID) s))) = Inr found
    \<and> co_RestaurantId c = r \<and> co_MemberId c = os_uuid_String S memberID
    \<and> co_CustomerPhone c = lm_Phone member \<and> co_Channel c = ''web''
    \<and> co_PaymentMethod c = ''online'' \<and> co_DeviceId c = ''''
    \<and> co_CustomerName c = (if trim_space (po_CustomerName req) = '''' then lm_FirstName member
                            else trim_space (po_CustomerName req))
    \<and> 2 \<le> rune_count (co_CustomerName c) \<and> rune_count (co_CustomerName c) \<le> 60"
  using assms
  by (auto simp: web_calls_def PlaceWebOrder_def Let_def place_calls_fold priced_request_def
        empty_create_order_request_def dest!: place_creates [rotated]
        split: sum.splits prod.splits if_splits)

section \<open>The kitchen\<close>

text \<open>
  A kitchen screen changes an order only within its own restaurant and only to the four kitchen
  statuses (so it never cancels): if an update is sent, it is for an order that kfc-order reported
  at the device's restaurant, with the device named as the actor; otherwise nothing is changed.
  An order of another restaurant is reported as not found.
\<close>

theorem kitchen_update:
  "case fst (UpdateFromKitchen S device i st s) of
     Inr v \<Rightarrow> st \<in> {''accepted'', ''preparing'', ''ready'', ''completed''} \<and> st \<noteq> OrderStatusCancelled
       \<and> (\<exists>current s1 updated.
            GetOrder (os_orders S) i s = (Inr current, s1)
            \<and> o_RestaurantId current = os_uuid_String S (dc_RestaurantID device)
            \<and> fst (UpdateOrderStatus (os_orders S)
                 \<lparr>uo_Id = i, uo_Status = st, uo_Reason = '''',
                  uo_Actor = ''device:'' @ os_uuid_String S (dc_DeviceID device)\<rparr> s1) = Inr updated
            \<and> v = OrderViewFromProto updated)
   | Inl e \<Rightarrow> IsAppError e"
  by (auto simp: UpdateFromKitchen_def kitchenStatuses_def go_simps mapOrderError_app
        IsAppError_def [of "AppError _ _ _ _"] split: sum.splits prod.splits)

text \<open>
  No update goes out for a foreign order or a status outside the kitchen's: in those cases the
  result is a not-found or a validation error and the world is as the lookup left it.
\<close>

theorem kitchen_refuses:
  assumes "st \<notin> set kitchenStatuses
    \<or> (\<exists>current. fst (GetOrder (os_orders S) i s) = Inr current
          \<and> o_RestaurantId current \<noteq> os_uuid_String S (dc_RestaurantID device))"
  shows "\<exists>e. fst (UpdateFromKitchen S device i st s) = Inl e
    \<and> (IsValidationError e \<and> snd (UpdateFromKitchen S device i st s) = s
       \<or> e = NewNotFoundError ''order not found''
         \<and> snd (UpdateFromKitchen S device i st s) = snd (GetOrder (os_orders S) i s))"
  using assms
  by (auto simp: UpdateFromKitchen_def go_simps IsErrorType_def split: sum.splits prod.splits)

section \<open>The properties on the shop\<close>

definition demo_device :: DeviceTokenClaims where
  "demo_device =
     \<lparr>dc_DeviceID = 3, dc_DeviceType = DeviceTypeKiosk, dc_SerialNumber = ''K-1'', dc_RestaurantID = 7,
      dc_TokenID = '''', dc_IssuedAt = 0, dc_NotBefore = 0, dc_ExpiresAt = 0\<rparr>"

lemma demo_session_create:
  "\<exists>c. CallCreate c (Inr demo_order) \<in> set (kiosk_calls (demo_shop (Inr demo_order)) demo_device
         ((demo_request 3)\<lparr>po_LoyaltySession := ''session''\<rparr>) 0)"
  by (simp add: kiosk_calls_def PlaceKioskOrder_def place_def demo_lines demo_request_def Let_def
        reservePoints_def submit_def demo_defs subtotal_def int64_of_def int32_of_def demo_hold_def
        demo_device_def empty_create_order_request_def)

theorem kiosk_order_witness:
  "\<exists>c. CallCreate c (Inr demo_order) \<in> set (kiosk_calls (demo_shop (Inr demo_order)) demo_device
         ((demo_request 3)\<lparr>po_LoyaltySession := ''session''\<rparr>) 0)
     \<and> co_RestaurantId c = ''7'' \<and> co_Channel c = ''kiosk''"
proof -
  obtain c where c: "CallCreate c (Inr demo_order) \<in> set (kiosk_calls (demo_shop (Inr demo_order)) demo_device
         ((demo_request 3)\<lparr>po_LoyaltySession := ''session''\<rparr>) 0)"
    using demo_session_create by blast
  have "co_RestaurantId c = ''7'' \<and> co_Channel c = ''kiosk''"
    using kiosk_order [OF c] by (simp add: demo_shop_def demo_device_def)
  with c show ?thesis by blast
qed

lemma rune_count_Anna: "rune_count ''Anna'' = 4"
  by (simp add: rune_count_ascii)

lemma demo_web_create:
  "\<exists>c. CallCreate c (Inr demo_order) \<in> set (web_calls (demo_shop (Inr demo_order)) 5 ''7'' (demo_request 0) 0)"
  by (simp add: web_calls_def PlaceWebOrder_def place_def demo_lines demo_request_def Let_def
        submit_def demo_defs demo_member_def rune_count_Anna
        empty_create_order_request_def)

theorem web_order_witness:
  "\<exists>c. CallCreate c (Inr demo_order) \<in> set (web_calls (demo_shop (Inr demo_order)) 5 ''7'' (demo_request 0) 0)
     \<and> co_CustomerPhone c = ''+79990000000'' \<and> co_CustomerName c = ''Anna''"
proof -
  obtain c where c: "CallCreate c (Inr demo_order)
      \<in> set (web_calls (demo_shop (Inr demo_order)) 5 ''7'' (demo_request 0) 0)"
    using demo_web_create by blast
  have "co_CustomerPhone c = ''+79990000000'' \<and> co_CustomerName c = ''Anna''"
    using web_order [OF c] by (simp add: demo_defs demo_request_def demo_member_def)
  with c show ?thesis by blast
qed

theorem kitchen_refuses_witness:
  "fst (UpdateFromKitchen (demo_shop (Inr demo_order)) (demo_device\<lparr>dc_RestaurantID := 8\<rparr>) ''o1'' ''ready'' 0)
     = Inl (NewNotFoundError ''order not found'')"
proof -
  let ?S = "demo_shop (Inr demo_order)" and ?d = "demo_device\<lparr>dc_RestaurantID := 8\<rparr>"
  have "\<exists>current. fst (GetOrder (os_orders ?S) ''o1'' 0) = Inr current
          \<and> o_RestaurantId current \<noteq> os_uuid_String ?S (dc_RestaurantID ?d)"
    by (simp add: demo_defs demo_order_def)
  then have "''ready'' \<notin> set kitchenStatuses \<or> (\<exists>current. fst (GetOrder (os_orders ?S) ''o1'' 0) = Inr current
          \<and> o_RestaurantId current \<noteq> os_uuid_String ?S (dc_RestaurantID ?d))" ..
  from kitchen_refuses [OF this] show ?thesis
    by (auto simp: UpdateFromKitchen_def kitchenStatuses_def go_simps IsErrorType_def demo_defs demo_order_def)
qed

end
