(* ===== verification/Streams.thy ===== *)
theory Streams
  imports Handlers Consumers Ordering
begin

text \<open>
  The live streams (menu_stream_handler.go and order_stream_handler.go in
  internal/transport/http/handler): what a menu screen, a kitchen or hall display and a tracking page
  are sent as server-sent events.  A stream subscribes to a hub and writes until a write fails or its
  channel is closed.  The connection is a record of what was written and of which operations succeed;
  the select of the loop is a list of what it wakes up for.  The JSON codecs are parameters; headers
  and logging are left out.
\<close>

section \<open>The connection\<close>

datatype line = Retry_line nat | Id_line string | Event_line string | Data_line string | Comment_line string int

text \<open>The bytes of a line, and a stream on the wire.\<close>

fun render :: "line \<Rightarrow> string" where
  "render (Retry_line ms) = ''retry: '' @ digits ms @ [CHR 0x0A, CHR 0x0A]"
| "render (Id_line i) = ''id: '' @ i @ [CHR 0x0A]"
| "render (Event_line e) = ''event: '' @ e @ [CHR 0x0A]"
| "render (Data_line d) = ''data: '' @ d @ [CHR 0x0A, CHR 0x0A]"
| "render (Comment_line t n) = '': '' @ t @ '' '' @ format_int n @ [CHR 0x0A, CHR 0x0A]"

text \<open>\<open>wr_up n\<close>: the \<open>n\<close>th write or flush succeeds; \<open>wr_clock n\<close>: the time before it.\<close>

record wire =
  wr_sent :: "line list"
  wr_ops :: nat
  wr_up :: "nat \<Rightarrow> bool"
  wr_clock :: "nat \<Rightarrow> int"

definition wire_bytes :: "wire \<Rightarrow> string" where
  "wire_bytes w = concat (map render (wr_sent w))"

type_synonym writing = "wire \<Rightarrow> bool \<times> wire"

definition put_line :: "line \<Rightarrow> writing" where
  "put_line l w =
     (if wr_up w (wr_ops w) then (True, w\<lparr>wr_sent := wr_sent w @ [l], wr_ops := wr_ops w + 1\<rparr>)
      else (False, w\<lparr>wr_ops := wr_ops w + 1\<rparr>))"

definition flush_wire :: writing where
  "flush_wire w = (wr_up w (wr_ops w), w\<lparr>wr_ops := wr_ops w + 1\<rparr>)"

text \<open>One after the other, until one fails.\<close>

definition then_write :: "writing \<Rightarrow> writing \<Rightarrow> writing" where
  "then_write f g w = (case f w of (False, w1) \<Rightarrow> (False, w1) | (True, w1) \<Rightarrow> g w1)"

definition sseRetryHint :: nat where "sseRetryHint = 3000"

definition writeRetry :: "nat \<Rightarrow> writing" where
  "writeRetry ms = put_line (Retry_line ms)"

text \<open>The data comes as the result of encoding it.\<close>

definition writeEvent :: "string \<Rightarrow> go_error + string \<Rightarrow> string \<Rightarrow> writing" where
  "writeEvent event encoded i =
     then_write (if i \<noteq> '''' then put_line (Id_line i) else (\<lambda>w. (True, w)))
       (case encoded of
          Inl _ \<Rightarrow> (\<lambda>w. (False, w))
        | Inr raw \<Rightarrow> then_write (put_line (Event_line event)) (put_line (Data_line raw)))"

definition writeComment :: "string \<Rightarrow> writing" where
  "writeComment t w = put_line (Comment_line t (unix (wr_clock w (wr_ops w)))) w"

section \<open>What is sent\<close>

datatype shown = Shown_order OrderView | Shown_display DisplayOrder

datatype sse_data =
    Menu_connected string int bool | Order_connected string int | Raw_json string
  | Order_message string shown

text \<open>What the loop wakes up for; only the menu stream watches its context.\<close>

datatype wake = Message string | Sub_closed | Tick | Cancelled

section \<open>menu_stream_handler.go\<close>

type_synonym encoder = "sse_data \<Rightarrow> go_error + string"

text \<open>A loop answers whether it has returned.\<close>

fun menu_loop :: "encoder \<Rightarrow> wake list \<Rightarrow> wire \<Rightarrow> bool \<times> wire" where
  "menu_loop enc [] w = (False, w)"
| "menu_loop enc (Cancelled # ws) w = (True, w)"
| "menu_loop enc (Sub_closed # ws) w = (True, w)"
| "menu_loop enc (Message payload # ws) w =
     (case then_write (writeEvent ''menu-updated'' (enc (Raw_json payload)) '''') flush_wire w of
        (False, w1) \<Rightarrow> (True, w1) | (True, w1) \<Rightarrow> menu_loop enc ws w1)"
| "menu_loop enc (Tick # ws) w =
     (case then_write (writeComment ''ping'') flush_wire w of
        (False, w1) \<Rightarrow> (True, w1) | (True, w1) \<Rightarrow> menu_loop enc ws w1)"

definition menu_writer :: "encoder \<Rightarrow> string \<Rightarrow> string \<Rightarrow> wake list \<Rightarrow> wire \<Rightarrow> bool \<times> wire" where
  "menu_writer enc restaurantID lastEventID ws w =
     (case then_write (writeRetry sseRetryHint)
             (\<lambda>w1. then_write
                (writeEvent ''connected''
                   (enc (Menu_connected restaurantID (wr_clock w1 (wr_ops w1)) (lastEventID \<noteq> ''''))) lastEventID)
                flush_wire w1) w of
        (False, w1) \<Rightarrow> (True, w1) | (True, w1) \<Rightarrow> menu_loop enc ws w1)"

text \<open>The request itself: a stream for the restaurant, or an error.\<close>

definition MenuStream :: "string \<Rightarrow> string menu_response" where
  "MenuStream restaurantID =
     (if restaurantID = '''' then Menu_Error 400 ''restaurant_id is required'' else Menu_Payload restaurantID)"

section \<open>order_stream_handler.go\<close>

text \<open>Who watches: a hall display, a kitchen screen, or the tracking page of one order.\<close>

datatype audience = Hall | Kitchen | Tracking string

fun transform :: "audience \<Rightarrow> OrderView \<Rightarrow> shown option" where
  "transform Hall v = Some (Shown_display (ToDisplay v))"
| "transform Kitchen v = Some (Shown_order v)"
| "transform (Tracking i) v = (if ov_ID v \<noteq> i then None else Some (Shown_order (ToPublic v)))"

definition DeviceStream :: "'s platform \<Rightarrow> DeviceTokenClaims option \<Rightarrow> (string \<times> audience) http_response" where
  "DeviceStream P claims =
     (case claims of
        None \<Rightarrow> Unauthorized ''unauthorized'' ''missing device context''
      | Some c \<Rightarrow>
          ok (uuid_String P (dc_RestaurantID c), if dc_DeviceType c = DeviceTypeOrderDisplay then Hall else Kitchen))"

definition PublicStream :: "'s order_service \<Rightarrow> string \<Rightarrow> ('s, string \<times> audience) handler" where
  "PublicStream S orderID s =
     (case Get S orderID s of
        (Inl e, s1) \<Rightarrow> (FromError e, s1)
      | (Inr v, s1) \<Rightarrow> (ok (ov_RestaurantID v, Tracking orderID), s1))"

fun order_loop ::
  "(string \<Rightarrow> go_error + OrderEvent) \<Rightarrow> encoder \<Rightarrow> audience \<Rightarrow> wake list \<Rightarrow> wire \<Rightarrow> bool \<times> wire" where
  "order_loop dec enc a [] w = (False, w)"
| "order_loop dec enc a (Cancelled # ws) w = order_loop dec enc a ws w"
| "order_loop dec enc a (Sub_closed # ws) w = (True, w)"
| "order_loop dec enc a (Message payload # ws) w =
     (case dec payload of
        Inl _ \<Rightarrow> order_loop dec enc a ws w
      | Inr evt \<Rightarrow>
          (case ev_Order evt of
             None \<Rightarrow> order_loop dec enc a ws w
           | Some v \<Rightarrow>
               (case transform a v of
                  None \<Rightarrow> order_loop dec enc a ws w
                | Some x \<Rightarrow>
                    (case then_write (writeEvent ''order'' (enc (Order_message (ev_Type evt) x)) '''') flush_wire w of
                       (False, w1) \<Rightarrow> (True, w1) | (True, w1) \<Rightarrow> order_loop dec enc a ws w1))))"
| "order_loop dec enc a (Tick # ws) w =
     (case then_write (writeComment ''ping'') flush_wire w of
        (False, w1) \<Rightarrow> (True, w1) | (True, w1) \<Rightarrow> order_loop dec enc a ws w1)"

definition order_writer ::
  "(string \<Rightarrow> go_error + OrderEvent) \<Rightarrow> encoder \<Rightarrow> audience \<Rightarrow> string \<Rightarrow> wake list \<Rightarrow> wire \<Rightarrow> bool \<times> wire" where
  "order_writer dec enc a restaurantID ws w =
     (case then_write (writeRetry sseRetryHint)
             (\<lambda>w1. then_write
                (writeEvent ''connected'' (enc (Order_connected restaurantID (wr_clock w1 (wr_ops w1)))) '''')
                flush_wire w1) w of
        (False, w1) \<Rightarrow> (True, w1) | (True, w1) \<Rightarrow> order_loop dec enc a ws w1)"

section \<open>Opening and closing\<close>

text \<open>A hub with the number of its open streams; the writer releases its subscription when it returns.\<close>

record streams =
  st_hub :: hub
  st_connections :: i64

definition open_stream :: "string \<Rightarrow> streams \<Rightarrow> subscriber \<times> streams" where
  "open_stream r st =
     (let (ch, h) = Subscribe r (st_hub st)
      in (ch, st\<lparr>st_hub := h, st_connections := st_connections st + 1\<rparr>))"

definition close_stream :: "string \<Rightarrow> subscriber \<Rightarrow> streams \<Rightarrow> streams option" where
  "close_stream r ch st =
     map_option (\<lambda>h. st\<lparr>st_hub := h, st_connections := st_connections st - 1\<rparr>) (Unsubscribe r ch (st_hub st))"

section \<open>What a client sees\<close>

text \<open>The payloads of the events on the wire, and those of the messages a loop woke up for.\<close>

definition data_of :: "line list \<Rightarrow> string list" where
  "data_of = List.map_filter (\<lambda>l. case l of Data_line d \<Rightarrow> Some d | _ \<Rightarrow> None)"

definition messages :: "wake list \<Rightarrow> string list" where
  "messages = List.map_filter (\<lambda>x. case x of Message p \<Rightarrow> Some p | _ \<Rightarrow> None)"

text \<open>
  Who may see what: a tracking page its own order without the customer's data, a hall display the
  number and status of any order, a kitchen screen every order in full.  And what an audience is
  shown of a payload, when encoding is \<open>e\<close>.
\<close>

fun may_see :: "audience \<Rightarrow> OrderView \<Rightarrow> bool" where
  "may_see (Tracking i) v = (ov_ID v = i)" | "may_see _ v = True"

fun seen_as :: "audience \<Rightarrow> OrderView \<Rightarrow> shown" where
  "seen_as (Tracking _) v = Shown_order (ToPublic v)"
| "seen_as Hall v = Shown_display (ToDisplay v)"
| "seen_as Kitchen v = Shown_order v"

definition shown_of :: "(string \<Rightarrow> go_error + OrderEvent) \<Rightarrow> (sse_data \<Rightarrow> string) \<Rightarrow> audience \<Rightarrow> string \<Rightarrow> string option" where
  "shown_of dec e a p =
     (case dec p of
        Inl _ \<Rightarrow> None
      | Inr evt \<Rightarrow>
          (case ev_Order evt of
             None \<Rightarrow> None
           | Some v \<Rightarrow> if may_see a v then Some (e (Order_message (ev_Type evt) (seen_as a v))) else None))"

lemma transform_seen: "transform a v = (if may_see a v then Some (seen_as a v) else None)"
  by (cases a) auto

lemma data_of_append [simp]: "data_of (xs @ ys) = data_of xs @ data_of ys"
  by (simp add: data_of_def map_filter_def)

lemma data_of_line [simp]:
  "data_of [] = []" "data_of (Data_line d # ls) = d # data_of ls" "data_of (Retry_line n # ls) = data_of ls"
  "data_of (Id_line i # ls) = data_of ls" "data_of (Event_line v # ls) = data_of ls"
  "data_of (Comment_line t k # ls) = data_of ls"
  by (simp_all add: data_of_def map_filter_simps)

lemma messages_simps [simp]:
  "messages [] = []" "messages (Message p # ws) = p # messages ws" "messages (Sub_closed # ws) = messages ws"
  "messages (Tick # ws) = messages ws" "messages (Cancelled # ws) = messages ws"
  by (simp_all add: messages_def map_filter_simps)

lemma map_filter_Cons: "List.map_filter f (x # xs) = (case f x of None \<Rightarrow> List.map_filter f xs | Some y \<Rightarrow> y # List.map_filter f xs)"
  by (simp add: map_filter_simps split: option.split)

text \<open>A step of the writer: it keeps the connection, appends lines, and fails only when the connection does.\<close>

definition writes_data :: "string list \<Rightarrow> writing \<Rightarrow> bool" where
  "writes_data ds f \<longleftrightarrow> (\<forall>w b w'. f w = (b, w') \<longrightarrow> wr_up w' = wr_up w \<and> wr_clock w' = wr_clock w
     \<and> (\<exists>ls. wr_sent w' = wr_sent w @ ls \<and> prefix (data_of ls) ds \<and> (b \<longrightarrow> data_of ls = ds))
     \<and> ((\<forall>n. wr_up w n) \<longrightarrow> b))"

lemma writes_dataD:
  assumes "writes_data ds f" and "f w = (b, w')"
  shows "wr_up w' = wr_up w" "wr_clock w' = wr_clock w" "(\<forall>n. wr_up w n) \<Longrightarrow> b"
    "\<exists>ls. wr_sent w' = wr_sent w @ ls \<and> prefix (data_of ls) ds \<and> (b \<longrightarrow> data_of ls = ds)"
  using assms unfolding writes_data_def by blast+

lemma writes_put_line: "writes_data (data_of [l]) (put_line l)"
  by (auto simp: writes_data_def put_line_def split: if_splits)

lemma writes_flush [simp]: "writes_data [] flush_wire"
  by (auto simp: writes_data_def flush_wire_def)

lemma writes_nothing [simp]: "writes_data [] (\<lambda>w. (True, w))"
  by (simp add: writes_data_def)

lemma writes_then [intro]:
  assumes f: "writes_data ds f" and g: "writes_data es g"
  shows "writes_data (ds @ es) (then_write f g)"
  unfolding writes_data_def
proof (intro allI impI)
  fix w b w' assume run: "then_write f g w = (b, w')"
  obtain b1 w1 where 1: "f w = (b1, w1)" by (cases "f w")
  obtain ls where ls: "wr_sent w1 = wr_sent w @ ls" "prefix (data_of ls) ds" "b1 \<longrightarrow> data_of ls = ds"
    using writes_dataD(4) [OF f 1] by blast
  note keep = writes_dataD(1-3) [OF f 1]
  show "wr_up w' = wr_up w \<and> wr_clock w' = wr_clock w
     \<and> (\<exists>ls. wr_sent w' = wr_sent w @ ls \<and> prefix (data_of ls) (ds @ es) \<and> (b \<longrightarrow> data_of ls = ds @ es))
     \<and> ((\<forall>n. wr_up w n) \<longrightarrow> b)"
  proof (cases b1)
    case False
    with run 1 have "b = False" "w' = w1" by (simp_all add: then_write_def)
    with False ls keep show ?thesis by (auto intro: prefix_prefix)
  next
    case True
    with run 1 have 2: "g w1 = (b, w')" by (simp add: then_write_def)
    obtain ms where ms: "wr_sent w' = wr_sent w1 @ ms" "prefix (data_of ms) es" "b \<longrightarrow> data_of ms = es"
      using writes_dataD(4) [OF g 2] by blast
    have "wr_sent w' = wr_sent w @ (ls @ ms)" "prefix (data_of (ls @ ms)) (ds @ es)"
      "b \<longrightarrow> data_of (ls @ ms) = ds @ es"
      using ls ms True by simp_all
    with writes_dataD(1-3) [OF g 2] keep show ?thesis by metis
  qed
qed

lemma writes_event: "writes_data [raw] (writeEvent event (Inr raw) i)"
  using writes_then [OF writes_put_line [of "Id_line i"] writes_then [OF writes_put_line [of "Event_line event"]
        writes_put_line [of "Data_line raw"]]]
    writes_then [OF writes_nothing writes_then [OF writes_put_line [of "Event_line event"]
        writes_put_line [of "Data_line raw"]]]
  by (simp add: writeEvent_def)

lemma writes_comment: "writes_data [] (writeComment t)"
proof -
  have "writes_data [] (put_line (Comment_line t n))" for n
    using writes_put_line [of "Comment_line t n"] by simp
  then show ?thesis unfolding writes_data_def writeComment_def by blast
qed

lemma writes_frame: "writes_data [raw] (then_write (writeEvent event (Inr raw) i) flush_wire)"
  using writes_then [OF writes_event writes_flush] by simp

lemma writes_ping: "writes_data [] (then_write (writeComment t) flush_wire)"
  using writes_then [OF writes_comment writes_flush] by simp

section \<open>The loops\<close>

text \<open>
  A run adds a prefix of the data it has for the client, and all of it when the connection holds and
  the stream is \<open>steady\<close>, that is not ended from inside; then it has not returned.
\<close>

definition delivers :: "string list \<Rightarrow> bool \<Rightarrow> wire \<Rightarrow> bool \<Rightarrow> wire \<Rightarrow> bool" where
  "delivers ds steady w b w' \<longleftrightarrow>
     (\<exists>es. data_of (wr_sent w') = data_of (wr_sent w) @ es \<and> prefix es ds
        \<and> ((\<forall>n. wr_up w n) \<and> steady \<longrightarrow> es = ds \<and> \<not> b))"

lemma delivers_nothing: "delivers [] steady w False w"
  by (simp add: delivers_def)

lemma delivers_ended: "delivers ds False w b w"
  by (simp add: delivers_def)

text \<open>A frame, after which the stream returns if it could not be written, and goes on otherwise.\<close>

lemma delivers_step:
  assumes f: "writes_data ds f"
    and run: "(case f w of (False, w1) \<Rightarrow> (True, w1) | (True, w1) \<Rightarrow> L w1) = (b, w')"
    and rest: "\<And>w1. L w1 = (b, w') \<Longrightarrow> delivers es steady w1 b w'"
  shows "delivers (ds @ es) steady w b w'"
proof -
  obtain c w1 where 1: "f w = (c, w1)" by (cases "f w")
  note step = writes_dataD [OF f 1]
  from step(4) obtain ls where ls: "wr_sent w1 = wr_sent w @ ls" "prefix (data_of ls) ds" "c \<longrightarrow> data_of ls = ds"
    by blast
  show ?thesis
  proof (cases c)
    case False
    with run 1 have "w' = w1" by simp
    moreover have "\<not> (\<forall>n. wr_up w n)" using step(3) False by blast
    ultimately show ?thesis using ls by (auto simp: delivers_def intro: prefix_prefix)
  next
    case True
    with run 1 have "L w1 = (b, w')" by simp
    from rest [OF this] ls(1,3) True step(1) show ?thesis by (auto simp: delivers_def)
  qed
qed

lemma order_loop_delivers:
  assumes enc: "\<And>x. enc x = Inr (e x)" and "order_loop dec enc a ws w = (b, w')"
  shows "delivers (List.map_filter (shown_of dec e a) (messages ws)) (Sub_closed \<notin> set ws) w b w'"
  using assms(2)
proof (induction ws arbitrary: w)
  case Nil
  then show ?case by (simp add: map_filter_simps delivers_nothing)
next
  case (Cons x ws)
  show ?case
  proof (cases x)
    case (Message p)
    show ?thesis
    proof (cases "shown_of dec e a p")
      case None
      with Cons.prems Message have "order_loop dec enc a ws w = (b, w')"
        by (auto simp: shown_of_def transform_seen split: sum.splits option.splits if_splits)
      from Cons.IH [OF this] None show ?thesis by (simp add: Message map_filter_Cons)
    next
      case (Some raw)
      then obtain evt v y where p: "dec p = Inr evt" "ev_Order evt = Some v" "transform a v = Some y"
        "raw = e (Order_message (ev_Type evt) y)"
        by (auto simp: shown_of_def transform_seen split: sum.splits option.splits if_splits)
      have "(case then_write (writeEvent ''order'' (Inr raw) '''') flush_wire w of
          (False, w1) \<Rightarrow> (True, w1) | (True, w1) \<Rightarrow> order_loop dec enc a ws w1) = (b, w')"
        using Cons.prems by (simp add: Message p enc [of "Order_message (ev_Type evt) y"])
      from delivers_step [OF writes_frame this Cons.IH] show ?thesis
        by (simp add: Message map_filter_Cons Some)
    qed
  next
    case Sub_closed
    with Cons.prems show ?thesis by (simp add: delivers_ended)
  next
    case Tick
    from delivers_step [OF writes_ping Cons.prems [unfolded Tick order_loop.simps] Cons.IH]
    show ?thesis by (simp add: Tick)
  next
    case Cancelled
    with Cons.prems Cons.IH [of w] show ?thesis by simp
  qed
qed

lemma menu_loop_delivers:
  assumes enc: "\<And>x. enc x = Inr (e x)" and "menu_loop enc ws w = (b, w')"
  shows "delivers (map (e \<circ> Raw_json) (messages ws)) (Sub_closed \<notin> set ws \<and> Cancelled \<notin> set ws) w b w'"
  using assms(2)
proof (induction ws arbitrary: w)
  case Nil
  then show ?case by (simp add: delivers_nothing)
next
  case (Cons x ws)
  show ?case
  proof (cases x)
    case (Message p)
    have "(case then_write (writeEvent ''menu-updated'' (Inr (e (Raw_json p))) '''') flush_wire w of
        (False, w1) \<Rightarrow> (True, w1) | (True, w1) \<Rightarrow> menu_loop enc ws w1) = (b, w')"
      using Cons.prems by (simp add: Message enc [of "Raw_json p"])
    from delivers_step [OF writes_frame this Cons.IH] show ?thesis by (simp add: Message)
  next
    case Tick
    from delivers_step [OF writes_ping Cons.prems [unfolded Tick menu_loop.simps] Cons.IH]
    show ?thesis by (simp add: Tick)
  qed (use Cons.prems in \<open>simp_all add: delivers_ended\<close>)
qed

text \<open>The greeting comes first in both.\<close>

definition greeting :: "(int \<Rightarrow> sse_data) \<Rightarrow> (sse_data \<Rightarrow> string) \<Rightarrow> wire \<Rightarrow> string" where
  "greeting hello e w = e (hello (wr_clock w (Suc (wr_ops w))))"

lemma greeting_delivers:
  assumes enc: "\<And>x. enc x = Inr (e x)"
    and run: "(case then_write (writeRetry sseRetryHint)
             (\<lambda>w1. then_write (writeEvent ''connected'' (enc (hello (wr_clock w1 (wr_ops w1)))) i) flush_wire w1) w of
        (False, w1) \<Rightarrow> (True, w1) | (True, w1) \<Rightarrow> L w1) = (b, w')"
    and rest: "\<And>w1. L w1 = (b, w') \<Longrightarrow> delivers es steady w1 b w'"
  shows "delivers (greeting hello e w # es) steady w b w'"
proof -
  let ?f = "then_write (writeRetry sseRetryHint)
    (then_write (writeEvent ''connected'' (Inr (greeting hello e w)) i) flush_wire)"
  have f: "writes_data [greeting hello e w] ?f"
    using writes_then [OF writes_put_line [of "Retry_line sseRetryHint"]
        writes_frame [of "greeting hello e w" "''connected''" i]] by (simp add: writeRetry_def)
  obtain c1 w1 where retry: "writeRetry sseRetryHint w = (c1, w1)" by (cases "writeRetry sseRetryHint w")
  then have "wr_ops w1 = Suc (wr_ops w)" "wr_clock w1 = wr_clock w"
    by (auto simp: writeRetry_def put_line_def split: if_splits)
  with retry run have "(case ?f w of (False, w1) \<Rightarrow> (True, w1) | (True, w1) \<Rightarrow> L w1) = (b, w')"
    by (cases c1) (simp_all add: then_write_def enc greeting_def)
  from delivers_step [OF f this rest] show ?thesis by simp
qed

lemma order_writer_delivers:
  assumes enc: "\<And>x. enc x = Inr (e x)" and run: "order_writer dec enc a r ws w = (b, w')"
  shows "delivers (greeting (Order_connected r) e w # List.map_filter (shown_of dec e a) (messages ws))
    (Sub_closed \<notin> set ws) w b w'"
  by (rule greeting_delivers [OF enc run [unfolded order_writer_def] order_loop_delivers [OF enc]])

lemma menu_writer_delivers:
  assumes enc: "\<And>x. enc x = Inr (e x)" and run: "menu_writer enc r lastID ws w = (b, w')"
  shows "delivers (greeting (\<lambda>t. Menu_connected r t (lastID \<noteq> '''')) e w # map (e \<circ> Raw_json) (messages ws))
    (Sub_closed \<notin> set ws \<and> Cancelled \<notin> set ws) w b w'"
  by (rule greeting_delivers [OF enc run [unfolded menu_writer_def] menu_loop_delivers [OF enc]])

section \<open>From the hub to the client\<close>

lemma subseq_map_filter: "subseq xs ys \<Longrightarrow> subseq (List.map_filter f xs) (List.map_filter f ys)"
proof (induction rule: list_emb.induct)
  case (list_emb_Cons xs ys y)
  then show ?case by (auto simp: map_filter_Cons split: option.split)
next
  case (list_emb_Cons2 x y xs ys)
  then show ?case by (auto simp: map_filter_Cons split: option.split)
qed (simp add: map_filter_simps)

text \<open>What a new subscriber was given of a run of the hub.\<close>

lemma open_stream_hears:
  assumes ok: "hub_ok (st_hub st)" and ord: "ranges ord" and opened: "open_stream r st = (ch, st1)"
    and run: "hub_run ord (st_hub st1) tr h" and there: "Departed ch \<notin> set tr"
  shows "served_by ch r tr h"
proof -
  have "st_hub st1 = snd (Subscribe r (st_hub st))" "ch = fst (Subscribe r (st_hub st))"
    using opened by (auto simp: open_stream_def split: prod.splits)
  moreover have "fst (Subscribe r (st_hub st)) = fresh (st_hub st)"
    "buffer (chans (snd (Subscribe r (st_hub st))) (fresh (st_hub st))) = []"
    by (simp_all add: Subscribe_def Let_def make_chan_def)
  ultimately have ch: "st_hub st1 = snd (Subscribe r (st_hub st))" "ch = fst (Subscribe r (st_hub st))"
    "buffer (chans (st_hub st1) ch) = []" "ch = fresh (st_hub st)" by simp_all
  have "key_of (st_hub st1) ch = Some r" using Subscribe_key [OF ok, of r] ch(1,4) by simp
  then show ?thesis
    using hub_run_serves [OF run _ ord _ ch(3), of r] Subscribe_ok [OF ok, of r] there ch(1) by simp
qed

section \<open>Properties\<close>

text \<open>
  C36. What a tracking page, a kitchen screen or a hall display is shown.  Take a stream from its
  subscription through any traffic of the hub, with any connection.  After the greeting, the client is
  sent, in order and without repetition, orders from events published for its restaurant, each in
  the form its audience may see: for a tracking page only the one order, without the customer's data, for a hall
  display only numbers.  While the connection holds and the stream is never more than eight events
  behind it is sent all of them.  And releasing the subscription at the end succeeds, and leaves the
  count of connections as it was.
\<close>

theorem order_stream_delivers:
  assumes ok: "hub_ok (st_hub st)" and ord: "ranges ord" and opened: "open_stream r st = (ch, st1)"
    and run: "hub_run ord (st_hub st1) tr h" and there: "Departed ch \<notin> set tr"
    and enc: "\<And>x. enc x = Inr (e x)" and fed: "messages ws = got ch tr" and new: "wr_sent w = []"
    and writer: "order_writer dec enc a r ws w = (b, w')"
  shows "subseq (data_of (wr_sent w'))
      (greeting (Order_connected r) e w # List.map_filter (shown_of dec e a) (heard r tr))
    \<and> ((\<forall>n. wr_up w n) \<and> Sub_closed \<notin> set ws \<and> keeps_up ch r tr \<and> buffer (chans h ch) = [] \<longrightarrow>
         data_of (wr_sent w') = greeting (Order_connected r) e w # List.map_filter (shown_of dec e a) (heard r tr))
    \<and> (\<exists>st2. close_stream r ch (st1\<lparr>st_hub := h\<rparr>) = Some st2 \<and> key_of (st_hub st2) ch = None
         \<and> st_connections st2 = st_connections st)"
proof -
  note served = open_stream_hears [OF ok ord opened run there, unfolded served_by_def]
  have h: "hub_ok (st_hub st1)" "st_connections st1 = st_connections st + 1"
    using opened Subscribe_ok [OF ok, of r] by (auto simp: open_stream_def split: prod.splits)
  have d: "delivers (greeting (Order_connected r) e w # List.map_filter (shown_of dec e a) (got ch tr))
      (Sub_closed \<notin> set ws) w b w'"
    using order_writer_delivers [OF enc writer] fed by simp
  have "subseq (got ch tr) (heard r tr)"
    using served subseq_order.trans [OF prefix_imp_subseq [OF prefixI [OF refl]]] by blast
  then have "subseq (greeting (Order_connected r) e w # List.map_filter (shown_of dec e a) (got ch tr))
      (greeting (Order_connected r) e w # List.map_filter (shown_of dec e a) (heard r tr))"
    by (simp add: subseq_map_filter)
  then have "subseq (data_of (wr_sent w'))
      (greeting (Order_connected r) e w # List.map_filter (shown_of dec e a) (heard r tr))"
    using d new by (auto simp: delivers_def intro: subseq_order.trans prefix_imp_subseq)
  moreover have "data_of (wr_sent w') = greeting (Order_connected r) e w # List.map_filter (shown_of dec e a) (heard r tr)"
    if "\<forall>n. wr_up w n" "Sub_closed \<notin> set ws" "keeps_up ch r tr" "buffer (chans h ch) = []"
    using that d served new by (auto simp: delivers_def)
  moreover obtain h2 where "Unsubscribe r ch h = Some h2" "key_of h2 ch = None"
    using Unsubscribe_ok [OF hub_run_ok [OF run h(1) ord], of ch r] served by fastforce
  then have "\<exists>st2. close_stream r ch (st1\<lparr>st_hub := h\<rparr>) = Some st2 \<and> key_of (st_hub st2) ch = None
       \<and> st_connections st2 = st_connections st"
    using h(2) by (simp add: close_stream_def)
  ultimately show ?thesis by blast
qed

section \<open>A tracking page\<close>

text \<open>The page of order \<open>o1\<close>; the payloads name the order they are about.\<close>

definition page_decode :: "string \<Rightarrow> go_error + OrderEvent" where
  "page_decode p =
     (if p = '''' then Inl (Text ''json'')
      else Inr (OrderEvent.make ''order.updated'' ''7'' (Some (OrderViewFromProto (demo_order\<lparr>o_Id := p\<rparr>))) 0))"

fun page_encode :: "sse_data \<Rightarrow> string" where
  "page_encode (Order_message t (Shown_order v)) = t @ '' '' @ ov_ID v"
| "page_encode _ = ''hello''"

definition page_wire :: wire where
  "page_wire = \<lparr>wr_sent = [], wr_ops = 0, wr_up = (\<lambda>_. True), wr_clock = (\<lambda>n. int n)\<rparr>"

abbreviation quiet_streams :: streams where
  "quiet_streams \<equiv> \<lparr>st_hub = quiet_hub, st_connections = 0\<rparr>"

definition page_trace :: "hub_event list" where
  "page_trace = [Published ''7'' ''o1'', Published ''7'' ''o2'', Published ''8'' ''o1'', Received 0 ''o1'', Received 0 ''o2'']"

lemma page_run:
  "\<exists>h. hub_run rev (snd (Subscribe ''7'' quiet_hub)) page_trace h \<and> buffer (chans h 0) = []"
proof -
  let ?h0 = "snd (Subscribe ''7'' quiet_hub)"
  obtain h1 where 1: "Publish rev ''7'' ''o1'' ?h0 = Some h1" by (simp add: hub_run_simps)
  obtain h2 where 2: "Publish rev ''7'' ''o2'' h1 = Some h2" using 1 by (auto simp: hub_run_simps)
  obtain h3 where 3: "Publish rev ''8'' ''o1'' h2 = Some h3" using 1 2 by (auto simp: hub_run_simps)
  have h3: "key_of h3 0 = Some ''7''" "buffer (chans h3 0) = [''o1'', ''o2'']"
    using 1 2 3 by (auto simp: hub_run_simps key_of_def)
  define C4 where "C4 = (chans h3)(0 := (chans h3 0)\<lparr>buffer := [''o2'']\<rparr>)"
  define C5 where "C5 = C4(0 := (C4 0)\<lparr>buffer := []\<rparr>)"
  have run: "hub_run rev ?h0 ((([] @ [Published ''7'' ''o1'']) @ [Published ''7'' ''o2'']) @ [Published ''8'' ''o1'']) h3"
    by (intro hub_run.publishes [OF _ 3] hub_run.publishes [OF _ 2] hub_run.publishes [OF _ 1] hub_run.begins)
  have r4: "receive 0 (chans h3) = (Payload ''o1'', C4)" using h3 by (simp add: receive_def C4_def)
  have r5: "receive 0 (chans (h3\<lparr>chans := C4\<rparr>)) = (Payload ''o2'', C5)"
    by (simp add: receive_def C5_def) (simp add: C4_def)
  have "key_of (h3\<lparr>chans := C4\<rparr>) = key_of h3" by (intro ext) (simp add: key_of_def)
  with h3(1) have k: "key_of (h3\<lparr>chans := C4\<rparr>) 0 = Some ''7''" by simp
  from hub_run.receives [OF hub_run.receives [OF run h3(1) r4] k r5]
  have "hub_run rev ?h0 page_trace (h3\<lparr>chans := C5\<rparr>)" by (simp add: page_trace_def)
  moreover have "buffer (chans (h3\<lparr>chans := C5\<rparr>) 0) = []" by (simp add: C5_def)
  ultimately show ?thesis by blast
qed

theorem order_stream_delivers_witness:
  "data_of (wr_sent (snd (order_writer page_decode (Inr \<circ> page_encode) (Tracking ''o1'') ''7''
       [Message ''o1'', Tick, Message ''o2''] page_wire))) = [''hello'', ''order.updated o1'']"
proof -
  obtain h where h: "hub_run rev (snd (Subscribe ''7'' quiet_hub)) page_trace h" "buffer (chans h 0) = []"
    using page_run by blast
  have o: "open_stream ''7'' quiet_streams = (0, \<lparr>st_hub = snd (Subscribe ''7'' quiet_hub), st_connections = 1\<rparr>)"
    by (simp add: open_stream_def hub_run_simps)
  obtain b w' where w: "order_writer page_decode (Inr \<circ> page_encode) (Tracking ''o1'') ''7''
      [Message ''o1'', Tick, Message ''o2''] page_wire = (b, w')"
    by (cases "order_writer page_decode (Inr \<circ> page_encode) (Tracking ''o1'') ''7''
      [Message ''o1'', Tick, Message ''o2''] page_wire")
  have keeps: "keeps_up 0 ''7'' page_trace"
    by (simp add: keeps_up_def page_trace_def heard_def got_def hears_def buffer_size_def le_Suc_eq)
  have seen: "List.map_filter (shown_of page_decode page_encode (Tracking ''o1'')) (heard ''7'' page_trace) = [''order.updated o1'']"
    by (simp add: heard_def page_trace_def hears_def map_filter_simps shown_of_def page_decode_def OrderEvent.defs
        OrderViewFromProto_def ToPublic_def demo_order_def)
  have "data_of (wr_sent w') = greeting (Order_connected ''7'') page_encode page_wire
      # List.map_filter (shown_of page_decode page_encode (Tracking ''o1'')) (heard ''7'' page_trace)"
    using order_stream_delivers [of quiet_streams rev "''7''" 0 "\<lparr>st_hub = snd (Subscribe ''7'' quiet_hub), st_connections = 1\<rparr>"
        page_trace h "Inr \<circ> page_encode" page_encode "[Message ''o1'', Tick, Message ''o2'']" page_wire page_decode "Tracking ''o1''" b w']
      NewHub_ok [of "\<lambda>_. make_chan" 0, folded quiet_hub_def] ranges_rev o h w keeps
    by (simp add: page_trace_def got_def page_wire_def)
  then show ?thesis by (simp add: w seen greeting_def)
qed

end
