(* ===== verification/Sign_In_Limits.thy ===== *)
theory Sign_In_Limits
  imports Sign_In
begin

text \<open>
  The limits of signing in, in numbers: how many codes are sent to a phone, and how many guesses a
  code survives (internal/service/customer_service.go).
\<close>

section \<open>How often a code is sent\<close>

text \<open>Everything but \<open>Allow\<close> leaves the throttles alone.\<close>

lemma aside_entry: "aside db f \<Longrightarrow> f s = (x, s') \<Longrightarrow> entry (db s') k = entry (db s) k \<and> now (db s) \<le> now (db s')"
  using aside_ages by (metis ages_def)

lemma digits_ages:
  assumes "platform_ok P db" and "randomDigits P n acc s = (r, s')"
  shows "ages (db s) (db s')"
  using assms(2)
proof (induction n arbitrary: acc s)
  case (Suc n)
  obtain d s1 where 1: "rand_digit P s = (d, s1)" by force
  have "aside db (rand_digit P)" using assms(1) by (simp add: platform_ok_def)
  note a = aside_ages [OF this 1]
  show ?case
  proof (cases d)
    case (Inl e)
    with Suc.prems 1 a show ?thesis by simp
  next
    case (Inr x)
    with Suc.prems 1 have "randomDigits P n (acc @ [char_of (48 + x)]) s1 = (r, s')" by simp
    from ages_trans [OF a Suc.IH [OF this]] show ?thesis .
  qed
qed simp

lemma Allow_run:
  assumes ok: "auth_inv R db s" and run: "throttle_run R db key limit w n s0 s"
    and a: "Allow R key' l' w' s = (a, s')" and same: "key' = key \<Longrightarrow> l' = limit \<and> w' = w"
  obtains m where "n \<le> m" "throttle_run R db key limit w m s0 s'"
    "key' = key \<Longrightarrow> \<exists>ttl. a = Inr (True, ttl) \<Longrightarrow> n < m"
proof (cases "key' = key")
  case True
  with same a have "Allow R key limit w s = (a, s')" by simp
  from that [OF _ throttle_run.uses [OF run this]] show thesis by auto
next
  case False
  then have "entry (db s') (throttleKeyFor key) = entry (db s) (throttleKeyFor key) \<and> now (db s) \<le> now (db s')"
    using Allow_entry [OF auth_invD(1) [OF ok] a, of "throttleKeyFor key"] by simp
  with that [OF _ throttle_run.other [OF run]] False show thesis by blast
qed

text \<open>
  One request, seen from one throttle: it may use it, and does if the request passes.  The throttles
  of a request with their limits and windows:
\<close>

definition throttle_of :: "string \<Rightarrow> string \<Rightarrow> string \<Rightarrow> int \<Rightarrow> int \<Rightarrow> bool" where
  "throttle_of p ip key limit w \<longleftrightarrow>
     (key = ''send:'' @ p \<and> limit = 1 \<and> w = resendCooldown)
     \<or> (key = ''send-hour:'' @ p \<and> limit = codesPerPhoneHour \<and> w = hour)
     \<or> (key = ''send-ip:'' @ ip \<and> limit = codesPerIPHour \<and> w = hour)"

definition is_throttle :: "string \<Rightarrow> int \<Rightarrow> int \<Rightarrow> bool" where
  "is_throttle key limit w \<longleftrightarrow> (\<exists>p ip. throttle_of p ip key limit w)"

lemma throttled_run:
  assumes ok: "auth_inv R db s" and run: "throttle_run R db key limit w n s0 s"
    and th: "is_throttle key limit w"
    and q: "throttled (NewCustomerService R lo se od tk cfg P L) p ip s = (r, s')"
  obtains m where "n \<le> m" "throttle_run R db key limit w m s0 s'"
    "throttle_of p ip key limit w \<Longrightarrow> r = Inr () \<Longrightarrow> n < m"
proof -
  obtain a s1 where 1: "Allow R (''send:'' @ p) 1 resendCooldown s = (a, s1)" by force
  obtain b s2 where 2: "Allow R (''send-hour:'' @ p) codesPerPhoneHour hour s1 = (b, s2)" by force
  obtain c s3 where 3: "Allow R (''send-ip:'' @ ip) codesPerIPHour hour s2 = (c, s3)" by force
  have inv: "auth_inv R db x" for x using ok by (simp add: auth_inv_def)
  obtain m1 where m1: "n \<le> m1" "throttle_run R db key limit w m1 s0 s1"
      "''send:'' @ p = key \<Longrightarrow> \<exists>ttl. a = Inr (True, ttl) \<Longrightarrow> n < m1"
    by (rule Allow_run [OF inv run 1]) (use th in \<open>auto simp: is_throttle_def throttle_of_def\<close>)
  obtain m2 where m2: "m1 \<le> m2" "throttle_run R db key limit w m2 s0 s2"
      "''send-hour:'' @ p = key \<Longrightarrow> \<exists>ttl. b = Inr (True, ttl) \<Longrightarrow> m1 < m2"
    by (rule Allow_run [OF inv m1(2) 2]) (use th in \<open>auto simp: is_throttle_def throttle_of_def\<close>)
  obtain m3 where m3: "m2 \<le> m3" "throttle_run R db key limit w m3 s0 s3"
      "''send-ip:'' @ ip = key \<Longrightarrow> \<exists>ttl. c = Inr (True, ttl) \<Longrightarrow> m2 < m3"
    by (rule Allow_run [OF inv m2(2) 3]) (use th in \<open>auto simp: is_throttle_def throttle_of_def\<close>)
  from q 1 2 3 have "s' = s1 \<and> r \<noteq> Inr () \<or> s' = s2 \<and> r \<noteq> Inr () \<or> s' = s3 \<and>
      (r = Inr () \<longrightarrow> (\<exists>ttl. a = Inr (True, ttl)) \<and> (\<exists>ttl. b = Inr (True, ttl)) \<and> (\<exists>ttl. c = Inr (True, ttl)))"
    by (auto simp: throttled_def split: sum.splits bool.splits prod.splits)
  then consider "s' = s1" "r \<noteq> Inr ()" | "s' = s2" "r \<noteq> Inr ()" | "s' = s3"
      "r = Inr () \<Longrightarrow> (\<exists>ttl. a = Inr (True, ttl)) \<and> (\<exists>ttl. b = Inr (True, ttl)) \<and> (\<exists>ttl. c = Inr (True, ttl))"
    by blast
  then show thesis
  proof cases
    case 1
    with that [of m1] m1 show thesis by auto
  next
    case 2
    with that [of m2] m1 m2 show thesis by auto
  next
    case 3
    have "n < m3" if "throttle_of p ip key limit w" "r = Inr ()"
      using 3(2) [OF that(2)] that(1) m1 m2 m3 unfolding throttle_of_def by auto
    with that [of m3] m1 m2 m3 3 show thesis by auto
  qed
qed

lemma send_code_throttle:
  assumes ok: "auth_sound R lo se P db s"
    and q: "send_code (NewCustomerService R lo se od tk cfg P L) p s = (r, s')"
  shows "entry (db s') (throttleKeyFor key) = entry (db s) (throttleKeyFor key) \<and> now (db s) \<le> now (db s')"
proof -
  let ?k = "throttleKeyFor key" and ?S = "NewCustomerService R lo se od tk cfg P L"
  have inv: "auth_inv R db x" for x using ok by (simp add: auth_inv_def)
  obtain d s1 where 1: "randomDigits P codeLength [] s = (d, s1)" by force
  have k1: "entry (db s1) ?k = entry (db s) ?k \<and> now (db s) \<le> now (db s1)"
    using digits_ages [OF _ 1] ok by (simp add: services_ok_def ages_def)
  show ?thesis
  proof (cases d)
    case (Inl e)
    with q 1 k1 show ?thesis by (simp add: send_code_def)
  next
    case (Inr digs)
    let ?c = "\<lparr>lc_Hash = hashCode ?S p digs, lc_Attempts = 0\<rparr>" and ?ttl = "cac_CodeTTL cfg"
    obtain w s2 where 2: "SaveCode R p ?c ?ttl s1 = (w, s2)" by force
    obtain u s3 where 3: "se p digs ?ttl s2 = (u, s3)" by force
    obtain v s4 where 4: "Del (car_redis R) [codeKeyFor p] s3 = (v, s4)" by force
    have "entry (db s2) ?k = entry (db s1) ?k \<and> now (db s1) \<le> now (db s2)"
      using SaveCode_db [OF inv 2] by simp
    moreover have "entry (db s3) ?k = entry (db s2) ?k \<and> now (db s2) \<le> now (db s3)"
      using aside_entry [of db "se p digs ?ttl" s2 u s3 ?k] 3 ok by (simp add: services_ok_def)
    moreover have "entry (db s4) ?k = entry (db s3) ?k \<and> now (db s3) \<le> now (db s4)"
      using Del_auth [OF auth_invD(1) [OF inv] 4] by simp
    moreover have "s' = s2 \<or> s' = s3 \<or> s' = s4"
      using q 1 2 3 4 Inr by (auto simp: send_code_def DeleteLoginCode_def split: sum.splits prod.splits)
    ultimately show ?thesis using k1 by auto
  qed
qed

lemma RequestCode_run:
  assumes ok: "auth_sound R lo se P db s" and run: "throttle_run R db key limit w n s0 s"
    and th: "is_throttle key limit w"
    and q: "RequestCode (NewCustomerService R lo se od tk cfg P L) raw ip s = (r, s')"
  obtains m where "n \<le> m" "throttle_run R db key limit w m s0 s'"
    "throttle_of (NormalizePhone raw) ip key limit w \<Longrightarrow> \<exists>sent. r = Inr sent \<Longrightarrow> n < m"
proof (cases "NormalizePhone raw = ''''")
  case True
  with q that [of n] run show thesis by (auto simp: RequestCode_def)
next
  case False
  let ?S = "NewCustomerService R lo se od tk cfg P L"
  obtain t s1 where 1: "throttled ?S (NormalizePhone raw) ip s = (t, s1)" by force
  obtain m where m: "n \<le> m" "throttle_run R db key limit w m s0 s1"
      "throttle_of (NormalizePhone raw) ip key limit w \<Longrightarrow> t = Inr () \<Longrightarrow> n < m"
    by (rule throttled_run [OF conjunct1 [OF ok] run th 1]) blast
  show thesis
  proof (cases t)
    case (Inl e)
    with q False 1 have "s' = s1" "r = Inl e" by (auto simp: RequestCode_def Let_def)
    with that [of m] m show thesis by auto
  next
    case (Inr x)
    with q False 1 have "send_code ?S (NormalizePhone raw) s1 = (r, s')" by (simp add: RequestCode_def Let_def)
    moreover have "auth_sound R lo se P db s1" using ok auth_inv_any [of R db s s1] by simp
    ultimately have "entry (db s') (throttleKeyFor key) = entry (db s1) (throttleKeyFor key) \<and> now (db s1) \<le> now (db s')"
      by (intro send_code_throttle)
    then have "throttle_run R db key limit w m s0 s'" using throttle_run.other [OF m(2)] by simp
    with that [of m] m(1,3) Inr show thesis by simp
  qed
qed

text \<open>Runs of requests for codes: how many were sent to a phone.\<close>

inductive request_run ::
  "'s customer_service \<Rightarrow> ('s \<Rightarrow> redis_db) \<Rightarrow> string \<Rightarrow> nat \<Rightarrow> 's \<Rightarrow> 's \<Rightarrow> bool" for S db phone where
  begins: "request_run S db phone 0 s s"
| waits: "request_run S db phone n s0 s \<Longrightarrow> ages (db s) (db s') \<Longrightarrow> request_run S db phone n s0 s'"
| requests: "request_run S db phone n s0 s \<Longrightarrow> RequestCode S raw ip s = (r, s') \<Longrightarrow>
    request_run S db phone (if NormalizePhone raw = phone \<and> (\<exists>sent. r = Inr sent) then Suc n else n) s0 s'"

lemma request_throttle_run:
  assumes "request_run (NewCustomerService R lo se od tk cfg P L) db phone n s0 s"
    and ok: "auth_sound R lo se P db s0" and th: "\<And>ip. throttle_of phone ip key limit w"
  shows "\<exists>m \<ge> n. throttle_run R db key limit w m s0 s"
  using assms(1,2)
proof induction
  case (begins s)
  show ?case by (intro exI [of _ 0]) (simp add: throttle_run.start)
next
  case (waits n s0 s s')
  then obtain m where "n \<le> m" "throttle_run R db key limit w m s0 s" by blast
  with throttle_run.other [of R db key limit w m s0 s s'] waits.hyps(2) show ?case
    by (auto simp: ages_def)
next
  case (requests n s0 s raw ip r s')
  then obtain m where m: "n \<le> m" "throttle_run R db key limit w m s0 s" by blast
  have s: "auth_sound R lo se P db s" using requests.prems auth_inv_any [of R db s0 s] by simp
  have "is_throttle key limit w" using th by (auto simp: is_throttle_def)
  from RequestCode_run [OF s m(2) this requests.hyps(2)] obtain m' where "m \<le> m'"
    "throttle_run R db key limit w m' s0 s'"
    "throttle_of (NormalizePhone raw) ip key limit w \<Longrightarrow> \<exists>sent. r = Inr sent \<Longrightarrow> m < m'" by blast
  with m th [of ip] show ?case by (intro exI [of _ m']) auto
qed

section \<open>Properties\<close>



section \<open>How many guesses a code survives\<close>

text \<open>A Redis that answers: every command is carried out and its answer received.\<close>

definition reliable :: "'s redis \<Rightarrow> ('s \<Rightarrow> redis_db) \<Rightarrow> bool" where
  "reliable R db \<longleftrightarrow> (\<forall>c s. \<not> is_scan c \<longrightarrow>
     (\<exists>t \<ge> now (db s). exec c (at_time t (db s)) = (fst (rd R c s), db (snd (rd R c s)))))"

lemma reliableD:
  assumes "reliable R db" and "\<not> is_scan c" and "rd R c s = (r, s')"
  obtains t where "now (db s) \<le> t" "exec c (at_time t (db s)) = (r, db s')"
  using assms unfolding reliable_def by (metis fst_conv snd_conv)

text \<open>What \<open>GetCode\<close> finds: the code, and its time to live to the nearest second.\<close>

lemma GetLoginCode_reliable:
  assumes rel: "reliable (car_redis R) db" and found: "login_code R (db s) p = Some c"
    and e: "expiry (db s) (codeKeyFor p) = Some e" and g: "GetLoginCode R p s = (g, s')"
    and later: "now (db s') + second \<le> e"
  shows "\<exists>n > 0. g = Inr (c, n * second) \<and> ages (db s) (db s')"
proof -
  let ?k = "codeKeyFor p"
  obtain raw where raw: "live (db s) ?k = Some (VStr raw)" "car_Unmarshal R raw = Inr c"
    using found by (auto simp: login_code_live)
  then have entry: "entry (db s) ?k = Some (VStr raw, Some e)"
    using e by (auto simp: live_def expiry_def split: option.splits if_splits)
  obtain r1 s1 where 1: "rd (car_redis R) (GET ?k) s = (r1, s1)" by force
  obtain r2 s2 where 2: "rd (car_redis R) (TTL ?k) s1 = (r2, s2)" by force
  obtain t1 where t1: "now (db s) \<le> t1" "exec (GET ?k) (at_time t1 (db s)) = (r1, db s1)"
    by (rule reliableD [OF rel _ 1]) simp_all
  then have d1: "db s1 = at_time t1 (db s)" by (auto split: option.splits stored.splits)
  obtain t2 where t2: "now (db s1) \<le> t2" "exec (TTL ?k) (at_time t2 (db s1)) = (r2, db s2)"
    by (rule reliableD [OF rel _ 2]) simp_all
  then have d2: "db s2 = at_time t2 (db s1)" by (auto split: option.splits)
  have s': "s' = s1 \<or> s' = s2" using g 1 2 by (auto simp: GetLoginCode_def ask_def split: sum.splits)
  have "now (db s') \<ge> t1" using s' d1 d2 t2 by auto
  with later have "t1 < e" by (simp add: second_def)
  with t1(2) entry have r1: "r1 = Inr (RBulk raw)" by (simp add: live_def)
  then have s2: "s' = s2" using g 1 2 raw(2)
    by (auto simp: GetLoginCode_def ask_def split: sum.splits)
  then have t2e: "t2 + second \<le> e" using later d2 by simp
  let ?n = "(e - t2 + second div 2) div second"
  have "r2 = Inr (RInt ?n)"
    using t2(2) entry d1 t2e by (simp add: live_def expiry_def second_def)
  moreover have "0 < ?n"
    using t2e by (simp add: pos_imp_zdiv_pos_iff second_def)
  ultimately show ?thesis using g 1 2 r1 raw(2) s2 d1 d2 t1 t2(1)
    by (intro exI [of _ ?n]) (auto simp: GetLoginCode_def ask_def as_ttl_def ages_def)
qed

lemma SaveCode_reliable:
  assumes rel: "reliable (car_redis R) db" and inv: "auth_inv R db s"
    and j: "car_Marshal R c = Inr json" and ttl: "0 < ttl" and q: "SaveCode R p c ttl s = (w, s')"
  shows "login_code R (db s') p = Some c"
proof -
  obtain r where 1: "rd (car_redis R) (SET (codeKeyFor p) json ttl) s = (r, s')"
    using q j by (auto simp: SaveCode_def SetBytes_def ask_def split: sum.splits prod.splits)
  obtain t where "exec (SET (codeKeyFor p) json ttl) (at_time t (db s)) = (r, db s')"
    by (rule reliableD [OF rel _ 1]) (simp, blast)
  then have d: "db s' = put (codeKeyFor p) (VStr json) (Some (t + in_millis ttl)) (at_time t (db s))"
    using ttl by (simp add: at_time_def)
  have "live (db s') (codeKeyFor p) = Some (VStr json)"
    using in_millis_pos [of ttl] by (simp add: d live_def put_def entry_def at_time_def)
  with auth_invD(3) [OF inv j] show ?thesis by (auto simp: login_code_live)
qed

lemma DeleteLoginCode_reliable:
  assumes rel: "reliable (car_redis R) db" and q: "DeleteLoginCode R p s = (w, s')"
  shows "login_code R (db s') p = None"
proof -
  obtain r where 1: "rd (car_redis R) (DEL [codeKeyFor p]) s = (r, s')"
    using q by (auto simp: DeleteLoginCode_def Del_def ask_def split: sum.splits prod.splits)
  obtain t where "exec (DEL [codeKeyFor p]) (at_time t (db s)) = (r, db s')"
    by (rule reliableD [OF rel _ 1]) (simp, blast)
  then have d: "db s' = drop_keys [codeKeyFor p] (at_time t (db s))" by simp
  have "entry (db s') (codeKeyFor p) = None"
    by (auto simp: d drop_keys_def entry_def map_of_eq_None_iff)
  then show ?thesis by (simp add: login_code_def live_def)
qed

lemma judge_wrong:
  assumes rel: "reliable (car_redis R) db" and inv: "auth_inv R db s" and "\<And>c. \<exists>json. car_Marshal R c = Inr json"
    and S: "S = NewCustomerService R lo se od tk cfg P L"
    and "lc_Hash c \<noteq> hashCode S p g" "0 < ttl" and q: "judge_code S p g c ttl s = (r, s')"
  shows "(\<exists>m. r = Inl (NewValidationError m)) \<and> login_code R (db s') p =
    (if lc_Attempts c < 4 then Some (c\<lparr>lc_Attempts := lc_Attempts c + 1\<rparr>) else None)"
proof (cases "lc_Attempts c < 4")
  case True
  let ?c = "c\<lparr>lc_Attempts := lc_Attempts c + 1\<rparr>"
  obtain json where "car_Marshal R ?c = Inr json" using assms(3) by blast
  moreover obtain w s2 where 2: "SaveCode R p ?c ttl s = (w, s2)" by force
  ultimately have "login_code R (db s2) p = Some ?c" using SaveCode_reliable [OF rel inv _ assms(6)] by blast
  with True q 2 assms(5,6) show ?thesis
    by (auto simp: judge_code_def S maxCodeAttempts_def Let_def)
next
  case False
  obtain w s2 where 2: "DeleteLoginCode R p s = (w, s2)" by force
  from DeleteLoginCode_reliable [OF rel this] False q 2 assms(5) show ?thesis
    by (auto simp: judge_code_def S maxCodeAttempts_def Let_def)
qed

text \<open>
  C28. A wrong guess counts.  When Redis answers and the code has at least a second to live, entering
  a wrong code is refused and leaves the same code with one more attempt counted, until the fifth,
  which removes it.
\<close>

theorem wrong_guess_counts:
  assumes "reliable (car_redis R) db" and "auth_sound R lo se P db s"
    and "\<And>c. \<exists>json. car_Marshal R c = Inr json" and "NormalizePhone raw = p" and "p \<noteq> ''''"
    and "login_code R (db s) p = Some c" and "expiry (db s) (codeKeyFor p) = Some e"
    and "lc_Hash c \<noteq> hashCode S p g" and "S = NewCustomerService R lo se od tk cfg P L"
    and "VerifyCode S raw g f s = (r, s')" and "now (db s') + second \<le> e"
  shows "(\<exists>m. r = Inl (NewValidationError m))
    \<and> login_code R (db s') p = (if lc_Attempts c < 4 then Some (c\<lparr>lc_Attempts := lc_Attempts c + 1\<rparr>) else None)"
proof -
  obtain x s1 where 1: "GetLoginCode R p s = (x, s1)" by force
  have inv: "auth_inv R db y" for y using assms(2) by (simp add: auth_inv_def)
  have same: "c' = c" if "x = Inr (c', ttl)" for c' ttl
    using GetLoginCode_db [OF auth_invD(1) [OF inv] 1] assms(6) that by simp
  have sv: "now (db y) \<le> now (db (snd (SaveCode R p d ttl y)))" for d ttl y
    using SaveCode_db [OF inv, of p d ttl y "fst (SaveCode R p d ttl y)"] by simp
  have dl: "now (db y) \<le> now (db (snd (DeleteLoginCode R p y)))" for y
    using Del_auth [OF auth_invD(1) [OF inv], of "codeKeyFor p" y "fst (DeleteLoginCode R p y)"]
    by (simp add: DeleteLoginCode_def)
  from assms(4,5,8,9,10) 1 same have "now (db s1) \<le> now (db s')"
    using sv [of s1] dl [of s1]
    by (auto simp: VerifyCode_def Let_def check_code_def judge_code_def split: sum.splits if_splits)
  with assms(11) have "now (db s1) + second \<le> e" by simp
  from GetLoginCode_reliable [OF assms(1,6,7) 1 this] obtain n where n: "0 < n" "x = Inr (c, n * second)" by blast
  obtain r0 s2 where 2: "judge_code S p g c (n * second) s1 = (r0, s2)" by force
  have "0 < n * second" using n(1) by (simp add: second_def)
  from judge_wrong [OF assms(1) inv assms(3,9,8) this 2]
  obtain m where m: "r0 = Inl (NewValidationError m)" "login_code R (db s2) p =
    (if lc_Attempts c < 4 then Some (c\<lparr>lc_Attempts := lc_Attempts c + 1\<rparr>) else None)" by blast
  moreover have "r = Inl (NewValidationError m) \<and> s' = s2"
    using assms(4,5,9,10) 1 2 n(2) m(1) by (auto simp: VerifyCode_def Let_def check_code_def)
  ultimately show ?thesis by blast
qed

end
