(* ===== verification/Sign_In_Live.thy ===== *)
theory Sign_In_Live
  imports Sign_In_Limits
begin

text \<open>
  Signing in works: when Redis answers and the other services do their part, the code that was sent
  signs its owner in and leaves a usable refresh token.  The second half is a concrete desk (a
  Redis, an encoding, services) on which the sign-in properties are run.
\<close>

section \<open>The code that was sent\<close>

definition members_served :: "'s customer_service \<Rightarrow> bool" where
  "members_served S \<longleftrightarrow>
     (\<forall>p f s. \<exists>resp m u. fst (UpsertMemberByPhone (cs_loyalty S) p f s) = Inr resp \<and> um_Member resp = Some m
        \<and> uuid_Parse (cs_platform S) (lm_Id m) = Inr u)
     \<and> (\<forall>u s. \<exists>x. fst (IssueAccess (cs_platform S) (cs_jwt S) (cs_tokens S) u s) = Inr x)
     \<and> (\<forall>n s. \<exists>b. fst (rand_Read (cs_platform S) n s) = Inr b)"

lemma SaveCode_expiry:
  assumes rel: "reliable (car_redis R) db" and ttl: "0 < ttl" and q: "SaveCode R p c ttl s = (Inr (), s')"
  shows "\<exists>t \<ge> now (db s). expiry (db s') (codeKeyFor p) = Some (t + in_millis ttl)"
proof -
  obtain r json where 1: "rd (car_redis R) (SET (codeKeyFor p) json ttl) s = (r, s')"
    using q by (auto simp: SaveCode_def SetBytes_def ask_def split: sum.splits prod.splits)
  obtain t where t: "now (db s) \<le> t" "exec (SET (codeKeyFor p) json ttl) (at_time t (db s)) = (r, db s')"
    by (rule reliableD [OF rel _ 1]) (simp, blast)
  then have "db s' = put (codeKeyFor p) (VStr json) (Some (t + in_millis ttl)) (at_time t (db s))"
    using ttl by (simp add: at_time_def)
  with t(1) show ?thesis by (auto simp: expiry_def put_def entry_def)
qed

lemma SaveRefresh_reliable:
  assumes rel: "reliable (car_redis R) db" and inv: "auth_inv R db s"
    and q: "SaveRefresh R h m ttl s = (w, s')"
  shows "w = Inr () \<and> refresh_of R (db s') h = Some m"
proof -
  let ?v = "uuid_String (car_platform R) m"
  obtain r where 1: "rd (car_redis R) (SET (refreshKeyFor h) ?v ttl) s = (r, s')" "w = as_ok r"
    using q by (auto simp: SaveRefresh_def ask_def split: prod.splits)
  obtain t where "exec (SET (refreshKeyFor h) ?v ttl) (at_time t (db s)) = (r, db s')"
    by (rule reliableD [OF rel _ 1(1)]) (simp, blast)
  then have d: "r = Inr ROk" "db s' = put (refreshKeyFor h) (VStr ?v)
      (if ttl \<le> 0 then None else Some (t + in_millis ttl)) (at_time t (db s))"
    by (simp_all add: at_time_def split: if_splits)
  have "live (db s') (refreshKeyFor h) = Some (VStr ?v)"
    using in_millis_pos [of ttl] by (simp add: d live_def put_def entry_def at_time_def)
  with auth_invD(4) [OF inv] 1(2) d(1) show ?thesis by (simp add: refresh_of_live)
qed

text \<open>What a successful request leaves: the code handed to the SMS sender is pending, unexpired.\<close>

lemma send_code_pending:
  assumes rel: "reliable (car_redis R) db" and ok: "auth_sound R lo se P db s"
    and json: "\<And>c. \<exists>json. car_Marshal R c = Inr json" and ttl: "0 < cac_CodeTTL cfg"
    and q: "send_code (NewCustomerService R lo se od tk cfg P L) p s = (Inr sent, s')"
  obtains code s0 u c e where "se p code (cac_CodeTTL cfg) s0 = (Inr u, s')" "sent_Phone sent = p"
    "entry (db s') (codeKeyFor p) = Some (c, Some e)" "now (db s) + in_millis (cac_CodeTTL cfg) \<le> e"
    "now (db s') < e \<Longrightarrow> login_code R (db s') p
       = Some \<lparr>lc_Hash = hashCode (NewCustomerService R lo se od tk cfg P L) p code, lc_Attempts = 0\<rparr>"
proof -
  let ?S = "NewCustomerService R lo se od tk cfg P L" and ?ttl = "cac_CodeTTL cfg"
  have inv: "auth_inv R db x" for x using ok by (simp add: auth_inv_def)
  obtain d s1 where 1: "randomDigits P codeLength [] s = (d, s1)" by force
  with q obtain code where code: "d = Inr code" by (auto simp: send_code_def split: sum.splits)
  let ?c = "\<lparr>lc_Hash = hashCode ?S p code, lc_Attempts = 0\<rparr>"
  obtain w s2 where 2: "SaveCode R p ?c ?ttl s1 = (w, s2)" by force
  with q 1 code have w: "w = Inr ()" by (auto simp: send_code_def split: sum.splits)
  obtain v s3 where 3: "se p code ?ttl s2 = (v, s3)" by force
  with q 1 2 code w obtain u where u: "v = Inr u" "s' = s3" "sent_Phone sent = p"
    by (auto simp: send_code_def split: sum.splits)
  have "now (db s) \<le> now (db s1)"
    using digits_ages [OF _ 1] ok by (simp add: services_ok_def ages_def)
  moreover obtain t where t: "now (db s1) \<le> t" "expiry (db s2) (codeKeyFor p) = Some (t + in_millis ?ttl)"
    using SaveCode_expiry [OF rel ttl 2 [unfolded w]] by blast
  moreover obtain json where "car_Marshal R ?c = Inr json" using json by blast
  from SaveCode_reliable [OF rel inv this ttl 2] have "login_code R (db s2) p = Some ?c" .
  moreover have "entry (db s3) = entry (db s2)"
    using aside_ages [of db "se p code ?ttl" s2 v s3] 3 ok by (simp add: services_ok_def ages_def)
  ultimately show thesis
    using that [OF 3 [folded u(2), unfolded u(1)] u(3)] u(2)
    by (auto simp: expiry_def login_code_live live_def split: option.splits if_splits)
qed

lemma throttled_now:
  assumes ok: "redis_ok (car_redis R) db"
    and q: "throttled (NewCustomerService R lo se od tk cfg P L) p ip s = (r, s')"
  shows "now (db s) \<le> now (db s')"
proof -
  obtain a s1 where 1: "Allow R (''send:'' @ p) 1 resendCooldown s = (a, s1)" by force
  obtain b s2 where 2: "Allow R (''send-hour:'' @ p) codesPerPhoneHour hour s1 = (b, s2)" by force
  obtain c s3 where 3: "Allow R (''send-ip:'' @ ip) codesPerIPHour hour s2 = (c, s3)" by force
  note le = Allow_entry [OF ok 1, of "codeKeyFor p"] Allow_entry [OF ok 2, of "codeKeyFor p"]
    Allow_entry [OF ok 3, of "codeKeyFor p"]
  from q 1 2 3 have "s' = s1 \<or> s' = s2 \<or> s' = s3"
    by (auto simp: throttled_def split: sum.splits bool.splits prod.splits)
  with le show ?thesis by auto
qed

section \<open>Signing in\<close>

lemma sign_in_served:
  assumes rel: "reliable (car_redis R) db" and ok: "auth_sound R lo se P db s"
    and S: "S = NewCustomerService R lo se od tk cfg P L" and up: "members_served S"
    and q: "sign_in S p f s = (r, s')"
  shows "now (db s) \<le> now (db s')
    \<and> (\<exists>sess u. r = Inr sess \<and> refresh_of R (db s') (hashToken S (sess_RefreshToken sess)) = Some u)"
proof -
  have inv: "auth_inv R db x" for x using ok by (simp add: auth_inv_def)
  obtain y s1 where 1: "UpsertMemberByPhone lo p f s = (y, s1)" by force
  with up S obtain resp m u where u: "y = Inr resp" "um_Member resp = Some m" "uuid_Parse P (lm_Id m) = Inr u"
    unfolding members_served_def by (metis NewCustomerService_sel(8,12) fst_conv)
  obtain z s2 where 2: "IssueAccess P L tk u s1 = (z, s2)" by force
  with up S obtain tok ex where z: "z = Inr (tok, ex)"
    unfolding members_served_def by (metis NewCustomerService_sel(10,12,13) fst_conv surj_pair)
  obtain b s3 where 3: "rand_Read P refreshTokenEntropy s2 = (b, s3)" by force
  with up S obtain raw where b: "b = Inr raw"
    unfolding members_served_def by (metis NewCustomerService_sel(12) fst_conv)
  let ?h = "hashToken S (b64 raw)"
  obtain w s4 where 4: "SaveRefresh R ?h u (cac_RefreshTTL cfg) s3 = (w, s4)" by force
  note W = SaveRefresh_reliable [OF rel inv 4]
  have "now (db s) \<le> now (db s1)"
    using aside_ages [of db "UpsertMemberByPhone lo p f" s y s1] 1 ok by (simp add: services_ok_def ages_def)
  moreover have "now (db s1) \<le> now (db s2)"
    using IssueAccess_ages [OF _ 2, of db] ok by (simp add: services_ok_def ages_def)
  moreover have "now (db s2) \<le> now (db s3)"
    using aside_ages [of db "rand_Read P refreshTokenEntropy" s2 b s3] 3 ok
    by (simp add: services_ok_def ages_def platform_okD)
  moreover have "now (db s3) \<le> now (db s4)" using SaveRefresh_db [OF inv 4] by simp
  moreover have "s' = s4 \<and> (\<exists>sess. r = Inr sess \<and> sess_RefreshToken sess = b64 raw)"
    using q 1 2 3 4 u z b W by (auto simp: S sign_in_def newSession_def MemberFromProto_def)
  ultimately show ?thesis using W by auto
qed

lemma pending_code_signs_in:
  assumes rel: "reliable (car_redis R) db" and sound: "\<And>x. auth_sound R lo se P db x"
    and S: "S = NewCustomerService R lo se od tk cfg P L" and up: "members_served S"
    and pending: "entry (db s1) (codeKeyFor p) = Some (c, Some e)"
      "now (db s1) < e \<Longrightarrow> login_code R (db s1) p = Some \<lparr>lc_Hash = hashCode S p code, lc_Attempts = 0\<rparr>"
    and ag: "ages (db s1) (db s2)" and p: "NormalizePhone again = p" "p \<noteq> ''''"
    and v: "VerifyCode S again code f s2 = (r, s3)" and fresh: "now (db s3) + second \<le> e"
  shows "\<exists>sess m. r = Inr sess \<and> refresh_of R (db s3) (hashToken S (sess_RefreshToken sess)) = Some m"
proof -
  have inv: "auth_inv R db x" for x using sound by simp
  obtain g s4 where 4: "GetLoginCode R p s2 = (g, s4)" by force
  note G = GetLoginCode_db [OF auth_invD(1) [OF inv] 4]
  obtain w s5 where 5: "DeleteLoginCode R p s4 = (w, s5)" by force
  have "now (db s4) \<le> now (db s5)"
    using Del_auth [OF auth_invD(1) [OF inv], of "codeKeyFor p" s4 w s5] 5 by (simp add: DeleteLoginCode_def)
  obtain r6 s6 where 6: "sign_in S p f s5 = (r6, s6)" by force
  note I = sign_in_served [OF rel sound S up 6]
  have right: "lc_Hash st = hashCode S p code" if "g = Inr (st, ttl)" for st ttl
  proof -
    have "login_code R (db s1) p = Some st"
      using G that ages_auth [OF ag, of R] by (metis domI map_le_def)
    moreover from this pending(1) have "now (db s1) < e"
      by (auto simp: login_code_live live_def split: option.splits if_splits)
    ultimately show ?thesis using pending(2) by auto
  qed
  have s3: "(\<exists>x. g = Inl x) \<and> s3 = s4 \<or> (r, s3) = (r6, s6) \<and> (\<exists>x. g = Inr x)"
    using v 4 5 6 p right
    by (auto simp: S VerifyCode_def Let_def check_code_def judge_code_def split: sum.splits)
  then have "now (db s4) \<le> now (db s3)" using I \<open>now (db s4) \<le> now (db s5)\<close> by auto
  with fresh have late: "now (db s4) + second \<le> e" by simp
  then have alive: "now (db s1) < e" "now (db s2) < e" using ag G by (auto simp: second_def ages_def)
  have same: "entry (db s2) = entry (db s1)" using ag by (simp add: ages_def)
  have "login_code R (db s2) p = login_code R (db s1) p"
    using same alive pending(1) by (simp add: login_code_def live_def)
  with pending(2) alive have found: "login_code R (db s2) p = Some \<lparr>lc_Hash = hashCode S p code, lc_Attempts = 0\<rparr>"
    by simp
  have "expiry (db s2) (codeKeyFor p) = Some e" using same pending(1) by (simp add: expiry_def)
  from GetLoginCode_reliable [OF rel found this 4 late] s3 I show ?thesis by auto
qed


section \<open>A desk to run it on\<close>

text \<open>An encoding of login codes: the attempts in unary, their sign, the hash.\<close>

definition ref_encode :: "LoginCode \<Rightarrow> string" where
  "ref_encode c = replicate (nat \<bar>lc_Attempts c\<bar>) CHR ''1'' @ (if lc_Attempts c < 0 then CHR ''-'' else CHR ''+'') # lc_Hash c"

definition ref_decode :: "string \<Rightarrow> go_error + LoginCode" where
  "ref_decode raw =
     (let n = int (length (takeWhile (\<lambda>c. c = CHR ''1'') raw)) in
      case dropWhile (\<lambda>c. c = CHR ''1'') raw of
        [] \<Rightarrow> Inl (Text ''json'')
      | c # h \<Rightarrow> Inr \<lparr>lc_Hash = h, lc_Attempts = (if c = CHR ''-'' then - n else n)\<rparr>)"

lemma ref_decode_encode [simp]: "ref_decode (ref_encode c) = Inr c"
proof -
  have "takeWhile (\<lambda>c. c = x) (replicate n x @ y # h) = replicate n x"
    "dropWhile (\<lambda>c. c = x) (replicate n x @ y # h) = y # h" if "y \<noteq> x" for x y :: char and n h
    using that by (induction n) simp_all
  then show ?thesis by (simp add: ref_encode_def ref_decode_def)
qed

definition ref_auth :: "redis_db customer_auth_repo" where
  "ref_auth = \<lparr>car_redis = ref_redis, car_platform = ref_platform,
               car_Marshal = (\<lambda>c. Inr (ref_encode c)), car_Unmarshal = ref_decode\<rparr>"

lemma ref_auth_inv: "auth_inv ref_auth id d"
  by (auto simp: auth_inv_def ref_auth_def ref_redis_ok ref_platform_ok)

lemma ref_auth_reliable: "reliable (car_redis ref_auth) id"
proof -
  have "ref_rd c d = exec c d" if "\<not> is_scan c" for c d using that by (cases c) auto
  then show ?thesis by (auto simp: reliable_def ref_auth_def ref_redis_def intro!: exI [of _ "now _"])
qed

definition desk_member :: loyalty_member where
  "desk_member = empty_loyalty_member\<lparr>lm_Id := ''5'', lm_Phone := ''+79990000000''\<rparr>"

definition desk_loyalty :: "redis_db loyalty_api" where
  "desk_loyalty =
     \<lparr>GetProgram = (\<lambda>d. (Inr \<lparr>lp_EarnPercent = 5, lp_MaxRedeemPercent = 50, lp_WelcomeBonus = 100,
                              lp_PointValueKopecks = 100\<rparr>, d)),
      GetMember = (\<lambda>_ d. (Inr desk_member, d)),
      UpsertMemberByPhone = (\<lambda>_ _ d. (Inr \<lparr>um_Member = Some desk_member, um_Created = True\<rparr>, d)),
      UpdateMember = (\<lambda>_ _ _ d. (Inr desk_member, d)),
      ListTransactions = (\<lambda>_ _ _ d. (Inr \<lparr>ltr_Transactions = [], ltr_Total = 0\<rparr>, d)),
      IssueMemberCode = (\<lambda>_ d. (Inr \<lparr>mc_Code = ''12345678'', mc_ExpiresAt = 0\<rparr>, d)),
      ResolveMemberCode = (\<lambda>_ d. (Inr desk_member, d)),
      ReservePoints = (\<lambda>_ d. (Inl (RpcPlain ''unused''), d)),
      CommitHold = (\<lambda>_ d. (Inl (RpcPlain ''unused''), d)), ReleaseHold = (\<lambda>_ d. (Inl (RpcPlain ''unused''), d))\<rparr>"

definition desk_orders :: "redis_db orders_api" where
  "desk_orders =
     \<lparr>CreateOrder = (\<lambda>_ d. (Inl (RpcPlain ''unused''), d)), GetOrder = (\<lambda>_ d. (Inl (RpcPlain ''unused''), d)),
      ListActiveOrders = (\<lambda>_ _ d. (Inr [], d)), ListOrders = (\<lambda>_ d. (Inr \<lparr>lor_Orders = [], lor_Total = 0\<rparr>, d)),
      UpdateOrderStatus = (\<lambda>_ d. (Inl (RpcPlain ''unused''), d))\<rparr>"

definition desk_jwt :: jwt_lib where
  "desk_jwt = \<lparr>jwt_sign = (\<lambda>_ _. Inr ''token''), jwt_parse = (\<lambda>_ _ _ _ _. Inl (JwtOther ''unused''))\<rparr>"

definition desk_config :: CustomerAuthConfig where
  "desk_config = \<lparr>cac_JWTSecret = ''k'', cac_AccessTTL = hour, cac_RefreshTTL = 24 * hour, cac_CodeTTL = 5 * minute,
     cac_DevEchoCode = False, cac_CookieSecure = True, cac_KioskSessionTTL = 5 * minute\<rparr>"

abbreviation desk :: "redis_db customer_service" where
  "desk \<equiv> NewCustomerService ref_auth desk_loyalty (\<lambda>_ _ _ d. (Inr (), d)) desk_orders demo_customers
     desk_config ref_platform desk_jwt"

lemma desk_sound: "auth_sound ref_auth desk_loyalty (\<lambda>_ _ _ d. (Inr (), d)) ref_platform id d"
  using ref_platform_ok
  by (auto simp: ref_auth_inv services_ok_def desk_loyalty_def aside_def intro: exI [of _ "now _"])

abbreviation desk_phone :: string where
  "desk_phone \<equiv> ''+79991234567''"

lemma desk_phone [simp]: "NormalizePhone desk_phone = desk_phone"
  using NormalizePhone_plus [of "''79991234567''"] by (simp add: is_digit_def)

lemma ref_auth_sel [simp]:
  "car_redis ref_auth = ref_redis" "car_platform ref_auth = ref_platform" "rd_tx ref_redis = exec_all"
  "car_Marshal ref_auth c = Inr (ref_encode c)" "car_Unmarshal ref_auth = ref_decode"
  by (simp_all add: ref_auth_def ref_redis_def)

lemma desk_Allow:
  assumes "live d (throttleKeyFor key) = None" and "0 < w"
  shows "\<exists>ttl d'. Allow ref_auth key limit w d = (Inr (1 \<le> limit, ttl), d') \<and> now d' = now d
    \<and> (\<forall>k. k \<noteq> throttleKeyFor key \<longrightarrow> entry d' k = entry d k)"
proof -
  have "0 < in_seconds w"
    using assms(2) pos_imp_zdiv_pos_iff [of second w] by (auto simp: in_seconds_def second_def)
  with assms show ?thesis
    by (auto simp: Allow_def Let_def val_of_def as_ttl_def split: option.splits)
qed

lemma desk_sevens: "randomDigits ref_platform n acc d = (Inr (acc @ replicate n CHR ''7''), d)"
proof (induction n arbitrary: acc)
  case (Suc n)
  have "(char_of (48 + 7 :: nat) :: char) = CHR ''7''" by code_simp
  moreover have "rand_digit ref_platform d = (Inr 7, d)" by (simp add: ref_platform_def)
  ultimately show ?case using Suc by simp
qed simp

lemma desk_digits: "randomDigits ref_platform codeLength [] d = (Inr ''777777'', d)"
  by (simp only: desk_sevens codeLength_def) (simp add: numeral_eq_Suc)

lemma live_same: "entry d' k = entry d k \<Longrightarrow> now d' = now d \<Longrightarrow> live d' k = live d k"
  by (auto simp: live_def split: option.splits)

lemma desk_SaveCode: "SaveCode ref_auth p c ttl d =
    (Inr (), put (codeKeyFor p) (VStr (ref_encode c)) (if ttl \<le> 0 then None else Some (now d + in_millis ttl)) d)"
  by (simp add: SaveCode_def SetBytes_def ask_def ref_redis_def)

text \<open>The first request of a quiet desk sends a code, good for five minutes.\<close>

lemma desk_request:
  assumes quiet: "\<forall>key. live d (throttleKeyFor key) = None"
  shows "\<exists>sent d'. RequestCode desk desk_phone ip d = (Inr sent, d') \<and> now d' = now d
    \<and> login_code ref_auth d' desk_phone
        = Some \<lparr>lc_Hash = hashCode desk desk_phone ''777777'', lc_Attempts = 0\<rparr>
    \<and> expiry d' (codeKeyFor desk_phone) = Some (now d + 5 * minute)"
proof -
  obtain t1 d1 where 1: "Allow ref_auth (''send:'' @ desk_phone) 1 resendCooldown d = (Inr (True, t1), d1)"
      "now d1 = now d" "\<forall>k. k \<noteq> throttleKeyFor (''send:'' @ desk_phone) \<longrightarrow> entry d1 k = entry d k"
    using desk_Allow [of d "''send:'' @ desk_phone" resendCooldown 1] quiet
    by (auto simp: resendCooldown_def second_def)
  have "live d1 (throttleKeyFor (''send-hour:'' @ desk_phone)) = None"
    using quiet 1 live_same [of d1 _ d] by simp
  then obtain t2 d2 where 2: "Allow ref_auth (''send-hour:'' @ desk_phone) codesPerPhoneHour hour d1 = (Inr (True, t2), d2)"
      "now d2 = now d1" "\<forall>k. k \<noteq> throttleKeyFor (''send-hour:'' @ desk_phone) \<longrightarrow> entry d2 k = entry d1 k"
    using desk_Allow [of d1 "''send-hour:'' @ desk_phone" hour codesPerPhoneHour]
    by (auto simp: codesPerPhoneHour_def hour_def)
  have "live d2 (throttleKeyFor (''send-ip:'' @ ip)) = None"
    using quiet 1 2 live_same [of d2 _ d] by simp
  then obtain t3 d3 where 3: "Allow ref_auth (''send-ip:'' @ ip) codesPerIPHour hour d2 = (Inr (True, t3), d3)"
      "now d3 = now d2"
    using desk_Allow [of d2 "''send-ip:'' @ ip" hour codesPerIPHour]
    by (auto simp: codesPerIPHour_def hour_def)
  let ?c = "\<lparr>lc_Hash = hashCode desk desk_phone ''777777'', lc_Attempts = 0\<rparr>"
  let ?d = "put (codeKeyFor desk_phone) (VStr (ref_encode ?c)) (Some (now d + 5 * minute)) d3"
  have ttl: "in_millis (5 * minute) = 5 * minute" by (simp add: in_millis_def duration_defs)
  have "\<exists>sent. RequestCode desk desk_phone ip d = (Inr sent, ?d)"
    using 1 2 3 ttl by (simp add: RequestCode_def Let_def throttled_def send_code_def desk_digits desk_SaveCode
        desk_config_def minute_def)
  moreover have "now ?d = now d" using 1 2 3 by simp
  moreover have "live ?d (codeKeyFor desk_phone) = Some (VStr (ref_encode ?c))"
    using 1 2 3 by (simp add: duration_defs)
  ultimately show ?thesis by (auto simp: login_code_live expiry_def)
qed

lemma quiet_desk: "\<forall>key. live (empty_db 0) (throttleKeyFor key) = None"
  by (simp add: live_def entry_def empty_db_def)

section \<open>The properties at the desk\<close>

theorem throttle_bound_witness:
  "\<exists>ttl d. Allow ref_auth ''k'' 1 minute (empty_db 0) = (Inr (True, ttl), d)
     \<and> (\<forall>ttl'. fst (Allow ref_auth ''k'' 1 minute (at_time 1 d)) \<noteq> Inr (True, ttl'))"
proof -
  have quiet: "live (empty_db 0) (throttleKeyFor ''k'') = None" using quiet_desk by blast
  obtain ttl d where 1: "Allow ref_auth ''k'' 1 minute (empty_db 0) = (Inr (True, ttl), d)" "now d = 0"
    using desk_Allow [OF quiet, of minute 1] by (auto simp: minute_def empty_db_def)
  obtain a d' where 2: "Allow ref_auth ''k'' 1 minute (at_time 1 d) = (a, d')" by force
  have "now d' = 1" if "a = Inr (True, ttl')" for ttl'
  proof -
    obtain rs where "exec_all (allow_cmds (throttleKeyFor ''k'') minute) (at_time 1 d) = (rs, d')"
      using 2 by (auto simp: Allow_def Let_def split: prod.splits option.splits list.splits)
    then show ?thesis
      using exec_all_entry [of "allow_cmds (throttleKeyFor ''k'') minute" "''x'' @ throttleKeyFor ''k''" "at_time 1 d"]
      by simp
  qed
  moreover have run: "throttle_run ref_auth id ''k'' 1 minute (Suc 0) (empty_db 0) (at_time 1 d)"
    using throttle_run.other [OF throttle_run.uses [OF throttle_run.start 1(1), where db = id],
        of "at_time 1 d"] 1(2) by simp
  moreover have "\<not> now d' < in_seconds minute" if "a = Inr (True, ttl')" for ttl'
    using throttle_bound [OF throttle_run.uses [OF run 2]] that quiet ref_redis_ok
    by (auto simp: minute_def empty_db_def)
  ultimately show ?thesis using 1 2 by (auto simp: in_seconds_def duration_defs)
qed


text \<open>The clock of the desk stands still unless it is moved.\<close>

lemma desk_rd_now [simp]: "now (snd (rd ref_redis c d)) = now d"
proof -
  have "now (snd (ref_rd c d)) = now d" by (cases c) (simp_all add: exec_now del: exec.simps)
  then show ?thesis by (simp add: ref_redis_def)
qed

lemma desk_now:
  "now (snd (GetLoginCode ref_auth p d)) = now d" "now (snd (DeleteLoginCode ref_auth p d)) = now d"
  "now (snd (SaveCode ref_auth p c ttl d)) = now d" "now (snd (SaveRefresh ref_auth h m ttl d)) = now d"
  "now (snd (IssueAccess ref_platform L tk u d)) = now d"
  by (simp_all add: GetLoginCode_def DeleteLoginCode_def Del_def SaveCode_def SetBytes_def SaveRefresh_def ask_def
    IssueAccess_def Let_def ref_platform_def ref_clock_def split_beta split: sum.split)

lemma desk_member_id: "uuid_Parse ref_platform ''5'' = Inr 5"
proof -
  have "digits 5 = ''5''" by code_simp
  then have "uuid_String ref_platform 5 = ''5''" by (simp add: ref_platform_def)
  with platform_okD(4) [OF ref_platform_ok, of 5] show ?thesis by simp
qed

lemma desk_sign_in_now: "now (snd (sign_in desk p f d)) = now d"
proof -
  obtain a d1 where 1: "IssueAccess ref_platform desk_jwt demo_customers 5 d = (a, d1)" by force
  have "now d1 = now d" using desk_now(5) [of desk_jwt demo_customers 5 d] 1 by simp
  moreover have "rand_Read ref_platform n d1 = (Inr (replicate n CHR ''r''), d1)" for n
    by (simp add: ref_platform_def)
  moreover obtain w d2 where "SaveRefresh ref_auth (hashToken desk (b64 (replicate refreshTokenEntropy CHR ''r''))) 5
      (cac_RefreshTTL desk_config) d1 = (w, d2)" by force
  moreover from this have "now d2 = now d1" by (metis desk_now(4) snd_conv)
  ultimately show ?thesis using 1 desk_member_id
    by (auto simp: sign_in_def newSession_def desk_loyalty_def desk_member_def MemberFromProto_def
        empty_loyalty_member_def split: sum.split prod.split)
qed

lemma desk_verify_now: "now (snd (VerifyCode desk p c f d)) = now d"
proof -
  obtain g d1 where 1: "GetLoginCode ref_auth (NormalizePhone p) d = (g, d1)" by force
  have n1: "now d1 = now d" using desk_now(1) [of "NormalizePhone p" d] 1 by simp
  obtain j d2 where 2: "check_code desk (NormalizePhone p) c d = (j, d2)" by force
  have "now d2 = now d"
    using 1 2 n1 by (auto simp: check_code_def judge_code_def Let_def desk_now split: sum.splits if_splits)
  with 2 desk_sign_in_now [of "NormalizePhone p" f d2] show ?thesis
    by (auto simp: VerifyCode_def Let_def split: sum.split)
qed

lemma desk_served: "members_served desk"
proof -
  have "\<exists>x. fst (IssueAccess ref_platform desk_jwt tk u d) = Inr x" for tk u d
    by (auto simp: IssueAccess_def sign_def desk_jwt_def split: prod.split)
  then show ?thesis
    by (auto simp: desk_member_id members_served_def desk_loyalty_def desk_member_def empty_loyalty_member_def)
       (simp add: ref_platform_def)
qed

lemma desk_asked:
  obtains sent d where "RequestCode desk desk_phone ''ip'' (empty_db 0) = (Inr sent, d)" "now d = 0"
    "login_code ref_auth d desk_phone = Some \<lparr>lc_Hash = hashCode desk desk_phone ''777777'', lc_Attempts = 0\<rparr>"
    "expiry d (codeKeyFor desk_phone) = Some (5 * minute)"
  using desk_request [OF quiet_desk, of "''ip''"] by (auto simp: empty_db_def)


lemma desk_signs_in:
  assumes "RequestCode desk desk_phone ''ip'' (empty_db 0) = (Inr sent, d)"
  shows "\<exists>sess d'. VerifyCode desk desk_phone ''777777'' ''Anna'' d = (Inr sess, d')"
proof -
  obtain r d' where 2: "VerifyCode desk desk_phone ''777777'' ''Anna'' d = (r, d')" by force
  have 3: "now d = 0" "login_code ref_auth d desk_phone = Some \<lparr>lc_Hash = hashCode desk desk_phone ''777777'', lc_Attempts = 0\<rparr>"
    "expiry d (codeKeyFor desk_phone) = Some (5 * minute)"
    by (rule desk_asked; use assms in simp)+
  then obtain c where "entry d (codeKeyFor desk_phone) = Some (c, Some (5 * minute))"
    by (auto simp: expiry_def split: option.splits)
  moreover have "now d' = 0" using desk_verify_now [of desk_phone "''777777''" "''Anna''" d] 3(1) 2 by simp
  ultimately show ?thesis
    using pending_code_signs_in [where db = id and S = desk and ?s1.0 = d and ?s2.0 = d, OF ref_auth_reliable desk_sound refl desk_served _ _ _ desk_phone _ 2, of c "5 * minute"]
      2 3 by (auto simp: duration_defs)
qed

theorem sign_in_needs_code_witness:
  "\<exists>sent d sess stored. RequestCode desk desk_phone ''ip'' (empty_db 0) = (Inr sent, d)
     \<and> fst (VerifyCode desk desk_phone ''777777'' ''Anna'' d) = Inr sess
     \<and> login_code ref_auth d desk_phone = Some stored
     \<and> lc_Hash stored = hex (hmac_sha256 ref_platform (cac_JWTSecret desk_config) (desk_phone @ '':777777''))"
proof -
  obtain sent d where 1: "RequestCode desk desk_phone ''ip'' (empty_db 0) = (Inr sent, d)" by (rule desk_asked)
  from desk_signs_in [OF this] obtain sess d' where
    2: "VerifyCode desk desk_phone ''777777'' ''Anna'' d = (Inr sess, d')" by blast
  from sign_in_needs_code [OF desk_sound 2] 1 2 show ?thesis by auto
qed


lemma desk_GetMember: "GetMember desk_loyalty i d = (Inr desk_member, d)" "lm_Id desk_member = ''5''"
  by (simp_all add: desk_loyalty_def desk_member_def)

lemma desk_bytes: "rand_Read ref_platform n d = (Inr (replicate n CHR ''r''), d)"
  by (simp add: ref_platform_def)

lemma length_hex: "length (hex xs) = 2 * length xs"
  by (induction xs) simp_all

lemma hex_inj: "hex xs = hex ys \<Longrightarrow> length xs = length ys"
  using length_hex [of xs] length_hex [of ys] by simp

theorem refresh_single_use_witness:
  "\<exists>sess d. Refresh desk ''t'' (snd (SaveRefresh ref_auth (hashToken desk ''t'') 5 hour (empty_db 0))) = (Inr sess, d)
     \<and> (\<exists>e. fst (Refresh desk ''t'' (at_time (now d + 1) d)) = Inl e)"
proof -
  let ?h = "hashToken desk ''t''"
  obtain w d0 where 0: "SaveRefresh ref_auth ?h 5 hour (empty_db 0) = (w, d0)" by force
  have "refresh_of ref_auth d0 ?h = Some 5"
    using SaveRefresh_reliable [OF ref_auth_reliable ref_auth_inv 0] by simp
  then obtain d1 where 1: "TakeRefresh ref_auth ?h d0 = (Inr 5, d1)"
    by (auto simp: TakeRefresh_def refresh_of_live ask_def ref_redis_def)
  let ?raw = "b64 (replicate refreshTokenEntropy CHR ''r'')"
  obtain x d2 where x: "IssueAccess ref_platform desk_jwt demo_customers 5 d1 = (x, d2)" by force
  moreover obtain tok ex where "x = Inr (tok, ex)"
    using x by (auto simp: IssueAccess_def sign_def desk_jwt_def Let_def split: prod.splits)
  ultimately have 2: "IssueAccess ref_platform desk_jwt demo_customers 5 d1 = (Inr (tok, ex), d2)" by simp
  obtain w3 d3 where 3: "SaveRefresh ref_auth (hashToken desk ?raw) 5 (cac_RefreshTTL desk_config) d2 = (w3, d3)" by force
  have w3: "w3 = Inr ()"
    using SaveRefresh_reliable [OF ref_auth_reliable ref_auth_inv 3] by simp
  have long: "1 < length (b64 (replicate (n + 3) c))" for n c by (simp add: numeral_3_eq_3 Let_def)
  have "1 < length ?raw" using long [of 29 "CHR ''r''"] by (simp add: refreshTokenEntropy_def)
  then have "hashToken desk ?raw \<noteq> ?h"
    using hex_inj [of "''sha:'' @ ?raw" "''sha:t''"] by (auto simp: hashToken_def ref_platform_def)
  moreover obtain sess where 4: "Refresh desk ''t'' d0 = (Inr sess, d3)" "sess_RefreshToken sess = ?raw"
    using 1 2 3 w3 desk_member_id
    by (auto simp: Refresh_def Me_def newSession_def MemberFromProto_def desk_bytes desk_GetMember)
  moreover have "refresh_of ref_auth (id (at_time (now d3 + 1) d3)) \<subseteq>\<^sub>m refresh_of ref_auth (id d3)"
    using ages_auth [of d3 "at_time (now d3 + 1) d3" ref_auth] by simp
  ultimately show ?thesis
    using refresh_single_use [OF desk_sound refl 4(1), of "at_time (now d3 + 1) d3"] 0 by auto
qed

theorem wrong_guess_counts_witness:
  "\<exists>sent d. RequestCode desk desk_phone ''ip'' (empty_db 0) = (Inr sent, d)
     \<and> (\<exists>stored. login_code ref_auth (snd (VerifyCode desk desk_phone ''000000'' '''' d)) desk_phone = Some stored
          \<and> lc_Attempts stored = 1)"
proof -
  let ?c = "\<lparr>lc_Hash = hashCode desk desk_phone ''777777'', lc_Attempts = 0\<rparr>"
  obtain sent d where 1: "RequestCode desk desk_phone ''ip'' (empty_db 0) = (Inr sent, d)" "now d = 0"
    "login_code ref_auth d desk_phone = Some ?c" "expiry d (codeKeyFor desk_phone) = Some (5 * minute)"
    by (rule desk_asked)
  obtain r d' where 2: "VerifyCode desk desk_phone ''000000'' '''' d = (r, d')" by force
  have "now d' = 0" using desk_verify_now [of desk_phone "''000000''" "''''" d] 1(2) 2 by simp
  then have late: "now (id d') + second \<le> 5 * minute" by (simp add: duration_defs)
  have wrong: "lc_Hash ?c \<noteq> hashCode desk desk_phone ''000000''"
    by (simp add: hashCode_def ref_platform_def hex_digit_def)
  from wrong_guess_counts [where db = id and c = ?c and p = desk_phone, OF ref_auth_reliable desk_sound _ desk_phone _ _ _ wrong refl 2 late]
  show ?thesis using 1 2 by simp
qed

end
