(* ===== verification/Server.thy ===== *)
theory Server
  imports Streams Sign_In_Live
begin

text \<open>
  The HTTP server (internal/transport/http/server.go): which request reaches which handler, and
  through which middleware.  A request is what fiber hands on; matching a path against the registered
  patterns is fiber's, so that a path is given as its list of segments below the server's root.  CORS,
  panics, timeouts and the Prometheus endpoint are fiber middleware and left out (its configuration is in \<open>App\<close>); the rate limiter of
  the checkout is a parameter.  What the three streams then send is in the theory \<open>Streams\<close>.
\<close>

section \<open>Requests and answers\<close>

record request =
  rq_Method :: string
  rq_Path :: "string list"
  rq_Authorization :: string
  rq_Body :: string
  rq_Query :: "string \<Rightarrow> string"
  rq_QueryInt :: "string \<Rightarrow> i64 \<Rightarrow> i64"
  rq_Cookie :: "string \<Rightarrow> string"
  rq_IP :: string

text \<open>The parsers of the bodies (fiber's \<open>BodyParser\<close>).\<close>

record body_parsers =
  parse_Pair :: "string \<Rightarrow> PairRequest option"
  parse_Order :: "string \<Rightarrow> PlaceOrderRequest option"
  parse_Status :: "string \<Rightarrow> UpdateStatusRequest option"
  parse_Phone :: "string \<Rightarrow> string option"
  parse_Verify :: "string \<Rightarrow> VerifyCodeRequest option"
  parse_Update :: "string \<Rightarrow> (string \<times> string) option"
  parse_Code :: "string \<Rightarrow> string option"

datatype answer =
    A_Status string | A_Unready string string | A_Pair PairResponse | A_Whoami WhoamiResponse
  | A_Regions "regionJSON list" | A_Restaurants "restaurantJSON list" | A_Restaurant restaurantJSON
  | A_Order OrderView | A_Orders "OrderView list" | A_Display "DisplayOrder list" | A_OrderPage "OrderView list \<times> i64"
  | A_CodeSent CodeSent | A_Session Session | A_SignedOut bool | A_Member Member | A_Points PointsHistory
  | A_Code MemberCode | A_Program Program | A_Kiosk KioskSession | A_Stream "string \<times> audience"

text \<open>
  What goes out: a JSON answer with the cookie set (or a stream of orders, given by the restaurant and
  the audience), the raw menu, a stream of menu events of a restaurant, or no route.
\<close>

datatype response =
    Json "answer http_response" "cookie option" | Menu "string menu_response"
  | Menu_events "string menu_response" | No_route

section \<open>Routes\<close>

datatype endpoint =
    Ep_Health | Ep_Ready | Ep_Pair | Ep_Whoami | Ep_Menu string
  | Ep_Regions | Ep_Restaurants | Ep_Restaurant string | Ep_PublicOrder string | Ep_Program
  | Ep_RequestCode | Ep_VerifyCode | Ep_Refresh | Ep_Logout
  | Ep_Me | Ep_UpdateMe | Ep_Points | Ep_Code | Ep_Orders | Ep_Checkout string
  | Ep_KioskOrder | Ep_Identify | Ep_KitchenOrders | Ep_KitchenStatus string | Ep_DisplayOrders
  | Ep_MenuStream string | Ep_PublicStream string | Ep_DeviceStream

text \<open>The routes below \<open>/api/v1\<close>, and the two outside it.  fiber's \<open>Get\<close> answers HEAD as well.\<close>

fun api_route :: "string \<Rightarrow> string list \<Rightarrow> endpoint option" where
  "api_route m p =
     (if m = ''POST'' then
        (case p of
           [a, b] \<Rightarrow>
             if (a, b) = (''devices'', ''pair'') then Some Ep_Pair
             else if (a, b) = (''kiosk'', ''orders'') then Some Ep_KioskOrder
             else None
         | [a, b, c] \<Rightarrow>
             if (a, b, c) = (''customer'', ''auth'', ''code'') then Some Ep_RequestCode
             else if (a, b, c) = (''customer'', ''auth'', ''verify'') then Some Ep_VerifyCode
             else if (a, b, c) = (''customer'', ''auth'', ''refresh'') then Some Ep_Refresh
             else if (a, b, c) = (''customer'', ''auth'', ''logout'') then Some Ep_Logout
             else if (a, b, c) = (''customer'', ''me'', ''code'') then Some Ep_Code
             else if (a, b, c) = (''kiosk'', ''loyalty'', ''identify'') then Some Ep_Identify
             else None
         | [a, b, c, d] \<Rightarrow>
             if (a, b, d) = (''customer'', ''restaurants'', ''orders'') then Some (Ep_Checkout c)
             else if (a, b, d) = (''kitchen'', ''orders'', ''status'') then Some (Ep_KitchenStatus c)
             else None
         | _ \<Rightarrow> None)
      else if m = ''PATCH'' then (if p = [''customer'', ''me''] then Some Ep_UpdateMe else None)
      else if m = ''GET'' \<or> m = ''HEAD'' then
        (case p of
           [a, b] \<Rightarrow>
             if (a, b) = (''public'', ''regions'') then Some Ep_Regions
             else if (a, b) = (''public'', ''restaurants'') then Some Ep_Restaurants
             else if (a, b) = (''customer'', ''me'') then Some Ep_Me
             else if (a, b) = (''devices'', ''me'') then Some Ep_Whoami
             else if (a, b) = (''kitchen'', ''orders'') then Some Ep_KitchenOrders
             else if (a, b) = (''display'', ''orders'') then Some Ep_DisplayOrders
             else None
         | [a, b, c] \<Rightarrow>
             if (a, c) = (''restaurants'', ''menu'') then Some (Ep_Menu b)
             else if (a, b) = (''public'', ''restaurants'') then Some (Ep_Restaurant c)
             else if (a, b) = (''public'', ''orders'') then Some (Ep_PublicOrder c)
             else if (a, b, c) = (''public'', ''loyalty'', ''program'') then Some Ep_Program
             else if (a, b, c) = (''customer'', ''me'', ''points'') then Some Ep_Points
             else if (a, b, c) = (''customer'', ''me'', ''orders'') then Some Ep_Orders
             else if (a, b, c) = (''device'', ''orders'', ''stream'') then Some Ep_DeviceStream
             else None
         | [a, b, c, d] \<Rightarrow>
             if (a, c, d) = (''restaurants'', ''menu'', ''stream'') then Some (Ep_MenuStream b)
             else if (a, b, d) = (''public'', ''orders'', ''stream'') then Some (Ep_PublicStream c)
             else None
         | _ \<Rightarrow> None)
      else None)"

definition route :: "string \<Rightarrow> string list \<Rightarrow> endpoint option" where
  "route m p =
     (if m \<in> {''GET'', ''HEAD''} \<and> p = [''health''] then Some Ep_Health
      else if m \<in> {''GET'', ''HEAD''} \<and> p = [''ready''] then Some Ep_Ready
      else case p of a # b # q \<Rightarrow> if (a, b) = (''api'', ''v1'') then api_route m q else None | _ \<Rightarrow> None)"

text \<open>The middleware in front of an endpoint.\<close>

datatype guard = Open_to_all | For_members | For_devices | For_types "string list"

fun guard_of :: "endpoint \<Rightarrow> guard" where
  "guard_of Ep_Me = For_members" | "guard_of Ep_UpdateMe = For_members" | "guard_of Ep_Points = For_members"
| "guard_of Ep_Code = For_members" | "guard_of Ep_Orders = For_members" | "guard_of (Ep_Checkout _) = For_members"
| "guard_of Ep_Whoami = For_devices"
| "guard_of Ep_KioskOrder = For_types [DeviceTypeKiosk]" | "guard_of Ep_Identify = For_types [DeviceTypeKiosk]"
| "guard_of Ep_KitchenOrders = For_types [DeviceTypeKDS]" | "guard_of (Ep_KitchenStatus _) = For_types [DeviceTypeKDS]"
| "guard_of Ep_DisplayOrders = For_types [DeviceTypeOrderDisplay]"
| "guard_of Ep_DeviceStream = For_types [DeviceTypeKDS, DeviceTypeOrderDisplay]"
| "guard_of _ = Open_to_all"

section \<open>The server\<close>

record 's server =
  sv_platform :: "'s platform"
  sv_jwt :: jwt_lib
  sv_deviceTokens :: DeviceTokenManager
  sv_customerTokens :: CustomerTokenManager
  sv_revocations :: "'s revocation_api"
  sv_pairing :: "'s device_auth_service"
  sv_menus :: "'s menu_service"
  sv_crm :: "'s crm_api"
  sv_customers :: "'s customer_handler"
  sv_parsers :: body_parsers
  sv_limiter :: "string \<Rightarrow> 's \<Rightarrow> bool \<times> 's"
  sv_ready :: "('s, unit) op option"

abbreviation sv_orders :: "'s server \<Rightarrow> 's order_service" where
  "sv_orders V \<equiv> ch_orders (sv_customers V)"

definition readinessCheck :: "'s server \<Rightarrow> ('s, answer) handler" where
  "readinessCheck V s =
     (case sv_ready V of
        None \<Rightarrow> (ok (A_Status ''ready''), s)
      | Some check \<Rightarrow>
          (case check s of
             (Inl e, s1) \<Rightarrow> (Success 503 (A_Unready ''unavailable'' (error_text e)), s1)
           | (Inr _, s1) \<Rightarrow> (ok (A_Status ''ready''), s1)))"

definition healthCheck :: "('s, answer) handler" where
  "healthCheck s = (ok (A_Status ''ok''), s)"

text \<open>The endpoints a device reaches, once its claims are known.\<close>

fun device_endpoint ::
  "'s server \<Rightarrow> request \<Rightarrow> endpoint \<Rightarrow> DeviceTokenClaims \<Rightarrow> ('s, answer) handler" where
  "device_endpoint V rq Ep_Whoami c s = apfst (map_http_response A_Whoami) (Whoami (sv_platform V) (sv_crm V) (Some c) s)"
| "device_endpoint V rq Ep_KioskOrder c s =
     apfst (map_http_response A_Order) (PlaceKioskOrderHandler (sv_orders V) (Some c) (parse_Order (sv_parsers V) (rq_Body rq)) s)"
| "device_endpoint V rq Ep_Identify c s =
     apfst (map_http_response A_Kiosk) (IdentifyAtKioskHandler (sv_customers V) (Some c) (parse_Code (sv_parsers V) (rq_Body rq)) s)"
| "device_endpoint V rq Ep_KitchenOrders c s = apfst (map_http_response A_Orders) (KitchenOrders (sv_orders V) (Some c) s)"
| "device_endpoint V rq (Ep_KitchenStatus i) c s =
     apfst (map_http_response A_Order) (UpdateKitchenStatus (sv_orders V) (Some c) i (parse_Status (sv_parsers V) (rq_Body rq)) s)"
| "device_endpoint V rq Ep_DisplayOrders c s = apfst (map_http_response A_Display) (DisplayOrders (sv_orders V) (Some c) s)"
| "device_endpoint V rq Ep_DeviceStream c s = (map_http_response A_Stream (DeviceStream (sv_platform V) (Some c)), s)"
| "device_endpoint V rq _ c s = (InternalResponse, s)"

text \<open>The endpoints of a signed-in member; the checkout is rate-limited by member.\<close>

fun member_endpoint ::
  "'s server \<Rightarrow> request \<Rightarrow> endpoint \<Rightarrow> CustomerClaims \<Rightarrow> ('s, answer) handler" where
  "member_endpoint V rq Ep_Me c s = apfst (map_http_response A_Member) (MeHandler (sv_customers V) c s)"
| "member_endpoint V rq Ep_UpdateMe c s =
     apfst (map_http_response A_Member) (UpdateMeHandler (sv_customers V) c (parse_Update (sv_parsers V) (rq_Body rq)) s)"
| "member_endpoint V rq Ep_Points c s = apfst (map_http_response A_Points) (PointsHandler (sv_customers V) c (rq_QueryInt rq) s)"
| "member_endpoint V rq Ep_Code c s = apfst (map_http_response A_Code) (CodeHandler (sv_customers V) c s)"
| "member_endpoint V rq Ep_Orders c s = apfst (map_http_response A_OrderPage) (OrdersHandler (sv_customers V) c (rq_QueryInt rq) s)"
| "member_endpoint V rq (Ep_Checkout r) c s =
     (case sv_limiter V (uuid_String (sv_platform V) (cc_MemberID c)) s of
        (False, s1) \<Rightarrow> (ErrorResponse 429 ''rate_limited'' ''too many orders, please wait a minute'', s1)
      | (True, s1) \<Rightarrow>
          apfst (map_http_response A_Order) (PlaceOrderHandler (sv_customers V) c r (parse_Order (sv_parsers V) (rq_Body rq)) s1))"
| "member_endpoint V rq _ c s = (InternalResponse, s)"

text \<open>The endpoints open to all.\<close>

fun public_endpoint :: "'s server \<Rightarrow> request \<Rightarrow> endpoint \<Rightarrow> 's \<Rightarrow> response \<times> 's" where
  "public_endpoint V rq Ep_Health s = apfst (\<lambda>r. Json r None) (healthCheck s)"
| "public_endpoint V rq Ep_Ready s = apfst (\<lambda>r. Json r None) (readinessCheck V s)"
| "public_endpoint V rq Ep_Pair s =
     apfst (\<lambda>r. Json (map_http_response A_Pair r) None) (PairHandler (sv_pairing V) (parse_Pair (sv_parsers V) (rq_Body rq)) s)"
| "public_endpoint V rq (Ep_Menu r) s = apfst Menu (MenuHandlerGet (sv_menus V) r s)"
| "public_endpoint V rq (Ep_MenuStream r) s = (Menu_events (MenuStream r), s)"
| "public_endpoint V rq (Ep_PublicStream i) s =
     apfst (\<lambda>r. Json (map_http_response A_Stream r) None) (PublicStream (sv_orders V) i s)"
| "public_endpoint V rq Ep_Regions s = apfst (\<lambda>r. Json (map_http_response A_Regions r) None) (Regions (sv_crm V) s)"
| "public_endpoint V rq Ep_Restaurants s =
     apfst (\<lambda>r. Json (map_http_response A_Restaurants r) None) (Restaurants (sv_crm V) (rq_Query rq ''region_id'') s)"
| "public_endpoint V rq (Ep_Restaurant i) s = apfst (\<lambda>r. Json (map_http_response A_Restaurant r) None) (Restaurant (sv_crm V) i s)"
| "public_endpoint V rq (Ep_PublicOrder i) s = apfst (\<lambda>r. Json (map_http_response A_Order r) None) (PublicOrder (sv_orders V) i s)"
| "public_endpoint V rq Ep_Program s = apfst (\<lambda>r. Json (map_http_response A_Program r) None) (ProgramHandler (sv_customers V) s)"
| "public_endpoint V rq Ep_RequestCode s =
     apfst (\<lambda>r. Json (map_http_response A_CodeSent r) None)
       (RequestCodeHandler (sv_customers V) (parse_Phone (sv_parsers V) (rq_Body rq)) (rq_IP rq) s)"
| "public_endpoint V rq Ep_VerifyCode s =
     apfst (\<lambda>(r, ck). Json (map_http_response A_Session r) ck)
       (VerifyCodeHandler (sv_customers V) (parse_Verify (sv_parsers V) (rq_Body rq)) s)"
| "public_endpoint V rq Ep_Refresh s =
     apfst (\<lambda>(r, ck). Json (map_http_response A_Session r) ck) (RefreshHandler (sv_customers V) (rq_Cookie rq refreshCookie) s)"
| "public_endpoint V rq Ep_Logout s =
     apfst (\<lambda>(r, ck). Json (map_http_response A_SignedOut r) ck) (LogoutHandler (sv_customers V) (rq_Cookie rq refreshCookie) s)"
| "public_endpoint V rq _ s = (No_route, s)"

text \<open>
  The group of the signed-in members puts its middleware in front of every path below its prefix, so
  that a path without a route is refused there before it is not found.
\<close>

fun in_customer_group :: "string list \<Rightarrow> bool" where
  "in_customer_group (a # b # c # _) = ((a, b) = (''api'', ''v1'') \<and> has_prefix ''customer'' c)"
| "in_customer_group _ = False"

definition no_route :: "'s server \<Rightarrow> request \<Rightarrow> 's \<Rightarrow> response \<times> 's" where
  "no_route V rq s =
     (if in_customer_group (rq_Path rq) then
        apfst (\<lambda>r. case r of Success _ _ \<Rightarrow> No_route | Failure st c m \<Rightarrow> Json (Failure st c m) None)
          (CustomerAuth (sv_platform V) (sv_jwt V) (sv_customerTokens V) (rq_Authorization rq)
             (\<lambda>_ s1. (ok (), s1)) s)
      else (No_route, s))"

definition serve :: "'s server \<Rightarrow> request \<Rightarrow> 's \<Rightarrow> response \<times> 's" where
  "serve V rq s =
     (case route (rq_Method rq) (rq_Path rq) of
        None \<Rightarrow> no_route V rq s
      | Some ep \<Rightarrow>
          (case guard_of ep of
             Open_to_all \<Rightarrow> public_endpoint V rq ep s
           | For_members \<Rightarrow>
               apfst (\<lambda>r. Json r None)
                 (CustomerAuth (sv_platform V) (sv_jwt V) (sv_customerTokens V) (rq_Authorization rq)
                    (member_endpoint V rq ep) s)
           | For_devices \<Rightarrow>
               apfst (\<lambda>r. Json r None)
                 (DeviceAuth (sv_platform V) (sv_jwt V) (sv_deviceTokens V) (sv_revocations V) (rq_Authorization rq)
                    (device_endpoint V rq ep) s)
           | For_types types \<Rightarrow>
               apfst (\<lambda>r. Json r None)
                 (DeviceAuth (sv_platform V) (sv_jwt V) (sv_deviceTokens V) (sv_revocations V) (rq_Authorization rq)
                    (\<lambda>c. RequireDeviceType types (Some c) (device_endpoint V rq ep c)) s)))"

section \<open>Properties\<close>

text \<open>What went out is the answer of a handler.\<close>

abbreviation answered :: "'s server \<Rightarrow> request \<Rightarrow> 's \<Rightarrow> answer http_response \<Rightarrow> 's \<Rightarrow> bool" where
  "answered V rq s r s' \<equiv> serve V rq s = (Json r None, s')"

text \<open>A device passed the middleware with these claims, leaving that state.\<close>

definition device_admitted :: "'s server \<Rightarrow> request \<Rightarrow> 's \<Rightarrow> DeviceTokenClaims \<Rightarrow> 's \<Rightarrow> bool" where
  "device_admitted V rq s c s3 =
     (\<exists>raw s1 s2. extractBearer (rq_Authorization rq) = Inr raw
        \<and> Verify (sv_platform V) (sv_jwt V) (sv_deviceTokens V) raw s = (Inr c, s1)
        \<and> ra_IsDeviceRevoked (sv_revocations V) (dc_DeviceID c) s1 = (Inr False, s2)
        \<and> ra_IsTokenRevoked (sv_revocations V) (dc_TokenID c) s2 = (Inr False, s3))"

definition member_admitted :: "'s server \<Rightarrow> request \<Rightarrow> 's \<Rightarrow> CustomerClaims \<Rightarrow> 's \<Rightarrow> bool" where
  "member_admitted V rq s c s1 =
     (\<exists>raw. extractBearer (rq_Authorization rq) = Inr raw
        \<and> VerifyAccess (sv_platform V) (sv_jwt V) (sv_customerTokens V) raw s = (Inr c, s1))"

definition refused :: "'a http_response \<Rightarrow> bool" where
  "refused r = (case r of Success _ _ \<Rightarrow> False | Failure status _ _ \<Rightarrow> status \<in> {401, 403, 503})"

lemma refused_Failure [simp]: "refused (Failure status code msg) = (status \<in> {401, 403, 503})"
  by (simp add: refused_def)

lemma not_refused_Success [simp]: "\<not> refused (Success code a)"
  by (simp add: refused_def)

lemma DeviceAuth_outcomes:
  assumes "DeviceAuth (sv_platform V) (sv_jwt V) (sv_deviceTokens V) (sv_revocations V) (rq_Authorization rq) inner s
    = (r, s')"
  shows "(\<exists>c s3. device_admitted V rq s c s3 \<and> inner c s3 = (r, s'))
    \<or> refused r"
proof -
  from DeviceAuth_cases [of "rq_Authorization rq" "sv_platform V" "sv_jwt V" "sv_deviceTokens V" s
      "sv_revocations V" inner]
  consider raw c s1 s2 s3 where "extractBearer (rq_Authorization rq) = Inr raw"
      "Verify (sv_platform V) (sv_jwt V) (sv_deviceTokens V) raw s = (Inr c, s1)"
      "ra_IsDeviceRevoked (sv_revocations V) (dc_DeviceID c) s1 = (Inr False, s2)"
      "ra_IsTokenRevoked (sv_revocations V) (dc_TokenID c) s2 = (Inr False, s3)" "inner c s3 = (r, s')"
    | code msg where "r = Failure 401 code msg"
    | "r = Failure 503 ''auth_unavailable'' ''authorization unavailable''"
    using assms by (elim disjE conjE exE) simp_all
  then show ?thesis
  proof cases
    case 1
    then have "device_admitted V rq s c s3" unfolding device_admitted_def by (intro exI conjI)
    with 1(5) show ?thesis by blast
  qed simp_all
qed

lemma CustomerAuth_outcomes:
  assumes "CustomerAuth (sv_platform V) (sv_jwt V) (sv_customerTokens V) (rq_Authorization rq) inner s = (r, s')"
  shows "(\<exists>c s1. member_admitted V rq s c s1 \<and> inner c s1 = (r, s'))
    \<or> refused r"
  using assms
  by (auto simp: CustomerAuth_def member_admitted_def unauthorized_def unauthorizedCode_def
      split: sum.splits prod.splits if_splits)

lemma RequireDeviceType_outcomes:
  assumes "RequireDeviceType types (Some c) inner s = (r, s')"
  shows "dc_DeviceType c \<in> set types \<and> inner s = (r, s')
    \<or> refused r"
  using assms by (auto simp: RequireDeviceType_def split: if_splits)

lemma serve_types:
  assumes "route (rq_Method rq) (rq_Path rq) = Some ep" "guard_of ep = For_types types" "serve V rq s = (Json r ck, s')"
  shows "ck = None \<and>
    ((\<exists>c s3. device_admitted V rq s c s3 \<and> dc_DeviceType c \<in> set types \<and> device_endpoint V rq ep c s3 = (r, s'))
     \<or> refused r)"
proof -
  obtain q where q: "DeviceAuth (sv_platform V) (sv_jwt V) (sv_deviceTokens V) (sv_revocations V) (rq_Authorization rq)
      (\<lambda>c. RequireDeviceType types (Some c) (device_endpoint V rq ep c)) s = (q, s')"
    "Json q None = Json r ck"
    using assms by (auto simp: serve_def apfst_def map_prod_def split: prod.splits)
  from DeviceAuth_outcomes [OF q(1)] show ?thesis
  proof
    assume "\<exists>c s3. device_admitted V rq s c s3
      \<and> RequireDeviceType types (Some c) (device_endpoint V rq ep c) s3 = (q, s')"
    then obtain c s3 where c: "device_admitted V rq s c s3"
      "RequireDeviceType types (Some c) (device_endpoint V rq ep c) s3 = (q, s')" by blast
    from RequireDeviceType_outcomes [OF c(2)] c(1) q(2) show ?thesis by auto
  next
    assume "refused q"
    with q(2) show ?thesis by simp
  qed
qed


text \<open>
  C9. The kitchen, from request to upstream call.  If the server answers a status change with
  success, the request carried a valid token of a kitchen screen that is not revoked, the status is
  one of the four kitchen statuses, kfc-order reported the order at the restaurant on that token, and
  the answer shows the order as kfc-order updated it in the name of that screen.
\<close>

theorem kitchen_change:
  assumes ep: "route (rq_Method rq) (rq_Path rq) = Some (Ep_KitchenStatus i)"
    and run: "serve V rq s = (Json (Success code a) ck, s')"
  shows "\<exists>c s3 req s4 current updated. device_admitted V rq s c s3 \<and> dc_DeviceType c = DeviceTypeKDS
    \<and> parse_Status (sv_parsers V) (rq_Body rq) = Some req \<and> us_Status req \<in> set kitchenStatuses
    \<and> us_Status req \<noteq> OrderStatusCancelled
    \<and> GetOrder (os_orders (sv_orders V)) i s3 = (Inr current, s4)
    \<and> o_RestaurantId current = os_uuid_String (sv_orders V) (dc_RestaurantID c)
    \<and> fst (UpdateOrderStatus (os_orders (sv_orders V))
         \<lparr>uo_Id = i, uo_Status = us_Status req, uo_Reason = '''',
          uo_Actor = ''device:'' @ os_uuid_String (sv_orders V) (dc_DeviceID c)\<rparr> s4) = Inr updated
    \<and> code = 200 \<and> a = A_Order (OrderViewFromProto updated)"
proof -
  from serve_types [OF ep _ run] obtain c s3 where c: "device_admitted V rq s c s3" "dc_DeviceType c = DeviceTypeKDS"
    "device_endpoint V rq (Ep_KitchenStatus i) c s3 = (Success code a, s')" by auto
  from c(3) obtain req v where v: "parse_Status (sv_parsers V) (rq_Body rq) = Some req"
    "fst (UpdateFromKitchen (sv_orders V) c i (us_Status req) s3) = Inr v" "code = 200" "a = A_Order v"
    by (auto simp: UpdateKitchenStatus_def go_simps FromError_def BadRequest_def ErrorResponse_def ok_def
        apfst_def map_prod_def InternalResponse_def
        split: option.splits sum.splits prod.splits if_splits go_error.splits error_type.splits)
  from kitchen_update [where S = "sv_orders V" and device = c and i = i and st = "us_Status req" and s = s3] v(2)
  obtain current s4 updated where u: "us_Status req \<in> set kitchenStatuses" "us_Status req \<noteq> OrderStatusCancelled"
    "GetOrder (os_orders (sv_orders V)) i s3 = (Inr current, s4)"
    "o_RestaurantId current = os_uuid_String (sv_orders V) (dc_RestaurantID c)"
    "fst (UpdateOrderStatus (os_orders (sv_orders V))
       \<lparr>uo_Id = i, uo_Status = us_Status req, uo_Reason = '''',
        uo_Actor = ''device:'' @ os_uuid_String (sv_orders V) (dc_DeviceID c)\<rparr> s4) = Inr updated"
    "v = OrderViewFromProto updated"
    by (simp add: kitchenStatuses_def go_simps) blast
  show ?thesis using c(1,2) v(1,3,4) u by blast
qed

section \<open>A server to run it on\<close>

definition screen_claims :: DeviceTokenClaims where
  "screen_claims = demo_claims\<lparr>dc_DeviceType := DeviceTypeKDS\<rparr>"

definition screen_jwt :: jwt_lib where
  "screen_jwt = ref_jwt (device_claims_map ref_platform demo_devices screen_claims)"

definition hall_orders :: "redis_db orders_api" where
  "hall_orders = desk_orders
     \<lparr>GetOrder := (\<lambda>_ d. (Inr demo_order, d)),
      UpdateOrderStatus := (\<lambda>q d. (Inr (demo_order\<lparr>o_Status := uo_Status q\<rparr>), d))\<rparr>"

definition hall_service :: "redis_db order_service" where
  "hall_service =
     \<lparr>os_orders = hall_orders, os_crm = ref_crm, os_GetMenu = (\<lambda>_ d. (Inr short_menu, d)),
      os_loyalty = desk_loyalty, os_VerifyKioskSession = (\<lambda>_ d. (Inl (Text ''invalid''), d)),
      os_uuid_String = uuid_String ref_platform, os_uuid_NewString = uuid_NewString ref_platform\<rparr>"

definition hall_parsers :: body_parsers where
  "hall_parsers =
     \<lparr>parse_Pair = (\<lambda>_. None), parse_Order = (\<lambda>_. None),
      parse_Status = (\<lambda>b. Some \<lparr>us_Status = b\<rparr>), parse_Phone = Some, parse_Verify = (\<lambda>_. None),
      parse_Update = (\<lambda>_. None), parse_Code = Some\<rparr>"

definition hall :: "redis_db server" where
  "hall =
     \<lparr>sv_platform = ref_platform, sv_jwt = screen_jwt, sv_deviceTokens = demo_devices,
      sv_customerTokens = demo_customers, sv_revocations = NewRevocationRepository ref_revocation,
      sv_pairing = ref_device_auth, sv_menus = ref_menus, sv_crm = ref_crm,
      sv_customers = \<lparr>ch_customers = desk, ch_orders = hall_service, ch_cfg = desk_config, ch_Now = ref_clock\<rparr>,
      sv_parsers = hall_parsers, sv_limiter = (\<lambda>_ d. (True, d)), sv_ready = None\<rparr>"

definition screen_request :: request where
  "screen_request =
     \<lparr>rq_Method = ''POST'', rq_Path = [''api'', ''v1'', ''kitchen'', ''orders'', ''o1'', ''status''],
      rq_Authorization = ''Bearer token'', rq_Body = ''preparing'', rq_Query = (\<lambda>_. ''''),
      rq_QueryInt = (\<lambda>_ n. n), rq_Cookie = (\<lambda>_. ''''), rq_IP = ''10.0.0.1''\<rparr>"

lemma screen_route [simp]:
  "route (rq_Method screen_request) (rq_Path screen_request) = Some (Ep_KitchenStatus ''o1'')"
  by (simp add: screen_request_def route_def)

lemma screen_Issue:
  "Issue ref_platform screen_jwt demo_devices 3 DeviceTypeKDS ''K-1'' 7 (empty_db 0)
     = (Inr (screen_claims, ''token''), empty_db 0)"
  by (simp add: Issue_def ref_platform_def ref_clock_def empty_db_def screen_jwt_def ref_jwt_def
        demo_devices_def screen_claims_def demo_claims_def)

lemma screen_Verify:
  "\<exists>c. Verify ref_platform screen_jwt demo_devices ''token'' (empty_db 0) = (Inr c, empty_db 0)
     \<and> dc_DeviceType c = DeviceTypeKDS \<and> dc_RestaurantID c = 7"
proof -
  obtain x d where v: "Verify ref_platform screen_jwt demo_devices ''token'' (empty_db 0) = (x, d)"
    by (cases "Verify ref_platform screen_jwt demo_devices ''token'' (empty_db 0)")
  then have d: "d = empty_db 0"
    by (auto simp: Verify_def Let_def ref_platform_def ref_clock_def
          split: sum.splits prod.splits option.splits)
  have "jwt_ok screen_jwt" "plain (dm_issuer demo_devices)" "plain DeviceTypeKDS" "plain ''K-1''"
    by (simp_all add: screen_jwt_def ref_jwt_ok demo_devices_def plain_def DeviceTypeKDS_def)
  from device_token_roundtrip_aux [OF ref_platform_ok this(1) screen_Issue this(2-) _ v] v
  show ?thesis by (auto simp: d empty_db_def screen_claims_def demo_claims_def unix_def second_def)
qed

lemma screen_admitted:
  "\<exists>c. DeviceAuth ref_platform screen_jwt demo_devices (NewRevocationRepository ref_revocation)
       ''Bearer token'' inner (empty_db 0) = inner c (empty_db 0)
     \<and> dc_DeviceType c = DeviceTypeKDS \<and> dc_RestaurantID c = 7"
proof -
  have "extractBearer ''Bearer token'' = Inr ''token''"
    by (simp add: extractBearer_def has_prefix_def trim_prefix_def)
  moreover have "IsDeviceRevoked ref_revocation i (empty_db 0) = (Inr False, empty_db 0)"
    "IsTokenRevoked ref_revocation t (empty_db 0) = (Inr False, empty_db 0)" for i t
    by (simp_all add: IsDeviceRevoked_def IsTokenRevoked_def ask_def ref_revocation_def ref_redis_def
          live_def empty_db_def entry_def)
  ultimately show ?thesis using screen_Verify by (auto simp: DeviceAuth_def)
qed

text \<open>The cook starts on the order.\<close>

lemma screen_serves:
  "serve hall screen_request (empty_db 0)
     = (Json (Success 200 (A_Order (OrderViewFromProto (demo_order\<lparr>o_Status := ''preparing''\<rparr>)))) None, empty_db 0)"
proof -
  have guard: "guard_of (Ep_KitchenStatus ''o1'') = For_types [DeviceTypeKDS]" by simp
  obtain c where c: "dc_DeviceType c = DeviceTypeKDS" "dc_RestaurantID c = 7"
    "DeviceAuth ref_platform screen_jwt demo_devices (NewRevocationRepository ref_revocation) ''Bearer token''
       (\<lambda>c. RequireDeviceType [DeviceTypeKDS] (Some c) (device_endpoint hall screen_request (Ep_KitchenStatus ''o1'') c))
       (empty_db 0)
     = RequireDeviceType [DeviceTypeKDS] (Some c) (device_endpoint hall screen_request (Ep_KitchenStatus ''o1'') c)
       (empty_db 0)"
    using screen_admitted by blast
  have "uuid_String ref_platform 7 = ''7''" by (simp add: ref_platform_def) code_simp
  with c(1,2) have "RequireDeviceType [DeviceTypeKDS] (Some c)
      (device_endpoint hall screen_request (Ep_KitchenStatus ''o1'') c) (empty_db 0)
    = (Success 200 (A_Order (OrderViewFromProto (demo_order\<lparr>o_Status := ''preparing''\<rparr>))), empty_db 0)"
    by (simp add: RequireDeviceType_def UpdateKitchenStatus_def UpdateFromKitchen_def hall_def hall_service_def
          hall_orders_def hall_parsers_def kitchenStatuses_def demo_order_def go_simps screen_request_def)
  with c(3) show ?thesis
    by (simp add: serve_def guard) (simp add: hall_def screen_request_def)
qed

theorem kitchen_change_witness:
  "\<exists>a c s3. serve hall screen_request (empty_db 0) = (Json (Success 200 (A_Order a)) None, empty_db 0)
     \<and> device_admitted hall screen_request (empty_db 0) c s3 \<and> dc_DeviceType c = DeviceTypeKDS"
  using kitchen_change [OF screen_route screen_serves] screen_serves by blast


end
