(* ===== verification/Grpc_Server.thy ===== *)
theory Grpc_Server
  imports Middleware
begin

text \<open>
  The gRPC server that kfc-crm manages devices through (internal/transport/grpc): its four calls, and
  the interceptor that turns a panic into an error.  A call answers a status, that is a code and a
  message, or a response.  \<open>mapError\<close> is in the theory \<open>Errors\<close>; the metrics interceptor is in
  \<open>Metrics\<close>, starting and stopping the server in \<open>App\<close>.
\<close>

section \<open>Messages\<close>

record PairingCode =
  pc_SerialNumber :: string
  pc_DeviceId :: string
  pc_Code :: string
  pc_DeviceType :: string

record CachePairingCodesRequest =
  cpcs_RestaurantId :: string
  cpcs_ExpiresAt :: i64
  cpcs_Codes :: "PairingCode list"

record CachePairingCodeRequest =
  cpc_RestaurantId :: string
  cpc_SerialNumber :: string
  cpc_DeviceId :: string
  cpc_Code :: string
  cpc_ExpiresAt :: i64
  cpc_DeviceType :: string

record RevokeDeviceRequest =
  rvd_DeviceId :: string
  rvd_TtlSeconds :: i64

text \<open>The responses all say that it succeeded and carry a message; one has a count.\<close>

record rpc_response =
  rr_Success :: bool
  rr_Message :: string

record CachePairingCodesResponse = rpc_response +
  rr_Cached :: i32

section \<open>The calls\<close>

type_synonym status = "grpc_code \<times> string"
type_synonym ('s, 'a) grpc_call = "'s \<Rightarrow> (status + 'a) \<times> 's"

record 's device_pairing_server =
  dps_pairing :: "'s pairing_service"
  dps_auth :: "'s device_auth_service"
  dps_platform :: "'s platform"

definition unix_time :: "i64 \<Rightarrow> int" where
  "unix_time t = sint t * second"

fun code_entries :: "'s platform \<Rightarrow> PairingCode list \<Rightarrow> status + CodeEntry list" where
  "code_entries P [] = Inr []"
| "code_entries P (c # cs) =
     (case uuid_Parse P (pc_DeviceId c) of
        Inl _ \<Rightarrow> Inl (InvalidArgument, ''invalid device_id for serial '' @ pc_SerialNumber c)
      | Inr deviceID \<Rightarrow>
          (case code_entries P cs of
             Inl st \<Rightarrow> Inl st
           | Inr es \<Rightarrow>
               Inr (\<lparr>ce_SerialNumber = pc_SerialNumber c, ce_DeviceID = deviceID,
                     ce_DeviceType = pc_DeviceType c, ce_Code = pc_Code c\<rparr> # es)))"

definition CachePairingCodes ::
  "'s device_pairing_server \<Rightarrow> CachePairingCodesRequest \<Rightarrow> ('s, CachePairingCodesResponse) grpc_call" where
  "CachePairingCodes S req s =
     (case uuid_Parse (dps_platform S) (cpcs_RestaurantId req) of
        Inl _ \<Rightarrow> (Inl (InvalidArgument, ''invalid restaurant_id''), s)
      | Inr restaurantID \<Rightarrow>
          (case code_entries (dps_platform S) (cpcs_Codes req) of
             Inl st \<Rightarrow> (Inl st, s)
           | Inr entries \<Rightarrow>
               (case CacheCodes (dps_pairing S)
                   \<lparr>ccs_RestaurantID = restaurantID, ccs_ExpiresAt = unix_time (cpcs_ExpiresAt req),
                    ccs_Codes = entries\<rparr> s of
                  (Inl e, s1) \<Rightarrow> (Inl (mapError e), s1)
                | (Inr cached, s1) \<Rightarrow>
                    (Inr \<lparr>rr_Success = True, rr_Message = ''codes cached'', rr_Cached = of_nat cached\<rparr>, s1))))"

definition CachePairingCode ::
  "'s device_pairing_server \<Rightarrow> CachePairingCodeRequest \<Rightarrow> ('s, rpc_response) grpc_call" where
  "CachePairingCode S req s =
     (case uuid_Parse (dps_platform S) (cpc_RestaurantId req) of
        Inl _ \<Rightarrow> (Inl (InvalidArgument, ''invalid restaurant_id''), s)
      | Inr restaurantID \<Rightarrow>
          (case uuid_Parse (dps_platform S) (cpc_DeviceId req) of
             Inl _ \<Rightarrow> (Inl (InvalidArgument, ''invalid device_id''), s)
           | Inr deviceID \<Rightarrow>
               (case CacheCode (dps_pairing S)
                   \<lparr>ccr_RestaurantID = restaurantID, ccr_SerialNumber = cpc_SerialNumber req,
                    ccr_DeviceID = deviceID, ccr_DeviceType = cpc_DeviceType req, ccr_Code = cpc_Code req,
                    ccr_ExpiresAt = unix_time (cpc_ExpiresAt req)\<rparr> s of
                  (Inl e, s1) \<Rightarrow> (Inl (mapError e), s1)
                | (Inr _, s1) \<Rightarrow> (Inr \<lparr>rr_Success = True, rr_Message = ''code cached''\<rparr>, s1))))"

definition RevokePairingCode :: "'s device_pairing_server \<Rightarrow> string \<Rightarrow> ('s, rpc_response) grpc_call" where
  "RevokePairingCode S serial s =
     (case RevokeCode (dps_pairing S) serial s of
        (Inl e, s1) \<Rightarrow> (Inl (mapError e), s1)
      | (Inr _, s1) \<Rightarrow> (Inr \<lparr>rr_Success = True, rr_Message = ''pairing code revoked''\<rparr>, s1))"

text \<open>\<open>RevokeDevice\<close>: the time to live of the request is ignored.\<close>

definition RevokeDeviceCall :: "'s device_pairing_server \<Rightarrow> RevokeDeviceRequest \<Rightarrow> ('s, rpc_response) grpc_call" where
  "RevokeDeviceCall S req s =
     (case uuid_Parse (dps_platform S) (rvd_DeviceId req) of
        Inl _ \<Rightarrow> (Inl (InvalidArgument, ''invalid device_id''), s)
      | Inr deviceID \<Rightarrow>
          (case Revoke (dps_auth S) deviceID s of
             (Inl e, s1) \<Rightarrow> (Inl (mapError e), s1)
           | (Inr _, s1) \<Rightarrow> (Inr \<lparr>rr_Success = True, rr_Message = ''device revoked''\<rparr>, s1)))"

section \<open>interceptors.go\<close>

text \<open>A handler that panics (nothing) has left the state as it was then.\<close>

definition recoverInterceptor :: "('s \<Rightarrow> (status + 'a) option \<times> 's) \<Rightarrow> ('s, 'a) grpc_call" where
  "recoverInterceptor h s =
     (case h s of (None, s1) \<Rightarrow> (Inl (Internal, ''internal error''), s1) | (Some r, s1) \<Rightarrow> (r, s1))"

section \<open>Properties\<close>

definition pairing_server ::
  "'s pairing_repo \<Rightarrow> 's revocation_repo \<Rightarrow> DeviceTokenManager \<Rightarrow> 's platform \<Rightarrow> jwt_lib \<Rightarrow> 's device_pairing_server" where
  "pairing_server R V m P L =
     \<lparr>dps_pairing = \<lparr>ps_repo = NewPairingRepository R, ps_platform = P\<rparr>,
      dps_auth = NewDeviceAuthService R V m P L, dps_platform = P\<rparr>"


text \<open>
  C18. From the CRM to the door.  After a call of \<open>RevokeDevice\<close> succeeds, a token issued to the
  device before is never admitted by the HTTP middleware again, as long as the revocation is not
  overwritten: while the mark lasts it is refused as revoked, and when the mark expires the token has
  expired.  (For a token lifetime in whole milliseconds, ASCII strings in the token, and a lookup that,
  when the token still verified, is answered within the token lifetime from the revocation.)
\<close>

theorem rpc_revocation_holds:
  assumes V: "rev_inv V db s1" and P: "platform_ok P db" and L: "jwt_ok L"
    and ttl: "0 < dm_ttl m" "millisecond dvd dm_ttl m" and plain: "plain (dm_issuer m)" "plain ty" "plain se"
    and issue: "Issue P L m d ty se r s = (Inr (claims, raw), s0)" and before: "now (db s0) \<le> now (db s1)"
    and call: "RevokeDeviceCall (pairing_server R V m P L) req s1 = (Inr resp, s2)"
    and device: "uuid_Parse P (rvd_DeviceId req) = Inr d"
    and kept: "now (db s2) \<le> now (db s3)" "device_mark V db s3 d = device_mark V db s2 d"
    and auth: "extractBearer auth = Inr raw"
    and prompt: "\<And>c u1 a u2. Verify P L m raw s3 = (Inr c, u1) \<Longrightarrow> IsDeviceRevoked V d u1 = (a, u2) \<Longrightarrow>
      now (db u2) < now (db s1) + dm_ttl m"
  shows "\<exists>status code msg. fst (DeviceAuth P L m (NewRevocationRepository V) auth inner s3) = Failure status code msg
    \<and> (status = 401 \<or> status = 503)"
proof -
  have "Revoke (NewDeviceAuthService R V m P L) d s1 = (Inr (), s2)"
    using call device by (auto simp: RevokeDeviceCall_def pairing_server_def split: sum.splits prod.splits)
  from revoked_device_stays_out [OF V P L ttl plain issue before this kept auth prompt] show ?thesis .
qed

section \<open>The properties on the concrete client\<close>

abbreviation ref_server :: "redis_db device_pairing_server" where
  "ref_server \<equiv> pairing_server ref_pairing ref_revocation demo_devices ref_platform demo_jwt"

definition demo_call :: CachePairingCodeRequest where
  "demo_call =
     \<lparr>cpc_RestaurantId = uuid_String ref_platform 7, cpc_SerialNumber = ''K-1'', cpc_DeviceId = uuid_String ref_platform 3,
      cpc_Code = ''1234'', cpc_ExpiresAt = 600, cpc_DeviceType = ''kiosk''\<rparr>"

lemma ref_uuid: "uuid_Parse ref_platform (digits 3) = Inr 3" "uuid_Parse ref_platform (digits 7) = Inr 7"
  using platform_okD(4) [OF ref_platform_ok, of 3] platform_okD(4) [OF ref_platform_ok, of 7] by simp_all


theorem rpc_revocation_holds_witness:
  "\<exists>resp d1 status code msg. RevokeDeviceCall ref_server
         \<lparr>rvd_DeviceId = uuid_String ref_platform 3, rvd_TtlSeconds = 0\<rparr> (empty_db 0) = (Inr resp, d1)
     \<and> fst (DeviceAuth ref_platform demo_jwt demo_devices (NewRevocationRepository ref_revocation)
              ''Bearer token'' (\<lambda>c d. (ok c, d)) d1) = Failure status code msg"
proof -
  obtain d1 where d1: "Revoke ref_device_auth 3 (empty_db 0) = (Inr (), d1)" "now d1 = 0"
    using ref_revoke_run by blast
  then have call: "RevokeDeviceCall ref_server \<lparr>rvd_DeviceId = uuid_String ref_platform 3, rvd_TtlSeconds = 0\<rparr> (empty_db 0)
      = (Inr \<lparr>rr_Success = True, rr_Message = ''device revoked''\<rparr>, d1)"
    by (simp add: RevokeDeviceCall_def pairing_server_def ref_uuid)
  have V: "rev_inv ref_revocation id (empty_db 0)"
    by (simp add: rev_inv_def ref_revocation_def ref_redis_ok ref_platform_ok)
  have ttl: "0 < dm_ttl demo_devices" "millisecond dvd dm_ttl demo_devices"
    by (simp_all add: demo_devices_def duration_defs)
  have plain: "plain (dm_issuer demo_devices)" "plain ''kiosk''" "plain ''K-1''"
    by (simp_all add: demo_devices_def plain_def)
  have auth: "extractBearer ''Bearer token'' = Inr ''token''"
    by (simp add: extractBearer_def has_prefix_def trim_prefix_def)
  have now: "now (id (empty_db 0)) \<le> now (id (empty_db 0))" "now (id d1) \<le> now (id d1)"
    "now (id (empty_db 0)) \<le> now (id d1)" using d1(2) by (simp_all add: empty_db_def)
  have prompt: "now (id d2) < now (id (empty_db 0)) + dm_ttl demo_devices"
    if "Verify ref_platform demo_jwt demo_devices ''token'' d1 = (Inr c, u1)"
      "IsDeviceRevoked ref_revocation 3 u1 = (a, d2)" for c u1 a d2
    using ref_Verify_now [OF that(1)] ref_IsDeviceRevoked_now [OF that(2)] d1(2)
    by (simp add: empty_db_def demo_devices_def second_def)
  have "\<exists>status code msg. fst (DeviceAuth ref_platform demo_jwt demo_devices
      (NewRevocationRepository ref_revocation) ''Bearer token'' (\<lambda>c d. (ok c, d)) d1) = Failure status code msg
    \<and> (status = 401 \<or> status = 503)"
    by (rule rpc_revocation_holds [OF V ref_platform_ok demo_jwt_ok ttl plain demo_issue now(1) call _ now(2) refl auth])
       (use prompt in \<open>simp_all add: ref_uuid\<close>)
  with call show ?thesis by blast
qed

end
