(* ===== verification/Env.thy ===== *)
theory Env
  imports Redis Utf8 Money
begin

text \<open>
  Reading the environment (internal/config/helper.go): a variable is trimmed, an empty one counts as
  not set and takes the fallback, and one that cannot be read as a boolean, a number or a duration
  panics.  What the code sees of the environment (\<open>os.Getenv\<close>) is a function from names to values,
  empty for a variable that is not set.
  What the code uses of strconv, fmt and time to read numbers is written out.
\<close>

section \<open>Numbers: strconv.Atoi and fmt.Sscanf with %d\<close>

text \<open>A sign and at least one digit, within the range of an \<open>int\<close>.\<close>

definition atoi :: "string \<Rightarrow> i64 option" where
  "atoi s =
     (let ds = (case s of c # t \<Rightarrow> if c = CHR ''-'' \<or> c = CHR ''+'' then t else s | [] \<Rightarrow> []);
          neg = (s \<noteq> [] \<and> hd s = CHR ''-'')
      in if ds = [] then None
         else case undigits 0 ds of
                None \<Rightarrow> None
              | Some n \<Rightarrow>
                  if neg then (if n \<le> 2 ^ 63 then Some (- of_nat n) else None)
                  else if n < 2 ^ 63 then Some (of_nat n) else None)"

text \<open>\<open>%d\<close> skips white space, but no newline, reads as many digits as there are, and ignores the rest.\<close>

function (sequential) skip_space :: "string \<Rightarrow> string option" where
  "skip_space [] = Some []"
| "skip_space s =
     (if fst (decode_rune s) = 10 then None
      else if is_space (fst (decode_rune s)) then skip_space (drop (snd (decode_rune s)) s) else Some s)"
  by pat_completeness auto
termination
proof (relation "measure length")
  fix c :: char and s
  show "(drop (snd (decode_rune (c # s))) (c # s), c # s) \<in> measure length"
    using decode_rune_width_pos [of "c # s"] by simp
qed simp

definition scan_int :: "string \<Rightarrow> i64 option" where
  "scan_int s =
     (case skip_space s of
        None \<Rightarrow> None
      | Some t \<Rightarrow>
          let sign = (case t of c # _ \<Rightarrow> if c = CHR ''-'' \<or> c = CHR ''+'' then [c] else [] | [] \<Rightarrow> [])
          in atoi (sign @ takeWhile is_digit (drop (length sign) t)))"

section \<open>Durations: time.ParseDuration\<close>

text \<open>
  The integer and the fraction in front of a unit.  A fraction too long for an \<open>int64\<close> is cut off
  where it would overflow; its scale, a power of ten up to \<open>10\<^sup>19\<close>, is exact in a \<open>float64\<close>.
\<close>

fun leadingInt :: "nat \<Rightarrow> string \<Rightarrow> (nat \<times> string) option" where
  "leadingInt x [] = Some (x, [])"
| "leadingInt x (c # s) =
     (if is_digit c then
        if 2 ^ 63 div 10 < x then None
        else let y = x * 10 + (of_char c - 48) in if 2 ^ 63 < y then None else leadingInt y s
      else Some (x, c # s))"

fun leadingFraction :: "nat \<Rightarrow> nat \<Rightarrow> bool \<Rightarrow> string \<Rightarrow> nat \<times> nat \<times> string" where
  "leadingFraction x scale over [] = (x, scale, [])"
| "leadingFraction x scale over (c # s) =
     (if is_digit c then
        if over \<or> (2 ^ 63 - 1) div 10 < x then leadingFraction x scale True s
        else let y = x * 10 + (of_char c - 48)
             in if 2 ^ 63 < y then leadingFraction x scale True s
                else leadingFraction y (scale * 10) False s
      else (x, scale, c # s))"

text \<open>The units in nanoseconds; micro is written with either of two Unicode characters or a \<open>u\<close>.\<close>

definition unitMap :: "(string \<times> nat) list" where
  "unitMap =
     [(''ns'', 1), (''us'', 1000), ([CHR 0xC2, CHR 0xB5, CHR ''s''], 1000), ([CHR 0xCE, CHR 0xBC, CHR ''s''], 1000),
      (''ms'', 1000000), (''s'', 1000000000), (''m'', 60000000000), (''h'', 3600000000000)]"

definition fraction :: "nat \<Rightarrow> nat \<Rightarrow> nat \<Rightarrow> nat" where
  "fraction f u scale =
     (case fl (of_nat f) of
        Fin a \<Rightarrow> (case fl (of_nat u / of_nat scale) of
                  Fin b \<Rightarrow> (case fl (a * b) of Fin c \<Rightarrow> nat \<lfloor>c\<rfloor> | _ \<Rightarrow> 0)
                | _ \<Rightarrow> 0)
      | _ \<Rightarrow> 0)"

text \<open>One number with its unit: its nanoseconds, and what is left.\<close>

definition duration_part :: "string \<Rightarrow> (nat \<times> string) option" where
  "duration_part s =
     (if s = [] \<or> \<not> (hd s = CHR ''.'' \<or> is_digit (hd s)) then None
      else case leadingInt 0 s of
        None \<Rightarrow> None
      | Some (v, s1) \<Rightarrow>
          let pre = length s \<noteq> length s1;
              point = (s1 \<noteq> [] \<and> hd s1 = CHR ''.'');
              (f, scale, s2) = (if point then leadingFraction 0 1 False (tl s1) else (0, 1, s1));
              post = (point \<and> length (tl s1) \<noteq> length s2);
              u = takeWhile (\<lambda>c. c \<noteq> CHR ''.'' \<and> \<not> is_digit c) s2
          in if \<not> pre \<and> \<not> post then None
             else if u = [] then None
             else case map_of unitMap u of
                    None \<Rightarrow> None
                  | Some n \<Rightarrow>
                      if 2 ^ 63 div n < v then None
                      else let w = v * n + (if 0 < f then fraction f n scale else 0)
                           in if 0 < f \<and> 2 ^ 63 < w then None else Some (w, drop (length u) s2))"

lemma leadingInt_length: "leadingInt x s = Some (v, t) \<Longrightarrow> length t \<le> length s"
  by (induction s arbitrary: x) (auto simp: Let_def split: if_splits intro: le_SucI)

lemma leadingFraction_length: "leadingFraction x sc b s = (f, sc', t) \<Longrightarrow> length t \<le> length s"
  by (induction s arbitrary: x sc b) (auto simp: Let_def split: if_splits intro: le_SucI)

lemma drop_shorter: "takeWhile P s \<noteq> [] \<Longrightarrow> length (drop (length (takeWhile P s)) s) < length s"
  by (cases s) auto

lemma duration_part_shorter:
  assumes "duration_part s = Some (v, t)"
  shows "length t < length s"
proof -
  from assms obtain n s1 where i: "leadingInt 0 s = Some (n, s1)"
    by (auto simp: duration_part_def split: if_splits option.splits prod.splits)
  obtain f scale s2 where f: "(if s1 \<noteq> [] \<and> hd s1 = CHR ''.'' then leadingFraction 0 1 False (tl s1) else (0, 1, s1))
      = (f, scale, s2)" by (metis prod_cases3)
  let ?u = "takeWhile (\<lambda>c. c \<noteq> CHR ''.'' \<and> \<not> is_digit c) s2"
  have "?u \<noteq> [] \<and> t = drop (length ?u) s2"
    using assms i by (auto simp: duration_part_def Let_def f split: if_splits option.splits)
  then have "length t < length s2" using drop_shorter [of _ s2] by metis
  moreover have "length s2 \<le> length s1"
    using f leadingFraction_length [of 0 1 False "tl s1" f scale s2] by (auto split: if_splits)
  ultimately show ?thesis using leadingInt_length [OF i] by simp
qed

text \<open>The sum is kept in a \<open>uint64\<close>, which wraps around.\<close>

function duration_sum :: "nat \<Rightarrow> string \<Rightarrow> nat option" where
  "duration_sum d s =
     (if s = [] then Some d
      else case duration_part s of
             None \<Rightarrow> None
           | Some (v, t) \<Rightarrow>
               let d' = (d + v) mod 2 ^ 64 in if 2 ^ 63 < d' then None else duration_sum d' t)"
  by pat_completeness auto
termination
  by (relation "measure (\<lambda>(d, s). length s)") (auto dest: duration_part_shorter)

definition ParseDuration :: "string \<Rightarrow> int option" where
  "ParseDuration orig =
     (let neg = (orig \<noteq> [] \<and> hd orig = CHR ''-'');
          s = (if orig \<noteq> [] \<and> (hd orig = CHR ''-'' \<or> hd orig = CHR ''+'') then tl orig else orig)
      in if s = ''0'' then Some 0
         else if s = [] then None
         else case duration_sum 0 s of
                None \<Rightarrow> None
              | Some d \<Rightarrow>
                  if neg then Some (- int d) else if 2 ^ 63 - 1 < d then None else Some (int d))"

section \<open>helper.go\<close>

text \<open>Why reading the environment panics: the variable and its value.\<close>

datatype env_panic = Not_bool string string | Not_duration string string | Not_int string string

type_synonym environment = "string \<Rightarrow> string"

definition getEnv :: "environment \<Rightarrow> string \<Rightarrow> string \<Rightarrow> string" where
  "getEnv E key fallback = (if trim_space (E key) \<noteq> '''' then trim_space (E key) else fallback)"

text \<open>
  \<open>strings.ToLower\<close>, as far as comparing with ASCII words is concerned: beside the capital letters
  only two characters have a lower case in ASCII, the Kelvin sign and the I with a dot above.
\<close>

definition lower_char :: "char \<Rightarrow> char" where
  "lower_char c =
     (if 65 \<le> (of_char c :: nat) \<and> (of_char c :: nat) \<le> 90 then char_of (of_char c + 32 :: nat) else c)"

fun lower :: "string \<Rightarrow> string" where
  "lower (c # s) =
     (if take 1 s = [CHR 0xB0] \<and> c = CHR 0xC4 then CHR ''i'' # lower (drop 1 s)
      else if take 2 s = [CHR 0x84, CHR 0xAA] \<and> c = CHR 0xE2 then CHR ''k'' # lower (drop 2 s)
      else lower_char c # lower s)"
| "lower [] = []"

text \<open>Of what \<open>strconv.ParseBool\<close> accepts in lower case, only \<open>t\<close> and \<open>f\<close> get that far.\<close>

definition getEnvBool :: "environment \<Rightarrow> string \<Rightarrow> bool \<Rightarrow> env_panic + bool" where
  "getEnvBool E key fallback =
     (if trim_space (E key) = '''' then Inr fallback
      else let v = lower (trim_space (E key))
           in if v \<in> {''true'', ''1'', ''yes'', ''on''} then Inr True
              else if v \<in> {''false'', ''0'', ''no'', ''off''} then Inr False
              else if v = ''t'' then Inr True
              else if v = ''f'' then Inr False
              else Inl (Not_bool key v))"

definition getEnvDuration :: "environment \<Rightarrow> string \<Rightarrow> int \<Rightarrow> env_panic + int" where
  "getEnvDuration E key fallback =
     (if trim_space (E key) = '''' then Inr fallback
      else case ParseDuration (trim_space (E key)) of
             None \<Rightarrow> Inl (Not_duration key (E key))
           | Some d \<Rightarrow> Inr d)"

definition getEnvInt :: "environment \<Rightarrow> string \<Rightarrow> i64 \<Rightarrow> env_panic + i64" where
  "getEnvInt E key fallback =
     (if trim_space (E key) = '''' then Inr fallback
      else case atoi (trim_space (E key)) of
             None \<Rightarrow> Inl (Not_int key (E key))
           | Some n \<Rightarrow> Inr n)"

text \<open>\<open>strings.Split\<close> at a byte.\<close>

fun split_on :: "char \<Rightarrow> string \<Rightarrow> string list" where
  "split_on sep [] = [[]]"
| "split_on sep (c # s) =
     (if c = sep then [] # split_on sep s
      else case split_on sep s of p # ps \<Rightarrow> (c # p) # ps | [] \<Rightarrow> [[c]])"

definition getEnvSlice :: "environment \<Rightarrow> string \<Rightarrow> string list \<Rightarrow> string list" where
  "getEnvSlice E key fallback =
     (if getEnv E key '''' = '''' then fallback
      else filter (\<lambda>p. p \<noteq> '''') (map trim_space (split_on CHR '','' (getEnv E key ''''))))"

end
