(* ===== verification/Dotenv.thy ===== *)
theory Dotenv
  imports Env
begin

text \<open>
  The \<open>.env\<close> files (\<open>loadDotenv\<close>, \<open>findEnvFile\<close> and \<open>fileExists\<close> of internal/config/helper.go): outside
  production four files are looked for, each in the working directory and then in the directories
  above it, and loaded one after the other.  The file system is a record, and loading a file
  (godotenv) a parameter; \<open>dotenv_ok\<close> is what its documentation says.
\<close>

section \<open>Paths and files\<close>

text \<open>An absolute path is the list of its names, the last one first; the root is the empty list.\<close>

type_synonym path = "string list"

text \<open>\<open>fs_Stat\<close> says whether there is a directory (true) or another file; \<open>None\<close> is an error.\<close>

record file_system =
  fs_Getwd :: "go_error + path"
  fs_Stat :: "path \<Rightarrow> bool option"

definition fileExists :: "file_system \<Rightarrow> path \<Rightarrow> bool" where
  "fileExists F p = (case fs_Stat F p of None \<Rightarrow> False | Some is_dir \<Rightarrow> \<not> is_dir)"

text \<open>\<open>filepath.Join\<close> cleans: it drops empty names and dots, and takes two dots back.\<close>

fun path_under :: "path \<Rightarrow> string list \<Rightarrow> path" where
  "path_under d [] = d"
| "path_under d (x # xs) =
     path_under (if x = '''' \<or> x = ''.'' then d else if x = ''..'' then tl d else x # d) xs"

definition path_Join :: "path \<Rightarrow> string \<Rightarrow> path" where
  "path_Join d name = path_under d (split_on CHR ''/'' name)"

text \<open>The search: the directory itself, then its parent, up to the root.\<close>

fun find_up :: "file_system \<Rightarrow> string \<Rightarrow> path \<Rightarrow> path option" where
  "find_up F name [] = (if fileExists F (path_Join [] name) then Some (path_Join [] name) else None)"
| "find_up F name (x # d) =
     (if fileExists F (path_Join (x # d) name) then Some (path_Join (x # d) name) else find_up F name d)"

definition findEnvFile :: "file_system \<Rightarrow> string \<Rightarrow> path option" where
  "findEnvFile F name =
     (if has_prefix ''/'' name then
        (if fileExists F (path_Join [] name) then Some (path_Join [] name) else None)
      else case fs_Getwd F of Inl _ \<Rightarrow> None | Inr d \<Rightarrow> find_up F name d)"

section \<open>Loading\<close>

text \<open>The environment of the process, and what \<open>os.Getenv\<close> reads of it.\<close>

type_synonym os_env = "string \<rightharpoonup> string"

definition os_Getenv :: "os_env \<Rightarrow> environment" where
  "os_Getenv E key = (case E key of None \<Rightarrow> '''' | Some v \<Rightarrow> v)"

text \<open>\<open>godotenv.Load\<close> on one file: an error or none, and the environment afterwards.\<close>

type_synonym dotenv_loader = "path \<Rightarrow> os_env \<Rightarrow> go_error option \<times> os_env"

definition dotenv_files :: "string \<Rightarrow> string list" where
  "dotenv_files env = [''.env.'' @ env @ ''.local'', ''.env.'' @ env, ''.env.local'', ''.env'']"

definition loadDotenv :: "dotenv_loader \<Rightarrow> file_system \<Rightarrow> string \<Rightarrow> os_env \<Rightarrow> os_env" where
  "loadDotenv L F env E =
     (if lower env = ''production'' then E
      else fold (\<lambda>file E. case findEnvFile F file of None \<Rightarrow> E | Some p \<Rightarrow> snd (L p E)) (dotenv_files env) E)"

section \<open>Which value wins\<close>

text \<open>
  What the documentation of godotenv says: a file is read as a whole into a map, \<open>vars\<close>, or not at
  all, and a variable the environment has is not overridden.
\<close>

definition dotenv_ok :: "dotenv_loader \<Rightarrow> (path \<Rightarrow> os_env option) \<Rightarrow> bool" where
  "dotenv_ok L vars \<longleftrightarrow> (\<forall>p E. snd (L p E) = (case vars p of None \<Rightarrow> E | Some m \<Rightarrow> m ++ E))"

text \<open>
  A file, looked for upwards from the working directory, provides a value: the nearest file of that
  name can be read and has it.
\<close>

definition provides :: "file_system \<Rightarrow> (path \<Rightarrow> os_env option) \<Rightarrow> string \<Rightarrow> string \<Rightarrow> string \<Rightarrow> bool" where
  "provides F vars file k v \<longleftrightarrow>
     (\<exists>d n m. fs_Getwd F = Inr d \<and> n \<le> length d \<and> fileExists F (path_Join (drop n d) file)
        \<and> (\<forall>i < n. \<not> fileExists F (path_Join (drop i d) file))
        \<and> vars (path_Join (drop n d) file) = Some m \<and> m k = Some v)"

lemma find_up_nearest:
  "find_up F name d = Some p \<longleftrightarrow>
     (\<exists>n \<le> length d. p = path_Join (drop n d) name \<and> fileExists F p
        \<and> (\<forall>i < n. \<not> fileExists F (path_Join (drop i d) name)))"
proof (induction d)
  case Nil
  show ?case by auto
next
  case (Cons x d)
  have split: "(\<exists>n \<le> length (x # d). P n) \<longleftrightarrow> P 0 \<or> (\<exists>n \<le> length d. P (Suc n))" for P
    by (metis Suc_le_mono length_Cons le0 not0_implies_Suc)
  show ?case
    by (subst split) (auto simp: Cons.IH All_less_Suc2)
qed

text \<open>The value the files found give, if they do.\<close>

definition file_value :: "file_system \<Rightarrow> (path \<Rightarrow> os_env option) \<Rightarrow> string \<Rightarrow> os_env" where
  "file_value F vars file =
     (case findEnvFile F file of None \<Rightarrow> Map.empty
      | Some p \<Rightarrow> (case vars p of None \<Rightarrow> Map.empty | Some m \<Rightarrow> m))"

lemma file_value_provides:
  assumes "\<not> has_prefix ''/'' file"
  shows "file_value F vars file k = Some v \<longleftrightarrow> provides F vars file k v"
proof -
  have "provides F vars file k v \<longleftrightarrow>
      (\<exists>d p m. fs_Getwd F = Inr d \<and> find_up F file d = Some p \<and> vars p = Some m \<and> m k = Some v)"
    unfolding provides_def find_up_nearest by blast
  then show ?thesis
    using assms by (auto simp: file_value_def findEnvFile_def split: sum.splits option.splits)
qed

lemma loadDotenv_value:
  assumes "dotenv_ok L vars"
  shows "loadDotenv L F env E =
    (if lower env = ''production'' then E
     else foldr (\<lambda>file E'. E' ++ file_value F vars file) (dotenv_files env) Map.empty ++ E)"
proof -
  have "(case findEnvFile F name of None \<Rightarrow> E | Some p \<Rightarrow> snd (L p E)) = file_value F vars name ++ E" for name E
    using assms by (simp add: dotenv_ok_def file_value_def split: option.split)
  then show ?thesis
    by (simp add: loadDotenv_def dotenv_files_def)
qed

lemma dotenv_names: "file \<in> set (dotenv_files env) \<Longrightarrow> \<not> has_prefix ''/'' file"
  by (auto simp: dotenv_files_def has_prefix_def)

lemma first_wins:
  "foldr (\<lambda>x m. m ++ f x) xs Map.empty k = Some v \<longleftrightarrow>
     (\<exists>pre x post. xs = pre @ x # post \<and> f x k = Some v \<and> (\<forall>y \<in> set pre. f y k = None))"
proof (induction xs)
  case (Cons x xs)
  have "(\<exists>pre y post. x # xs = pre @ y # post \<and> f y k = Some v \<and> (\<forall>y \<in> set pre. f y k = None)) \<longleftrightarrow>
      f x k = Some v \<or> f x k = None \<and> (\<exists>pre y post. xs = pre @ y # post \<and> f y k = Some v \<and> (\<forall>y \<in> set pre. f y k = None))"
    (is "?l \<longleftrightarrow> ?here \<or> ?later")
  proof
    assume ?l
    then obtain pre y post where "x # xs = pre @ y # post" "f y k = Some v" "\<forall>y \<in> set pre. f y k = None" by blast
    then show "?here \<or> ?later" by (cases pre) auto
  next
    assume "?here \<or> ?later"
    then show ?l
    proof
      assume ?here
      then show ?l by (intro exI [of _ "[]"] exI [of _ x] exI [of _ xs]) simp
    next
      assume ?later
      then obtain pre y post where "f x k = None" "xs = pre @ y # post" "f y k = Some v" "\<forall>y \<in> set pre. f y k = None"
        by blast
      then show ?l by (intro exI [of _ "x # pre"] exI [of _ y] exI [of _ post]) simp
    qed
  qed
  then show ?case
    using Cons by (auto simp: map_add_Some_iff)
qed simp

section \<open>Properties\<close>

text \<open>
  C38. Where a setting comes from.  After the files are loaded a variable has a value exactly if the
  environment of the process had it, and then the same one; or, outside production, if it had none
  and the nearest file of one of the four names provides it, no file of an earlier name providing
  any.  The order of the names is \<open>.env.<env>.local\<close>, \<open>.env.<env>\<close>, \<open>.env.local\<close>, \<open>.env\<close>.
\<close>

theorem dotenv_precedence:
  assumes "dotenv_ok L vars"
  shows "loadDotenv L F env E k = Some v \<longleftrightarrow>
    E k = Some v \<or>
    E k = None \<and> lower env \<noteq> ''production'' \<and>
      (\<exists>pre file post. [''.env.'' @ env @ ''.local'', ''.env.'' @ env, ''.env.local'', ''.env''] = pre @ file # post
         \<and> provides F vars file k v \<and> (\<forall>earlier \<in> set pre. \<forall>v'. \<not> provides F vars earlier k v'))"
proof -
  have "file_value F vars name k = Some w \<longleftrightarrow> provides F vars name k w" if "name \<in> set (dotenv_files env)" for name w
    using file_value_provides dotenv_names [OF that] by blast
  then have "(\<exists>pre file post. dotenv_files env = pre @ file # post \<and> file_value F vars file k = Some v
        \<and> (\<forall>earlier \<in> set pre. file_value F vars earlier k = None)) \<longleftrightarrow>
      (\<exists>pre file post. dotenv_files env = pre @ file # post \<and> provides F vars file k v
        \<and> (\<forall>earlier \<in> set pre. \<forall>v'. \<not> provides F vars earlier k v'))"
    by (intro ex_cong1) (auto simp flip: not_Some_eq)
  then show ?thesis
    unfolding loadDotenv_value [OF assms] map_add_Some_iff dotenv_files_def [symmetric]
    by (auto simp: first_wins map_add_Some_iff)
qed

section \<open>A checkout with two files\<close>

text \<open>
  The service runs in \<open>/srv/api\<close>; a \<open>.env\<close> is in \<open>/srv\<close>, and a \<open>.env.development\<close> beside the
  program overrides its port.
\<close>

definition demo_files :: "path \<Rightarrow> os_env option" where
  "demo_files = Map.empty
     ([''.env'', ''srv''] \<mapsto> [''HTTP_PORT'' \<mapsto> ''8001'', ''REDIS_HOST'' \<mapsto> ''redis''],
      [''.env.development'', ''api'', ''srv''] \<mapsto> [''HTTP_PORT'' \<mapsto> ''9001''])"

definition demo_fs :: file_system where
  "demo_fs = \<lparr>fs_Getwd = Inr [''api'', ''srv''], fs_Stat = (\<lambda>p. map_option (\<lambda>_. False) (demo_files p))\<rparr>"

definition demo_loader :: dotenv_loader where
  "demo_loader p E = (case demo_files p of None \<Rightarrow> (Some (Text ''no such file''), E) | Some m \<Rightarrow> (None, m ++ E))"

lemma demo_loader_ok: "dotenv_ok demo_loader demo_files"
  by (simp add: dotenv_ok_def demo_loader_def split: option.split)

theorem dotenv_precedence_witness:
  "\<exists>file. provides demo_fs demo_files file ''HTTP_PORT'' ''9001''
     \<and> loadDotenv demo_loader demo_fs ''development'' [''REDIS_HOST'' \<mapsto> ''localhost''] ''HTTP_PORT'' = Some ''9001''
     \<and> loadDotenv demo_loader demo_fs ''development'' [''REDIS_HOST'' \<mapsto> ''localhost''] ''REDIS_HOST'' = Some ''localhost''"
proof -
  let ?E = "loadDotenv demo_loader demo_fs ''development'' [''REDIS_HOST'' \<mapsto> ''localhost'']"
  have "?E ''HTTP_PORT'' = Some ''9001''" by code_simp
  then show ?thesis
    using dotenv_precedence [OF demo_loader_ok, of demo_fs "''development''" "[''REDIS_HOST'' \<mapsto> ''localhost'']" "''HTTP_PORT''" "''9001''"]
      dotenv_precedence [OF demo_loader_ok, of demo_fs "''development''" "[''REDIS_HOST'' \<mapsto> ''localhost'']" "''REDIS_HOST''" "''localhost''"]
    by auto
qed

end
