(* ===== verification/Config.thy ===== *)
theory Config
  imports Customer_Service Dotenv
begin

text \<open>
  The configuration (internal/config/config.go): its sections, how they are read from the
  environment, and what is checked before the service starts.  Durations are in nanoseconds.
\<close>

section \<open>The sections\<close>

record AppConfig =
  app_Name :: string
  app_Version :: string
  app_Environment :: string
  app_Debug :: bool

record LoggerConfig =
  log_Level :: string
  log_Format :: string
  log_Output :: string
  log_FilePath :: string
  log_Service :: string

record HTTPConfig =
  http_Port :: string
  http_ReadTimeout :: int
  http_WriteTimeout :: int
  http_IdleTimeout :: int
  http_ShutdownTimeout :: int
  http_CORSAllowOrigins :: string
  http_PublicOrderRateLimit :: i64

record GRPCConfig =
  grpc_Port :: string
  grpc_ShutdownTimeout :: int

record RedisConfig =
  redis_Host :: string
  redis_Port :: string
  redis_Password :: string
  redis_DB :: i64
  redis_PoolSize :: i64
  redis_MinIdleConns :: i64
  redis_ConnectTimeout :: int
  redis_DialTimeout :: int
  redis_ReadTimeout :: int
  redis_WriteTimeout :: int

record JWTConfig =
  jwtc_DeviceSecret :: string
  jwtc_DeviceTTL :: int
  jwtc_Issuer :: string

record KafkaConfig =
  kafka_Brokers :: "string list"
  kafka_GroupID :: string
  kafka_MenuTopic :: string
  kafka_OrdersTopic :: string

text \<open>\<open>CRMConfig\<close>, \<open>OrderConfig\<close>, \<open>LoyaltyConfig\<close> and \<open>NotificationConfig\<close> have the same fields.\<close>

record ClientConfig =
  client_Address :: string
  client_Timeout :: int

record Config =
  cfg_App :: AppConfig
  cfg_Logger :: LoggerConfig
  cfg_HTTP :: HTTPConfig
  cfg_GRPC :: GRPCConfig
  cfg_Redis :: RedisConfig
  cfg_JWT :: JWTConfig
  cfg_Kafka :: KafkaConfig
  cfg_CRM :: ClientConfig
  cfg_Order :: ClientConfig
  cfg_Loyalty :: ClientConfig
  cfg_Notification :: ClientConfig
  cfg_Customer :: CustomerAuthConfig

section \<open>Validation\<close>

definition IsProduction :: "Config \<Rightarrow> bool" where
  "IsProduction c = (app_Environment (cfg_App c) = ''production'')"

definition IsDevelopment :: "Config \<Rightarrow> bool" where
  "IsDevelopment c = (app_Environment (cfg_App c) = ''development'')"

definition isValidEnvironment :: "string \<Rightarrow> bool" where
  "isValidEnvironment e = (e \<in> {''development'', ''staging'', ''production''})"

definition isValidLogLevel :: "string \<Rightarrow> bool" where
  "isValidLogLevel l = (l \<in> {''debug'', ''info'', ''warn'', ''error''})"

definition isValidLogFormat :: "string \<Rightarrow> bool" where
  "isValidLogFormat f = (f = ''json'' \<or> f = ''text'')"

definition isValidLogOutput :: "string \<Rightarrow> bool" where
  "isValidLogOutput x = (x \<in> {''stdout'', ''file'', ''both''})"

definition isValidPort :: "string \<Rightarrow> bool" where
  "isValidPort port =
     (if port = '''' then False
      else case scan_int port of None \<Rightarrow> False | Some n \<Rightarrow> 0 < sint n \<and> sint n < 65536)"

text \<open>What is wrong, with the offending value where the message quotes it.\<close>

datatype config_error =
    Invalid string string
  | Redis_host_empty | Device_secret_short | Customer_secret_short | Secrets_equal | Echo_in_production

text \<open>The two ports are checked in the order in which Go ranges over the map of them.\<close>

definition port_errors :: "((string \<times> string) list \<Rightarrow> (string \<times> string) list) \<Rightarrow> Config \<Rightarrow> config_error list" where
  "port_errors ord c =
     map (\<lambda>(name, port). Invalid name port)
       (filter (\<lambda>(name, port). \<not> isValidPort port)
          (ord [(''HTTP_PORT'', http_Port (cfg_HTTP c)), (''REDIS_PORT'', redis_Port (cfg_Redis c))]))"

definition Validate :: "((string \<times> string) list \<Rightarrow> (string \<times> string) list) \<Rightarrow> Config \<Rightarrow> config_error list" where
  "Validate ord c =
     (let env = app_Environment (cfg_App c); lg = cfg_Logger c;
          device = jwtc_DeviceSecret (cfg_JWT c); customer = cac_JWTSecret (cfg_Customer c)
      in (if isValidEnvironment env then [] else [Invalid ''APP_ENV'' env])
         @ (if isValidLogLevel (log_Level lg) then [] else [Invalid ''LOG_LEVEL'' (log_Level lg)])
         @ (if isValidLogFormat (log_Format lg) then [] else [Invalid ''LOG_FORMAT'' (log_Format lg)])
         @ (if isValidLogOutput (log_Output lg) then [] else [Invalid ''LOG_OUTPUT'' (log_Output lg)])
         @ port_errors ord c
         @ (if redis_Host (cfg_Redis c) = '''' then [Redis_host_empty] else [])
         @ (if length device < 32 then [Device_secret_short] else [])
         @ (if length customer < 32 then [Customer_secret_short] else [])
         @ (if customer = device then [Secrets_equal] else [])
         @ (if IsProduction c \<and> cac_DevEchoCode (cfg_Customer c) then [Echo_in_production] else []))"

section \<open>Loading\<close>

definition defaultLogLevel :: "string \<Rightarrow> string" where
  "defaultLogLevel env = (if env = ''production'' then ''info'' else ''debug'')"

definition defaultLogFormat :: "string \<Rightarrow> string" where
  "defaultLogFormat env = (if env = ''production'' then ''json'' else ''text'')"

definition defaultLogOutput :: "string \<Rightarrow> string" where
  "defaultLogOutput env = (if env = ''production'' then ''both'' else ''stdout'')"

text \<open>A panic ends the reading.\<close>

fun and_then :: "env_panic + 'a \<Rightarrow> ('a \<Rightarrow> env_panic + 'b) \<Rightarrow> env_panic + 'b" where
  "and_then (Inl e) f = Inl e"
| "and_then (Inr x) f = f x"

definition load_app :: "environment \<Rightarrow> string \<Rightarrow> env_panic + AppConfig" where
  "load_app E env =
     and_then (getEnvBool E ''APP_DEBUG'' (env \<noteq> ''production'')) (\<lambda>debug.
     Inr \<lparr>app_Name = getEnv E ''APP_NAME'' ''kfc-userapi'', app_Version = getEnv E ''APP_VERSION'' ''1.0.0'',
          app_Environment = env, app_Debug = debug\<rparr>)"

definition load_logger :: "environment \<Rightarrow> string \<Rightarrow> LoggerConfig" where
  "load_logger E env =
     \<lparr>log_Level = getEnv E ''LOG_LEVEL'' (defaultLogLevel env),
      log_Format = getEnv E ''LOG_FORMAT'' (defaultLogFormat env),
      log_Output = getEnv E ''LOG_OUTPUT'' (defaultLogOutput env),
      log_FilePath = getEnv E ''LOG_FILE_PATH'' ''logs/app.log'',
      log_Service = getEnv E ''LOG_SERVICE'' ''kfc-userapi''\<rparr>"

definition load_http :: "environment \<Rightarrow> env_panic + HTTPConfig" where
  "load_http E =
     and_then (getEnvDuration E ''HTTP_READ_TIMEOUT'' (15 * second)) (\<lambda>read.
     and_then (getEnvDuration E ''HTTP_WRITE_TIMEOUT'' (15 * second)) (\<lambda>write.
     and_then (getEnvDuration E ''HTTP_IDLE_TIMEOUT'' (60 * second)) (\<lambda>idle.
     and_then (getEnvDuration E ''HTTP_SHUTDOWN_TIMEOUT'' (10 * second)) (\<lambda>shutdown.
     and_then (getEnvInt E ''PUBLIC_ORDER_RATE_LIMIT'' 10) (\<lambda>limit.
     Inr \<lparr>http_Port = getEnv E ''HTTP_PORT'' ''8001'', http_ReadTimeout = read, http_WriteTimeout = write,
          http_IdleTimeout = idle, http_ShutdownTimeout = shutdown,
          http_CORSAllowOrigins = getEnv E ''CORS_ALLOW_ORIGINS''
            ''http://localhost:4300,http://localhost:4400,http://localhost:4500,http://localhost:4600'',
          http_PublicOrderRateLimit = limit\<rparr>)))))"

definition load_grpc :: "environment \<Rightarrow> env_panic + GRPCConfig" where
  "load_grpc E =
     and_then (getEnvDuration E ''GRPC_SHUTDOWN_TIMEOUT'' (10 * second)) (\<lambda>shutdown.
     Inr \<lparr>grpc_Port = getEnv E ''GRPC_PORT'' ''9102'', grpc_ShutdownTimeout = shutdown\<rparr>)"

definition load_redis :: "environment \<Rightarrow> env_panic + RedisConfig" where
  "load_redis E =
     and_then (getEnvInt E ''REDIS_DB'' 0) (\<lambda>db.
     and_then (getEnvInt E ''REDIS_POOL_SIZE'' 10) (\<lambda>pool.
     and_then (getEnvInt E ''REDIS_MIN_IDLE_CONNS'' 5) (\<lambda>idle.
     and_then (getEnvDuration E ''REDIS_CONNECT_TIMEOUT'' (5 * second)) (\<lambda>connect.
     and_then (getEnvDuration E ''REDIS_DIAL_TIMEOUT'' (5 * second)) (\<lambda>dial.
     and_then (getEnvDuration E ''REDIS_READ_TIMEOUT'' (3 * second)) (\<lambda>read.
     and_then (getEnvDuration E ''REDIS_WRITE_TIMEOUT'' (3 * second)) (\<lambda>write.
     Inr \<lparr>redis_Host = getEnv E ''REDIS_HOST'' ''localhost'', redis_Port = getEnv E ''REDIS_PORT'' ''6379'',
          redis_Password = getEnv E ''REDIS_PASSWORD'' '''', redis_DB = db, redis_PoolSize = pool,
          redis_MinIdleConns = idle, redis_ConnectTimeout = connect, redis_DialTimeout = dial,
          redis_ReadTimeout = read, redis_WriteTimeout = write\<rparr>)))))))"

definition load_jwt :: "environment \<Rightarrow> env_panic + JWTConfig" where
  "load_jwt E =
     and_then (getEnvDuration E ''JWT_DEVICE_TTL'' (168 * hour)) (\<lambda>ttl.
     Inr \<lparr>jwtc_DeviceSecret = getEnv E ''JWT_DEVICE_SECRET'' '''', jwtc_DeviceTTL = ttl,
          jwtc_Issuer = getEnv E ''JWT_ISSUER'' ''kfc-userapi''\<rparr>)"

definition load_kafka :: "environment \<Rightarrow> KafkaConfig" where
  "load_kafka E =
     \<lparr>kafka_Brokers = getEnvSlice E ''KAFKA_BROKERS'' [''localhost:29092''],
      kafka_GroupID = getEnv E ''KAFKA_GROUP_ID'' ''kfc-userapi'',
      kafka_MenuTopic = getEnv E ''KAFKA_MENU_TOPIC'' ''crm.menu.updated'',
      kafka_OrdersTopic = getEnv E ''KAFKA_ORDERS_TOPIC'' ''orders.events''\<rparr>"

definition load_client :: "environment \<Rightarrow> string \<Rightarrow> string \<Rightarrow> string \<Rightarrow> env_panic + ClientConfig" where
  "load_client E address fallback timeout =
     and_then (getEnvDuration E timeout (5 * second)) (\<lambda>t.
     Inr \<lparr>client_Address = getEnv E address fallback, client_Timeout = t\<rparr>)"

definition load_customer :: "environment \<Rightarrow> string \<Rightarrow> env_panic + CustomerAuthConfig" where
  "load_customer E env =
     and_then (getEnvDuration E ''CUSTOMER_ACCESS_TTL'' (15 * minute)) (\<lambda>access.
     and_then (getEnvDuration E ''CUSTOMER_REFRESH_TTL'' (30 * 24 * hour)) (\<lambda>refresh.
     and_then (getEnvDuration E ''CUSTOMER_CODE_TTL'' (5 * minute)) (\<lambda>code.
     and_then (getEnvBool E ''CUSTOMER_DEV_ECHO_CODE'' (env \<noteq> ''production'')) (\<lambda>echo.
     and_then (getEnvBool E ''CUSTOMER_COOKIE_SECURE'' (env = ''production'')) (\<lambda>secure.
     and_then (getEnvDuration E ''KIOSK_LOYALTY_SESSION_TTL'' (10 * minute)) (\<lambda>kiosk.
     Inr \<lparr>cac_JWTSecret = getEnv E ''CUSTOMER_JWT_SECRET'' '''', cac_AccessTTL = access,
          cac_RefreshTTL = refresh, cac_CodeTTL = code, cac_DevEchoCode = echo, cac_CookieSecure = secure,
          cac_KioskSessionTTL = kiosk\<rparr>))))))"

definition load_config :: "environment \<Rightarrow> string \<Rightarrow> env_panic + Config" where
  "load_config E env =
     and_then (load_app E env) (\<lambda>app.
     and_then (load_http E) (\<lambda>http.
     and_then (load_grpc E) (\<lambda>grpc.
     and_then (load_redis E) (\<lambda>redis.
     and_then (load_jwt E) (\<lambda>jwt.
     and_then (load_client E ''CRM_GRPC_ADDRESS'' ''localhost:9090'' ''CRM_GRPC_TIMEOUT'') (\<lambda>crm.
     and_then (load_client E ''ORDER_GRPC_ADDRESS'' ''localhost:9103'' ''ORDER_GRPC_TIMEOUT'') (\<lambda>order.
     and_then (load_client E ''LOYALTY_GRPC_ADDRESS'' ''localhost:9104'' ''LOYALTY_GRPC_TIMEOUT'') (\<lambda>loyalty.
     and_then (load_client E ''NOTIFICATION_GRPC_ADDRESS'' ''localhost:9101'' ''NOTIFICATION_GRPC_TIMEOUT'') (\<lambda>notify.
     and_then (load_customer E env) (\<lambda>customer.
     Inr \<lparr>cfg_App = app, cfg_Logger = load_logger E env, cfg_HTTP = http, cfg_GRPC = grpc, cfg_Redis = redis,
          cfg_JWT = jwt, cfg_Kafka = load_kafka E, cfg_CRM = crm, cfg_Order = order, cfg_Loyalty = loyalty,
          cfg_Notification = notify, cfg_Customer = customer\<rparr>))))))))))"

text \<open>
  \<open>APP_ENV\<close> itself is read before the \<open>.env\<close> files are loaded; \<open>ord\<close> is the order of ranging over the
  map of the ports.
\<close>

datatype load_error = Panics env_panic | Validation_failed "config_error list"

definition Load ::
  "((string \<times> string) list \<Rightarrow> (string \<times> string) list) \<Rightarrow> dotenv_loader \<Rightarrow> file_system \<Rightarrow> os_env
     \<Rightarrow> load_error + Config" where
  "Load ord L F E0 =
     (let env = getEnv (os_Getenv E0) ''APP_ENV'' ''development'';
          E = os_Getenv (loadDotenv L F env E0)
      in case load_config E env of
           Inl p \<Rightarrow> Inl (Panics p)
         | Inr cfg \<Rightarrow> (case Validate ord cfg of [] \<Rightarrow> Inr cfg | errs \<Rightarrow> Inl (Validation_failed errs)))"

text \<open>The environment the settings are read from, and the one named in it before.\<close>

abbreviation named_env :: "os_env \<Rightarrow> string" where
  "named_env E0 \<equiv> getEnv (os_Getenv E0) ''APP_ENV'' ''development''"

abbreviation settings :: "dotenv_loader \<Rightarrow> file_system \<Rightarrow> os_env \<Rightarrow> environment" where
  "settings L F E0 \<equiv> os_Getenv (loadDotenv L F (named_env E0) E0)"

section \<open>Properties\<close>

definition valid_config :: "Config \<Rightarrow> bool" where
  "valid_config c \<longleftrightarrow>
     app_Environment (cfg_App c) \<in> {''development'', ''staging'', ''production''}
     \<and> log_Level (cfg_Logger c) \<in> {''debug'', ''info'', ''warn'', ''error''}
     \<and> log_Format (cfg_Logger c) \<in> {''json'', ''text''}
     \<and> log_Output (cfg_Logger c) \<in> {''stdout'', ''file'', ''both''}
     \<and> (\<forall>port \<in> {http_Port (cfg_HTTP c), redis_Port (cfg_Redis c)}.
          \<exists>n. scan_int port = Some n \<and> sint n \<in> {1..65535})
     \<and> redis_Host (cfg_Redis c) \<noteq> ''''
     \<and> 32 \<le> length (jwtc_DeviceSecret (cfg_JWT c)) \<and> 32 \<le> length (cac_JWTSecret (cfg_Customer c))
     \<and> cac_JWTSecret (cfg_Customer c) \<noteq> jwtc_DeviceSecret (cfg_JWT c)
     \<and> (app_Environment (cfg_App c) = ''production'' \<longrightarrow> \<not> cac_DevEchoCode (cfg_Customer c))"

lemma isValidPort_iff: "isValidPort port \<longleftrightarrow> (\<exists>n. scan_int port = Some n \<and> sint n \<in> {1..65535})"
proof -
  have "scan_int '''' = None" by (simp add: scan_int_def atoi_def)
  then show ?thesis by (auto simp: isValidPort_def split: option.splits)
qed

lemma port_errors_Nil:
  assumes "\<And>xs. set (ord xs) = set xs"
  shows "port_errors ord c = [] \<longleftrightarrow> isValidPort (http_Port (cfg_HTTP c)) \<and> isValidPort (redis_Port (cfg_Redis c))"
  by (auto simp: port_errors_def filter_empty_conv assms)

lemma Validate_Nil:
  assumes "\<And>xs. set (ord xs) = set xs"
  shows "Validate ord c = [] \<longleftrightarrow> valid_config c"
  unfolding Validate_def Let_def append_is_Nil_conv port_errors_Nil [of ord, OF assms]
  by (auto simp: valid_config_def isValidPort_iff isValidEnvironment_def isValidLogLevel_def
      isValidLogFormat_def isValidLogOutput_def IsProduction_def)

lemma Load_Inr:
  assumes "\<And>xs. set (ord xs) = set xs"
  shows "Load ord L F E0 = Inr c \<longleftrightarrow>
    load_config (settings L F E0) (named_env E0) = Inr c
    \<and> valid_config c"
  unfolding Validate_Nil [of ord, OF assms, symmetric]
  by (auto simp: Load_def Let_def split: sum.splits list.splits)

lemma and_then_Inr: "and_then x f = Inr y \<longleftrightarrow> (\<exists>z. x = Inr z \<and> f z = Inr y)"
  by (cases x) auto

lemma load_config_env: "load_config E env = Inr c \<Longrightarrow> app_Environment (cfg_App c) = env"
  by (auto simp: load_config_def load_app_def and_then_Inr)

text \<open>The environment is the one named outside the \<open>.env\<close> files, even if one of these names another.\<close>

lemma named_before_files:
  assumes "\<And>xs. set (ord xs) = set xs" and "Load ord L F E0 = Inr c"
  shows "app_Environment (cfg_App c) = named_env E0"
  using assms(2) load_config_env unfolding Load_Inr [of ord, OF assms(1)] by blast

text \<open>
  C37. What the service can rely on once it has started.  Loading returns a configuration exactly
  when every variable can be read and the configuration is valid: a known environment, log settings
  the logger knows, an HTTP and a Redis port between 1 and 65535, a Redis host, two different signing
  secrets of at least 32 bytes, and no echoed sign-in codes in production; and it returns it unchanged.
\<close>

theorem loaded_config_valid:
  assumes "\<And>xs. set (ord xs) = set xs"
  shows "Load ord L F E0 = Inr c \<longleftrightarrow>
    load_config (settings L F E0) (named_env E0) = Inr c
    \<and> valid_config c"
  by (rule Load_Inr [OF assms])

text \<open>
  In production a sign-in code only ever leaves by SMS.  A customer service configured from an
  environment whose \<open>APP_ENV\<close> is production answers a request for a code without the code in it,
  whatever the other variables and the \<open>.env\<close> files say.
\<close>

lemma production_never_echoes:
  assumes "\<And>xs. set (ord xs) = set xs" and "Load ord L F E0 = Inr c"
    and "trim_space (os_Getenv E0 ''APP_ENV'') = ''production''" and "cs_cfg S = cfg_Customer c"
    and "RequestCode S phone ip s = (Inr sent, s')"
  shows "sent_DevCode sent = ''''"
proof -
  from Load_Inr [of ord, OF assms(1)] assms(2)
  have "load_config (settings L F E0) (named_env E0) = Inr c"
    and v: "valid_config c" by blast+
  from load_config_env [OF this(1)] assms(3) have "app_Environment (cfg_App c) = ''production''"
    by (simp add: getEnv_def)
  with v assms(4) have "\<not> cac_DevEchoCode (cs_cfg S)" by (simp add: valid_config_def)
  with assms(5) show ?thesis
    by (auto simp: RequestCode_def send_code_def Let_def split: if_splits sum.splits prod.splits)
qed

section \<open>A configuration\<close>

definition device_key :: string where "device_key = replicate 32 CHR ''d''"
definition customer_key :: string where "customer_key = replicate 32 CHR ''c''"

text \<open>A production environment that sets the secrets and nothing else.\<close>

definition prod_env :: environment where
  "prod_env = (\<lambda>_. '''')(''APP_ENV'' := ''production'', ''JWT_DEVICE_SECRET'' := device_key,
     ''CUSTOMER_JWT_SECRET'' := customer_key)"

text \<open>The same as the environment of a process, which runs where there are \<open>.env\<close> files.\<close>

definition prod_vars :: os_env where
  "prod_vars = [''APP_ENV'' \<mapsto> ''production'', ''JWT_DEVICE_SECRET'' \<mapsto> device_key,
     ''CUSTOMER_JWT_SECRET'' \<mapsto> customer_key]"

lemma prod_Getenv [simp]: "os_Getenv prod_vars = prod_env"
  by (rule ext) (simp add: os_Getenv_def prod_vars_def prod_env_def)

definition prod_config :: Config where
  "prod_config =
     \<lparr>cfg_App = \<lparr>app_Name = ''kfc-userapi'', app_Version = ''1.0.0'', app_Environment = ''production'', app_Debug = False\<rparr>,
      cfg_Logger = \<lparr>log_Level = ''info'', log_Format = ''json'', log_Output = ''both'',
        log_FilePath = ''logs/app.log'', log_Service = ''kfc-userapi''\<rparr>,
      cfg_HTTP = \<lparr>http_Port = ''8001'', http_ReadTimeout = 15 * second, http_WriteTimeout = 15 * second,
        http_IdleTimeout = 60 * second, http_ShutdownTimeout = 10 * second,
        http_CORSAllowOrigins = ''http://localhost:4300,http://localhost:4400,http://localhost:4500,http://localhost:4600'',
        http_PublicOrderRateLimit = 10\<rparr>,
      cfg_GRPC = \<lparr>grpc_Port = ''9102'', grpc_ShutdownTimeout = 10 * second\<rparr>,
      cfg_Redis = \<lparr>redis_Host = ''localhost'', redis_Port = ''6379'', redis_Password = '''', redis_DB = 0,
        redis_PoolSize = 10, redis_MinIdleConns = 5, redis_ConnectTimeout = 5 * second,
        redis_DialTimeout = 5 * second, redis_ReadTimeout = 3 * second, redis_WriteTimeout = 3 * second\<rparr>,
      cfg_JWT = \<lparr>jwtc_DeviceSecret = device_key, jwtc_DeviceTTL = 168 * hour, jwtc_Issuer = ''kfc-userapi''\<rparr>,
      cfg_Kafka = \<lparr>kafka_Brokers = [''localhost:29092''], kafka_GroupID = ''kfc-userapi'',
        kafka_MenuTopic = ''crm.menu.updated'', kafka_OrdersTopic = ''orders.events''\<rparr>,
      cfg_CRM = \<lparr>client_Address = ''localhost:9090'', client_Timeout = 5 * second\<rparr>,
      cfg_Order = \<lparr>client_Address = ''localhost:9103'', client_Timeout = 5 * second\<rparr>,
      cfg_Loyalty = \<lparr>client_Address = ''localhost:9104'', client_Timeout = 5 * second\<rparr>,
      cfg_Notification = \<lparr>client_Address = ''localhost:9101'', client_Timeout = 5 * second\<rparr>,
      cfg_Customer = \<lparr>cac_JWTSecret = customer_key, cac_AccessTTL = 15 * minute,
        cac_RefreshTTL = 30 * 24 * hour, cac_CodeTTL = 5 * minute, cac_DevEchoCode = False,
        cac_CookieSecure = True, cac_KioskSessionTTL = 10 * minute\<rparr>\<rparr>"

lemma trim_Nil [simp]: "trim_space '''' = ''''"
  by (simp add: trim_space_def)

lemma trim_replicate: "solid c \<Longrightarrow> 0 < n \<Longrightarrow> trim_space (replicate n c) = replicate n c"
  by (rule trim_space_id) auto

lemma prod_keys [simp]:
  "trim_space device_key = device_key" "trim_space customer_key = customer_key"
  "device_key \<noteq> ''''" "customer_key \<noteq> ''''" "customer_key \<noteq> device_key"
  "length device_key = 32" "length customer_key = 32"
proof -
  have solid: "solid CHR ''d''" "solid CHR ''c''" by (simp_all add: solid_def is_space_def)
  show "trim_space device_key = device_key" unfolding device_key_def by (rule trim_replicate [OF solid(1)]) simp
  show "trim_space customer_key = customer_key" unfolding customer_key_def by (rule trim_replicate [OF solid(2)]) simp
  show "device_key \<noteq> ''''" "customer_key \<noteq> ''''" "customer_key \<noteq> device_key"
    "length device_key = 32" "length customer_key = 32"
    by (simp_all add: device_key_def customer_key_def replicate_eq_replicate)
qed

lemma prod_name [simp]: "trim_space ''production'' = ''production''"
  by (rule trim_space_id) (simp_all add: solid_def is_space_def)

lemma prod_getEnv:
  "getEnv prod_env k d =
     (if k = ''CUSTOMER_JWT_SECRET'' then customer_key else if k = ''JWT_DEVICE_SECRET'' then device_key
      else if k = ''APP_ENV'' then ''production'' else d)"
  unfolding getEnv_def prod_env_def fun_upd_apply by (simp only: prod_keys prod_name trim_Nil split: if_split) simp

lemma prod_unset:
  assumes "k \<notin> {''APP_ENV'', ''JWT_DEVICE_SECRET'', ''CUSTOMER_JWT_SECRET''}"
  shows "getEnvDuration prod_env k t = Inr t" "getEnvInt prod_env k n = Inr n" "getEnvBool prod_env k b = Inr b"
proof -
  have "prod_env k = ''''" using assms unfolding prod_env_def fun_upd_apply by (simp only: insert_iff empty_iff if_False) presburger
  then show "getEnvDuration prod_env k t = Inr t" "getEnvInt prod_env k n = Inr n" "getEnvBool prod_env k b = Inr b"
    by (simp_all add: getEnvDuration_def getEnvInt_def getEnvBool_def)
qed

lemma prod_ports: "scan_int ''8001'' = Some 8001" "scan_int ''6379'' = Some 6379"
  by (simp_all add: scan_int_def atoi_def is_digit_def decode_rune_ascii is_space_def)

lemma prod_lower: "lower ''production'' = ''production''"
  by code_simp

lemma prod_sections:
  "load_app prod_env ''production'' = Inr (cfg_App prod_config)"
  "load_logger prod_env ''production'' = cfg_Logger prod_config"
  "load_http prod_env = Inr (cfg_HTTP prod_config)"
  "load_grpc prod_env = Inr (cfg_GRPC prod_config)"
  "load_redis prod_env = Inr (cfg_Redis prod_config)"
  "load_jwt prod_env = Inr (cfg_JWT prod_config)"
  "load_kafka prod_env = cfg_Kafka prod_config"
  "load_customer prod_env ''production'' = Inr (cfg_Customer prod_config)"
  by (simp_all add: load_app_def load_logger_def load_http_def load_grpc_def load_redis_def load_jwt_def
      load_kafka_def load_customer_def prod_getEnv prod_unset prod_config_def getEnvSlice_def
      defaultLogLevel_def defaultLogFormat_def defaultLogOutput_def)

lemma prod_loads: "Load (\<lambda>xs. xs) demo_loader demo_fs prod_vars = Inr prod_config"
proof -
  have "load_config prod_env ''production'' = Inr prod_config"
    by (simp add: load_config_def prod_sections load_client_def prod_getEnv prod_unset) (simp add: prod_config_def)
  moreover have "loadDotenv demo_loader demo_fs ''production'' prod_vars = prod_vars"
    unfolding loadDotenv_def prod_lower by simp
  moreover have "valid_config prod_config"
    by (simp add: valid_config_def prod_config_def prod_ports)
  ultimately show ?thesis
    by (subst Load_Inr) (simp_all add: prod_getEnv)
qed


theorem loaded_config_valid_witness:
  "Load (\<lambda>xs. xs) demo_loader demo_fs prod_vars = Inr prod_config \<and> valid_config prod_config"
  using loaded_config_valid [of "\<lambda>xs. xs" demo_loader demo_fs prod_vars prod_config] prod_loads by simp

text \<open>A port is read up to what is no digit, so that this one passes.\<close>

theorem port_with_rest: "isValidPort ''80abc''"
  by (simp add: isValidPort_def scan_int_def atoi_def is_digit_def decode_rune_ascii is_space_def)

end
