(* ===== verification/Clients.thy ===== *)
theory Clients
  imports Upstream Encodings
begin

text \<open>
  The gRPC clients of the other services (internal/client): each call of a generated stub with a time
  limit, and the errors of kfc-crm and of the notification service with the name of the call in front.
  The stubs are parameters: they take the time limit, in nanoseconds, and the fields of the request.
  Dialling and closing connections is in \<open>App\<close>.
\<close>

section \<open>Errors\<close>

text \<open>
  \<open>fmt.Errorf("name: %w", err)\<close>: \<open>status.FromError\<close> finds the status in a wrapped error and gives it
  the text of the wrapping one as its message.
\<close>

fun wrap_rpc :: "string \<Rightarrow> rpc_error \<Rightarrow> rpc_error" where
  "wrap_rpc name (RpcStatus c m t) = RpcStatus c (name @ '': '' @ t) (name @ '': '' @ t)"
| "wrap_rpc name (RpcPlain t) = RpcPlain (name @ '': '' @ t)"

definition wrapped_call :: "string \<Rightarrow> ('s, 'a) rpc \<Rightarrow> ('s, 'a) rpc" where
  "wrapped_call name call s =
     (case call s of (Inl e, s1) \<Rightarrow> (Inl (wrap_rpc name e), s1) | (Inr x, s1) \<Rightarrow> (Inr x, s1))"

section \<open>crm_client.go\<close>

record 's crm_stub =
  stub_GetEffectiveMenu :: "int \<Rightarrow> string \<Rightarrow> ('s, menu) rpc"
  stub_ListRegions :: "int \<Rightarrow> ('s, region list) rpc"
  stub_ListRestaurants :: "int \<Rightarrow> string \<Rightarrow> ('s, restaurant list) rpc"
  stub_GetRestaurant :: "int \<Rightarrow> string \<Rightarrow> ('s, restaurant) rpc"

record 's crm_client =
  cc_client :: "'s crm_stub"
  cc_timeout :: int

definition crm_GetEffectiveMenu_call :: "'s crm_client \<Rightarrow> string \<Rightarrow> ('s, menu) rpc" where
  "crm_GetEffectiveMenu_call C restaurantID =
     wrapped_call ''crm GetEffectiveMenu'' (stub_GetEffectiveMenu (cc_client C) (cc_timeout C) restaurantID)"

definition crm_ListRegions_call :: "'s crm_client \<Rightarrow> ('s, region list) rpc" where
  "crm_ListRegions_call C = wrapped_call ''crm ListRegions'' (stub_ListRegions (cc_client C) (cc_timeout C))"

definition crm_ListRestaurants_call :: "'s crm_client \<Rightarrow> string \<Rightarrow> ('s, restaurant list) rpc" where
  "crm_ListRestaurants_call C regionID =
     wrapped_call ''crm ListRestaurants'' (stub_ListRestaurants (cc_client C) (cc_timeout C) regionID)"

definition crm_GetRestaurant_call :: "'s crm_client \<Rightarrow> string \<Rightarrow> ('s, restaurant) rpc" where
  "crm_GetRestaurant_call C i =
     wrapped_call ''crm GetRestaurant'' (stub_GetRestaurant (cc_client C) (cc_timeout C) i)"

definition NewCRMClient :: "'s crm_stub \<Rightarrow> int \<Rightarrow> 's crm_api" where
  "NewCRMClient stub timeout =
     (let C = \<lparr>cc_client = stub, cc_timeout = timeout\<rparr>
      in \<lparr>crm_GetEffectiveMenu = crm_GetEffectiveMenu_call C, crm_ListRegions = crm_ListRegions_call C,
          crm_ListRestaurants = crm_ListRestaurants_call C, crm_GetRestaurant = crm_GetRestaurant_call C\<rparr>)"

section \<open>order_client.go\<close>

record 's order_stub =
  stub_CreateOrder :: "int \<Rightarrow> create_order_request \<Rightarrow> ('s, order) rpc"
  stub_GetOrder :: "int \<Rightarrow> string \<Rightarrow> ('s, order) rpc"
  stub_ListActiveOrders :: "int \<Rightarrow> string \<Rightarrow> string list \<Rightarrow> ('s, order list) rpc"
  stub_ListOrders :: "int \<Rightarrow> list_orders_request \<Rightarrow> ('s, list_orders_response) rpc"
  stub_UpdateOrderStatus :: "int \<Rightarrow> update_order_status_request \<Rightarrow> ('s, order) rpc"

definition NewOrderClient :: "'s order_stub \<Rightarrow> int \<Rightarrow> 's orders_api" where
  "NewOrderClient stub timeout =
     \<lparr>CreateOrder = stub_CreateOrder stub timeout, GetOrder = stub_GetOrder stub timeout,
      ListActiveOrders = stub_ListActiveOrders stub timeout, ListOrders = stub_ListOrders stub timeout,
      UpdateOrderStatus = stub_UpdateOrderStatus stub timeout\<rparr>"

section \<open>loyalty_client.go\<close>

text \<open>
  The interceptor sets the limit on a call whose context has none; the handlers' contexts have none.
  The stub takes what limit there is.
\<close>

definition timeoutInterceptor :: "int \<Rightarrow> (int option \<Rightarrow> 'a) \<Rightarrow> int option \<Rightarrow> 'a" where
  "timeoutInterceptor d invoker deadline =
     invoker (if deadline = None \<and> 0 < d then Some d else deadline)"

definition NewLoyaltyClient :: "(int option \<Rightarrow> 's loyalty_api) \<Rightarrow> int \<Rightarrow> 's loyalty_api" where
  "NewLoyaltyClient stub timeout = timeoutInterceptor timeout stub None"

section \<open>notification_client.go\<close>

record login_code_request =
  slc_Phone :: string
  slc_Code :: string
  slc_ValidSeconds :: i32

type_synonym 's notification_stub = "int option \<Rightarrow> login_code_request \<Rightarrow> ('s, unit) rpc"

text \<open>The conversion of the seconds keeps the low 32 bits.\<close>

definition SendLoginCode :: "'s notification_stub \<Rightarrow> int \<Rightarrow> string \<Rightarrow> string \<Rightarrow> int \<Rightarrow> ('s, unit) rpc" where
  "SendLoginCode stub timeout phone code validFor =
     wrapped_call ''send login code''
       (timeoutInterceptor timeout stub None
          \<lparr>slc_Phone = phone, slc_Code = code, slc_ValidSeconds = word_of_int (int_seconds validFor)\<rparr>)"

end
