(* ===== verification/App.thy ===== *)
theory App
  imports Server Grpc_Server Config Clients
begin

text \<open>
  The wiring of internal/app/app.go: which component is built from which part of the configuration and
  handed to which other.  What the process finds outside (connections, the JSON codecs, the limiter of
  the checkout, fiber's body parsers) is a record of parameters.  The logger and the metrics have
  theories of their own.
\<close>

section \<open>Outside\<close>

record 's outside =
  out_redis :: "RedisConfig \<Rightarrow> 's redis"
  out_ping :: "'s redis \<Rightarrow> ('s, unit) op"
  out_crm :: "string \<Rightarrow> go_error + 's crm_stub"
  out_order :: "string \<Rightarrow> go_error + 's order_stub"
  out_loyalty :: "string \<Rightarrow> go_error + (int option \<Rightarrow> 's loyalty_api)"
  out_notify :: "string \<Rightarrow> go_error + 's notification_stub"
  out_platform :: "'s platform"
  out_jwt :: jwt_lib
  out_pairing_json :: "(PairingCodeData \<Rightarrow> go_error + string) \<times> (string \<Rightarrow> go_error + PairingCodeData)"
  out_code_json :: "(LoginCode \<Rightarrow> go_error + string) \<times> (string \<Rightarrow> go_error + LoginCode)"
  out_menu_json :: "(menu \<Rightarrow> go_error + string) \<times> (string \<Rightarrow> go_error + menu)"
  out_parsers :: body_parsers
  out_limiter :: "i64 \<Rightarrow> string \<Rightarrow> 's \<Rightarrow> bool \<times> 's"
  out_Hostname :: string

text \<open>\<open>NewRedis\<close> of pkg/cache/redis.go.\<close>

definition NewRedis :: "'s outside \<Rightarrow> RedisConfig \<Rightarrow> ('s, 's redis) op" where
  "NewRedis X cfg s =
     (case out_ping X (out_redis X cfg) s of
        (Inl e, s1) \<Rightarrow> (Inl (Wrapped (''redis ping '' @ redis_Host cfg @ '':'' @ redis_Port cfg) e), s1)
      | (Inr _, s1) \<Rightarrow> (Inr (out_redis X cfg), s1))"

section \<open>The Kafka consumers\<close>

text \<open>
  What each is made with: the topic, the group, what it does with a message (\<open>InvalidateEvent\<close>,
  \<open>Broadcast\<close> and \<open>HandleOrderEvent\<close> of the theory \<open>Consumers\<close>) and the options.
\<close>

datatype event_task = Invalidate_menus | Broadcast_menus | Push_orders

record consumer_plan =
  cp_Topic :: string
  cp_GroupID :: string
  cp_Task :: event_task
  cp_Options :: "kafka_option list"

definition plan_consumers :: "KafkaConfig \<Rightarrow> string \<Rightarrow> consumer_plan list" where
  "plan_consumers k host =
     (if kafka_Brokers k = [] then []
      else [\<lparr>cp_Topic = kafka_MenuTopic k, cp_GroupID = kafka_GroupID k, cp_Task = Invalidate_menus,
             cp_Options = [RetryHandler 5]\<rparr>,
            \<lparr>cp_Topic = kafka_MenuTopic k, cp_GroupID = kafka_GroupID k @ ''-menu-'' @ host,
             cp_Task = Broadcast_menus, cp_Options = [StartAtLatest]\<rparr>,
            \<lparr>cp_Topic = kafka_OrdersTopic k, cp_GroupID = kafka_GroupID k @ ''-orders-'' @ host,
             cp_Task = Push_orders, cp_Options = [StartAtLatest]\<rparr>])"

section \<open>The services\<close>

record 's app =
  app_server :: "'s server"
  app_grpc :: "'s device_pairing_server"
  app_consumers :: "consumer_plan list"

definition NewDeviceTokenManager :: "Config \<Rightarrow> DeviceTokenManager" where
  "NewDeviceTokenManager cfg =
     \<lparr>dm_secret = jwtc_DeviceSecret (cfg_JWT cfg), dm_issuer = jwtc_Issuer (cfg_JWT cfg),
      dm_ttl = jwtc_DeviceTTL (cfg_JWT cfg)\<rparr>"

definition NewCustomerTokenManager :: "Config \<Rightarrow> CustomerTokenManager" where
  "NewCustomerTokenManager cfg =
     \<lparr>cm_secret = cac_JWTSecret (cfg_Customer cfg), cm_issuer = jwtc_Issuer (cfg_JWT cfg),
      cm_accessTTL = cac_AccessTTL (cfg_Customer cfg), cm_kioskTTL = cac_KioskSessionTTL (cfg_Customer cfg)\<rparr>"

definition NewOrderService ::
  "'s orders_api \<Rightarrow> 's crm_api \<Rightarrow> 's menu_service \<Rightarrow> 's loyalty_api \<Rightarrow> CustomerTokenManager \<Rightarrow> 's platform \<Rightarrow> jwt_lib
     \<Rightarrow> 's order_service" where
  "NewOrderService orders crm menu loyalty tokens P L =
     \<lparr>os_orders = orders, os_crm = crm, os_GetMenu = GetMenu menu, os_loyalty = loyalty,
      os_VerifyKioskSession = VerifyKioskSession P L tokens, os_uuid_String = uuid_String P,
      os_uuid_NewString = uuid_NewString P\<rparr>"

text \<open>Everything from the repositories up to the transports.\<close>

definition wire_services ::
  "'s outside \<Rightarrow> Config \<Rightarrow> 's redis \<Rightarrow> 's crm_api \<Rightarrow> 's orders_api \<Rightarrow> 's loyalty_api
     \<Rightarrow> (string \<Rightarrow> string \<Rightarrow> int \<Rightarrow> ('s, unit) rpc) \<Rightarrow> 's app" where
  "wire_services X cfg r crm orders loyalty send =
     (let P = out_platform X; L = out_jwt X;
          menuCacheRepo = \<lparr>mcr_redis = r, mcr_Now = Now P\<rparr>;
          pairingRepo = \<lparr>pair_redis = r, pair_platform = P,
            pair_Marshal = fst (out_pairing_json X), pair_Unmarshal = snd (out_pairing_json X)\<rparr>;
          revocationRepo = \<lparr>rev_redis = r, rev_platform = P\<rparr>;
          deviceTokens = NewDeviceTokenManager cfg;
          customerTokens = NewCustomerTokenManager cfg;
          customerAuthRepo = \<lparr>car_redis = r, car_platform = P,
            car_Marshal = fst (out_code_json X), car_Unmarshal = snd (out_code_json X)\<rparr>;
          deviceAuthSvc = NewDeviceAuthService pairingRepo revocationRepo deviceTokens P L;
          menuService = NewMenuService menuCacheRepo crm (fst (out_menu_json X)) (snd (out_menu_json X));
          orderService = NewOrderService orders crm menuService loyalty customerTokens P L;
          customerService = NewCustomerService customerAuthRepo loyalty send orders customerTokens
            (cfg_Customer cfg) P L
      in \<lparr>app_server =
            \<lparr>sv_platform = P, sv_jwt = L, sv_deviceTokens = deviceTokens, sv_customerTokens = customerTokens,
             sv_revocations = NewRevocationRepository revocationRepo, sv_pairing = deviceAuthSvc,
             sv_menus = menuService, sv_crm = crm,
             sv_customers = \<lparr>ch_customers = customerService, ch_orders = orderService,
               ch_cfg = cfg_Customer cfg, ch_Now = Now P\<rparr>,
             sv_parsers = out_parsers X, sv_limiter = out_limiter X (http_PublicOrderRateLimit (cfg_HTTP cfg)),
             sv_ready = Some (\<lambda>s. case out_ping X r s of
                 (Inl e, s1) \<Rightarrow> (Inl (Wrapped ''redis'' e), s1) | (Inr _, s1) \<Rightarrow> (Inr (), s1))\<rparr>,
          app_grpc = pairing_server pairingRepo revocationRepo deviceTokens P L,
          app_consumers = plan_consumers (cfg_Kafka cfg) (out_Hostname X)\<rparr>)"

definition dial :: "string \<Rightarrow> string \<Rightarrow> go_error + 'a \<Rightarrow> go_error + 'a" where
  "dial context name conn =
     (case conn of Inl e \<Rightarrow> Inl (Wrapped context (Wrapped (''create '' @ name @ '' grpc client'') e)) | Inr c \<Rightarrow> Inr c)"

definition NewApp :: "'s outside \<Rightarrow> Config \<Rightarrow> ('s, 's app) op" where
  "NewApp X cfg s =
     (case NewRedis X (cfg_Redis cfg) s of
        (Inl e, s1) \<Rightarrow> (Inl (Wrapped ''redis'' e), s1)
      | (Inr r, s1) \<Rightarrow>
          (case dial ''crm grpc client'' ''crm'' (out_crm X (client_Address (cfg_CRM cfg))) of
             Inl e \<Rightarrow> (Inl e, s1)
           | Inr crm \<Rightarrow>
               (case dial ''order grpc client'' ''order'' (out_order X (client_Address (cfg_Order cfg))) of
                  Inl e \<Rightarrow> (Inl e, s1)
                | Inr order \<Rightarrow>
                    (case dial ''loyalty grpc client'' ''loyalty'' (out_loyalty X (client_Address (cfg_Loyalty cfg))) of
                       Inl e \<Rightarrow> (Inl e, s1)
                     | Inr loyalty \<Rightarrow>
                         (case dial ''notification grpc client'' ''notification''
                                 (out_notify X (client_Address (cfg_Notification cfg))) of
                            Inl e \<Rightarrow> (Inl e, s1)
                          | Inr notify \<Rightarrow>
                              (Inr (wire_services X cfg r
                                 (NewCRMClient crm (client_Timeout (cfg_CRM cfg)))
                                 (NewOrderClient order (client_Timeout (cfg_Order cfg)))
                                 (NewLoyaltyClient loyalty (client_Timeout (cfg_Loyalty cfg)))
                                 (SendLoginCode notify (client_Timeout (cfg_Notification cfg)))), s1))))))"


section \<open>What fiber is configured with\<close>

text \<open>\<open>NewServer\<close> and \<open>registerMiddleware\<close> of server.go; times in nanoseconds, the body limit in bytes.\<close>

record fiber_config =
  fc_AppName :: string
  fc_ReadTimeout :: int
  fc_WriteTimeout :: int
  fc_IdleTimeout :: int
  fc_DisableStartupMessage :: bool
  fc_BodyLimit :: nat
  fc_ProxyHeader :: string
  fc_EnableTrustedProxyCheck :: bool
  fc_TrustedProxies :: "string list"

definition fiber_config_of :: "Config \<Rightarrow> fiber_config" where
  "fiber_config_of cfg =
     \<lparr>fc_AppName = app_Name (cfg_App cfg), fc_ReadTimeout = http_ReadTimeout (cfg_HTTP cfg),
      fc_WriteTimeout = http_WriteTimeout (cfg_HTTP cfg), fc_IdleTimeout = http_IdleTimeout (cfg_HTTP cfg),
      fc_DisableStartupMessage = True, fc_BodyLimit = push_bit 10 256, fc_ProxyHeader = ''X-Real-IP'',
      fc_EnableTrustedProxyCheck = True,
      fc_TrustedProxies = [''10.0.0.0/8'', ''172.16.0.0/12'', ''192.168.0.0/16'', ''127.0.0.1'']\<rparr>"

record cors_config =
  co_AllowOrigins :: string
  co_AllowMethods :: string
  co_AllowHeaders :: string
  co_AllowCredentials :: bool

definition cors_config_of :: "Config \<Rightarrow> cors_config" where
  "cors_config_of cfg =
     \<lparr>co_AllowOrigins = http_CORSAllowOrigins (cfg_HTTP cfg), co_AllowMethods = ''GET,POST,PUT,DELETE,PATCH,OPTIONS'',
      co_AllowHeaders = ''Origin,Content-Type,Accept,Authorization,X-Request-ID'', co_AllowCredentials = True\<rparr>"

section \<open>Starting and shutting down\<close>

text \<open>
  The transports, with what they stand on as parameters: listening and serving return when they fail or
  are shut down, and \<open>graceful\<close> says whether all calls ended before the time for it was up.
\<close>

definition StartHTTP :: "(string \<Rightarrow> ('s, unit) op) \<Rightarrow> HTTPConfig \<Rightarrow> ('s, unit) op" where
  "StartHTTP listen cfg s =
     (case listen ('':'' @ http_Port cfg) s of
        (Inl e, s1) \<Rightarrow> (Inl (Wrapped ''http server failed'' e), s1)
      | (Inr _, s1) \<Rightarrow> (Inr (), s1))"

definition StartGRPC ::
  "(string \<Rightarrow> ('s, 'l) op) \<Rightarrow> ('l \<Rightarrow> ('s, unit) op) \<Rightarrow> GRPCConfig \<Rightarrow> ('s, unit) op" where
  "StartGRPC listen serve_on cfg s =
     (let addr = '':'' @ grpc_Port cfg in
      case listen addr s of
        (Inl e, s1) \<Rightarrow> (Inl (Wrapped (''grpc listen '' @ addr) e), s1)
      | (Inr lis, s1) \<Rightarrow>
          (case serve_on lis s1 of
             (Inl e, s2) \<Rightarrow> (Inl (Wrapped ''grpc serve'' e), s2)
           | (Inr _, s2) \<Rightarrow> (Inr (), s2)))"

definition ShutdownGRPC :: "('s \<Rightarrow> bool \<times> 's) \<Rightarrow> ('s \<Rightarrow> 's) \<Rightarrow> go_error \<Rightarrow> ('s, unit) op" where
  "ShutdownGRPC graceful stop ctx_err s =
     (case graceful s of (True, s1) \<Rightarrow> (Inr (), s1) | (False, s1) \<Rightarrow> (Inl ctx_err, stop s1))"

text \<open>
  The application is started and runs, until its select wakes up for a signal or for a transport that
  failed.  A transport that just returns wakes nobody; \<open>None\<close> is an application that runs on.
\<close>

datatype wake_up = Signalled | Http_failed go_error | Grpc_failed go_error

definition StartApp ::
  "('s \<Rightarrow> 's) list \<Rightarrow> ('s \<Rightarrow> (wake_up \<times> 's) option) \<Rightarrow> 's \<Rightarrow> ((go_error + unit) \<times> 's) option" where
  "StartApp consumers runs s =
     (case runs (fold (\<lambda>start. start) consumers s) of
        None \<Rightarrow> None
      | Some (Signalled, s1) \<Rightarrow> Some (Inr (), s1)
      | Some (Http_failed e, s1) \<Rightarrow> Some (Inl (Wrapped ''http'' e), s1)
      | Some (Grpc_failed e, s1) \<Rightarrow> Some (Inl (Wrapped ''grpc'' e), s1))"

text \<open>What there is to stop or close; the error is the list that \<open>errors.Join\<close> joins.\<close>

record 's resources =
  res_consumers :: "('s, unit) op list"
  res_order :: "('s, unit) op"
  res_loyalty :: "('s, unit) op"
  res_notify :: "('s, unit) op"
  res_http :: "('s, unit) op"
  res_crm :: "('s, unit) op"
  res_grpc :: "('s, unit) op"
  res_redis :: "('s, unit) op"

definition closing :: "string \<Rightarrow> ('s, unit) op \<Rightarrow> go_error list \<times> 's \<Rightarrow> go_error list \<times> 's" where
  "closing name close w =
     (let (errs, s) = w in
      case close s of (Inl e, s1) \<Rightarrow> (errs @ [Wrapped name e], s1) | (Inr _, s1) \<Rightarrow> (errs, s1))"

definition closing_quietly :: "('s, unit) op \<Rightarrow> go_error list \<times> 's \<Rightarrow> go_error list \<times> 's" where
  "closing_quietly close w = (let (errs, s) = w in (errs, snd (close s)))"

definition ShutdownApp :: "'s resources \<Rightarrow> 's \<Rightarrow> go_error list \<times> 's" where
  "ShutdownApp R s =
     (let w1 = fold (closing ''kafka consumer'') (res_consumers R) ([], s);
          w2 = closing_quietly (res_notify R) (closing_quietly (res_loyalty R) (closing_quietly (res_order R) w1));
          w3 = closing ''crm client'' (res_crm R) (closing ''http shutdown'' (res_http R) w2)
      in closing ''redis close'' (res_redis R) (closing ''grpc shutdown'' (res_grpc R) w3))"

lemma closing_state: "snd (closing name f w) = snd (f (snd w))"
  by (auto simp: closing_def split: prod.split sum.split)

lemma closing_all_state: "snd (fold (closing name) fs w) = fold (\<lambda>f s. snd (f s)) fs (snd w)"
  by (induction fs arbitrary: w) (simp_all add: closing_state)

lemma closing_quietly_state: "snd (closing_quietly f w) = snd (f (snd w))"
  by (simp add: closing_quietly_def split_beta)

text \<open>Nothing that fails keeps the rest from being released.\<close>

lemma ShutdownApp_releases:
  "snd (ShutdownApp R s) =
     fold (\<lambda>f s. snd (f s))
       (res_consumers R @ [res_order R, res_loyalty R, res_notify R, res_http R, res_crm R, res_grpc R, res_redis R]) s"
  by (simp add: ShutdownApp_def closing_state closing_all_state closing_quietly_state)

section \<open>A sign-in code in production\<close>

lemma NewApp_customers:
  assumes "NewApp X c s0 = (Inr a, s1)"
  shows "cs_cfg (ch_customers (sv_customers (app_server a))) = cfg_Customer c"
  using assms
  by (auto simp: NewApp_def wire_services_def NewCustomerService_def Let_def split: prod.splits sum.splits)

text \<open>
  C40. In production a sign-in code only ever leaves by SMS, from the environment to the answer.  When the
  configuration loaded from an environment whose \<open>APP_ENV\<close> is production, the server built from it
  answers a request for a code without the code in the answer, whatever the other variables, the
  \<open>.env\<close> files, the request and the services outside are.
\<close>

theorem production_code_stays_secret:
  assumes "\<And>xs. set (ord xs) = set xs" and "Load ord L F E0 = Inr c"
    and "trim_space (os_Getenv E0 ''APP_ENV'') = ''production''" and app: "NewApp X c s0 = (Inr a, s1)"
    and "route (rq_Method rq) (rq_Path rq) = Some Ep_RequestCode"
    and "serve (app_server a) rq s = (Json (Success code (A_CodeSent sent)) ck, s')"
  shows "sent_DevCode sent = ''''"
proof -
  let ?S = "ch_customers (sv_customers (app_server a))"
  from assms(5,6) obtain phone where "RequestCode ?S phone (rq_IP rq) s = (Inr sent, s')"
    by (auto simp: serve_def RequestCodeHandler_def BadRequest_def ErrorResponse_def FromError_def go_simps
        InternalResponse_def ok_def apfst_def map_prod_def
        split: option.splits sum.splits prod.splits go_error.splits error_type.splits)
  with production_never_echoes [OF assms(1-3) NewApp_customers [OF app]] show ?thesis by blast
qed

section \<open>An application to run it on\<close>

definition demo_outside :: "redis_db outside" where
  "demo_outside =
     \<lparr>out_redis = (\<lambda>_. ref_redis), out_ping = (\<lambda>_ d. (Inr (), d)),
      out_crm = (\<lambda>_. Inr \<lparr>stub_GetEffectiveMenu = (\<lambda>_ _ d. (Inr short_menu, d)), stub_ListRegions = (\<lambda>_ d. (Inr [], d)),
        stub_ListRestaurants = (\<lambda>_ _ d. (Inr [], d)), stub_GetRestaurant = (\<lambda>_ _ d. (Inl (RpcPlain ''unused''), d))\<rparr>),
      out_order = (\<lambda>_. Inr \<lparr>stub_CreateOrder = (\<lambda>_. CreateOrder desk_orders), stub_GetOrder = (\<lambda>_. GetOrder desk_orders),
        stub_ListActiveOrders = (\<lambda>_. ListActiveOrders desk_orders), stub_ListOrders = (\<lambda>_. ListOrders desk_orders),
        stub_UpdateOrderStatus = (\<lambda>_. UpdateOrderStatus desk_orders)\<rparr>),
      out_loyalty = (\<lambda>_. Inr (\<lambda>_. desk_loyalty)), out_notify = (\<lambda>_. Inr (\<lambda>_ _ d. (Inr (), d))),
      out_platform = ref_platform, out_jwt = desk_jwt,
      out_pairing_json = (\<lambda>_. Inl (Text ''unused''), \<lambda>_. Inl (Text ''unused'')),
      out_code_json = (\<lambda>c. Inr (ref_encode c), ref_decode),
      out_menu_json = (\<lambda>_. Inl (Text ''unused''), \<lambda>_. Inl (Text ''unused'')),
      out_parsers = hall_parsers, out_limiter = (\<lambda>_ _ d. (True, d)),
      out_Hostname = ''pod-1''\<rparr>"

definition code_request :: request where
  "code_request =
     \<lparr>rq_Method = ''POST'', rq_Path = [''api'', ''v1'', ''customer'', ''auth'', ''code''],
      rq_Authorization = '''', rq_Body = desk_phone, rq_Query = (\<lambda>_. ''''),
      rq_QueryInt = (\<lambda>_ n. n), rq_Cookie = (\<lambda>_. ''''), rq_IP = ''10.0.0.1''\<rparr>"

lemma code_route [simp]: "route (rq_Method code_request) (rq_Path code_request) = Some Ep_RequestCode"
  by (simp add: code_request_def route_def)

lemma demo_NewApp: "\<exists>a. NewApp demo_outside c d = (Inr a, d)"
  by (simp add: NewApp_def NewRedis_def dial_def demo_outside_def)

lemma demo_app:
  assumes "NewApp demo_outside c d = (Inr a, d')"
  shows "sv_parsers (app_server a) = hall_parsers"
    and "cs_repo (ch_customers (sv_customers (app_server a))) = NewCustomerAuthRepository ref_auth"
    and "cs_platform (ch_customers (sv_customers (app_server a))) = ref_platform"
    and "cs_SendLoginCode (ch_customers (sv_customers (app_server a))) p k t d1 = (Inr (), d1)"
  using assms
  by (auto simp: NewApp_def NewRedis_def dial_def demo_outside_def wire_services_def Let_def
      NewCustomerService_def ref_auth_def SendLoginCode_def wrapped_call_def timeoutInterceptor_def)

lemma any_desk_request:
  assumes "cs_repo S = NewCustomerAuthRepository ref_auth" "cs_platform S = ref_platform"
    "\<And>p code t d'. cs_SendLoginCode S p code t d' = (Inr (), d')"
  shows "\<exists>sent d'. RequestCode S desk_phone ip (empty_db 0) = (Inr sent, d')"
proof -
  obtain sent d' where "RequestCode desk desk_phone ip (empty_db 0) = (Inr sent, d')"
    using desk_request [OF quiet_desk] by blast
  then obtain d1 where "throttled desk desk_phone ip (empty_db 0) = (Inr (), d1)"
    by (auto simp: RequestCode_def Let_def split: if_splits prod.splits sum.splits)
  moreover have "cs_repo desk = NewCustomerAuthRepository ref_auth" by (simp add: NewCustomerService_def)
  then have "throttled S desk_phone ip d = throttled desk desk_phone ip d" for d
    by (simp only: throttled_def assms(1))
  ultimately show ?thesis
    by (simp add: RequestCode_def Let_def send_code_def assms desk_digits NewCustomerAuthRepository_def desk_SaveCode)
qed

lemma demo_serves:
  "\<exists>a sent d'. NewApp demo_outside c (empty_db 0) = (Inr a, empty_db 0)
     \<and> serve (app_server a) code_request (empty_db 0) = (Json (Success 200 (A_CodeSent sent)) None, d')"
proof -
  obtain a where a: "NewApp demo_outside c (empty_db 0) = (Inr a, empty_db 0)"
    using demo_NewApp by blast
  from any_desk_request [OF demo_app(2-4) [OF a]] obtain sent d' where
    "RequestCode (ch_customers (sv_customers (app_server a))) desk_phone ''10.0.0.1'' (empty_db 0) = (Inr sent, d')"
    by blast
  then have "serve (app_server a) code_request (empty_db 0) = (Json (Success 200 (A_CodeSent sent)) None, d')"
    by (simp add: serve_def RequestCodeHandler_def demo_app(1) [OF a] hall_parsers_def)
      (simp add: code_request_def ok_def)
  with a show ?thesis by blast
qed

theorem production_code_stays_secret_witness:
  "\<exists>a sent d'. NewApp demo_outside prod_config (empty_db 0) = (Inr a, empty_db 0)
     \<and> serve (app_server a) code_request (empty_db 0) = (Json (Success 200 (A_CodeSent sent)) None, d')
     \<and> sent_DevCode sent = ''''"
proof -
  have "trim_space (os_Getenv prod_vars ''APP_ENV'') = ''production''" by (simp add: prod_env_def)
  note secret = production_code_stays_secret [OF _ prod_loads this]
  obtain a sent d' where "NewApp demo_outside prod_config (empty_db 0) = (Inr a, empty_db 0)"
    "serve (app_server a) code_request (empty_db 0) = (Json (Success 200 (A_CodeSent sent)) None, d')"
    using demo_serves by blast
  with secret [OF refl this(1) code_route this(2)] show ?thesis by blast
qed

end
