(* ===== verification/Logger.thy ===== *)
theory Logger
  imports Env
begin

text \<open>
  The logger (pkg/logger/logger.go): its levels, where it writes, the attributes a derived logger
  carries, and the text of a line.  Attributes are a Go slice, that is a window on an array that other
  slices may share, so the arrays are a store.  slog's JSON handler is a handler of its own; how it
  renders a line is not modelled.  How much room \<open>append\<close> allots is the runtime's choice and a parameter.
\<close>

section \<open>Slices\<close>

text \<open>A slice starts at the beginning of its array here; an array is the cells written so far.\<close>

record slice =
  sl_array :: nat
  sl_len :: nat
  sl_cap :: nat

record 'a arrays =
  cells :: "nat \<Rightarrow> 'a list"
  fresh :: nat

definition contents :: "'a arrays \<Rightarrow> slice \<Rightarrow> 'a list" where
  "contents A x = take (sl_len x) (cells A (sl_array x))"

text \<open>\<open>append\<close> writes into the array while there is room, and copies into a larger one otherwise.\<close>

definition append_slice :: "(nat \<Rightarrow> nat \<Rightarrow> nat) \<Rightarrow> slice \<Rightarrow> 'a list \<Rightarrow> 'a arrays \<Rightarrow> slice \<times> 'a arrays" where
  "append_slice grow x ys A =
     (let n = sl_len x + length ys; old = cells A (sl_array x) in
      if n \<le> sl_cap x then
        (x\<lparr>sl_len := n\<rparr>,
         A\<lparr>cells := (cells A)(sl_array x := take (sl_len x) old @ ys @ drop n old)\<rparr>)
      else
        (\<lparr>sl_array = fresh A, sl_len = n, sl_cap = max n (grow (sl_cap x) n)\<rparr>,
         A\<lparr>cells := (cells A)(fresh A := take (sl_len x) old @ ys), fresh := fresh A + 1\<rparr>))"

text \<open>A slice that stands on its array.\<close>

definition slice_ok :: "'a arrays \<Rightarrow> slice \<Rightarrow> bool" where
  "slice_ok A x \<longleftrightarrow> sl_array x < fresh A \<and> sl_len x \<le> length (cells A (sl_array x))
     \<and> length (cells A (sl_array x)) \<le> sl_cap x"

section \<open>Levels and writers\<close>

definition LevelDebug :: int where "LevelDebug = -4"
definition LevelInfo :: int where "LevelInfo = 0"
definition LevelWarn :: int where "LevelWarn = 4"
definition LevelError :: int where "LevelError = 8"

definition parseLevel :: "string \<Rightarrow> int" where
  "parseLevel level =
     (let v = lower level in
      if v = ''debug'' then LevelDebug else if v = ''warn'' then LevelWarn
      else if v = ''error'' then LevelError else LevelInfo)"

datatype writer = Stdout | File string nat | Stdout_and_file string nat

text \<open>A file is rotated at 100 megabytes.\<close>

definition createWriter :: "string \<Rightarrow> string \<Rightarrow> writer" where
  "createWriter output filePath =
     (if output = ''file'' \<or> output = ''both'' then
        let path = (if filePath = '''' then ''logs/app.log'' else filePath)
        in if output = ''both'' then Stdout_and_file path 100 else File path 100
      else Stdout)"

section \<open>The handlers\<close>

type_synonym attr = "string \<times> string"

record text_handler =
  th_writer :: writer
  th_level :: int
  th_attrs :: slice

datatype log_handler = Json_handler writer int "attr list" | Text_handler text_handler

definition newTextHandler :: "writer \<Rightarrow> int \<Rightarrow> attr arrays \<Rightarrow> text_handler \<times> attr arrays" where
  "newTextHandler w level A =
     (\<lparr>th_writer = w, th_level = level, th_attrs = \<lparr>sl_array = fresh A, sl_len = 0, sl_cap = 0\<rparr>\<rparr>,
      A\<lparr>cells := (cells A)(fresh A := []), fresh := fresh A + 1\<rparr>)"

definition Enabled :: "text_handler \<Rightarrow> int \<Rightarrow> bool" where
  "Enabled h level = (th_level h \<le> level)"

definition WithAttrs ::
  "(nat \<Rightarrow> nat \<Rightarrow> nat) \<Rightarrow> text_handler \<Rightarrow> attr list \<Rightarrow> attr arrays \<Rightarrow> text_handler \<times> attr arrays" where
  "WithAttrs grow h attrs A =
     (let (x, A1) = append_slice grow (th_attrs h) attrs A
      in (\<lparr>th_writer = th_writer h, th_level = th_level h, th_attrs = x\<rparr>, A1))"

definition WithGroup :: "text_handler \<Rightarrow> string \<Rightarrow> text_handler" where
  "WithGroup h name = h"

text \<open>A record of slog; its time is given as it is formatted.\<close>

record log_record =
  lr_Time :: string
  lr_Level :: int
  lr_Message :: string
  lr_Attrs :: "attr list"

definition colorReset :: string where "colorReset = [CHR 0x1B] @ ''[0m''"
definition colorRed :: string where "colorRed = [CHR 0x1B] @ ''[31m''"
definition colorGreen :: string where "colorGreen = [CHR 0x1B] @ ''[32m''"
definition colorYellow :: string where "colorYellow = [CHR 0x1B] @ ''[33m''"
definition colorCyan :: string where "colorCyan = [CHR 0x1B] @ ''[36m''"
definition colorGray :: string where "colorGray = [CHR 0x1B] @ ''[90m''"

definition writeAttr :: "attr \<Rightarrow> string" where
  "writeAttr a = '' '' @ colorGray @ fst a @ ''='' @ colorReset @ snd a"

definition level_text :: "int \<Rightarrow> string" where
  "level_text level =
     (if level = LevelDebug then colorCyan @ ''DBG'' else if level = LevelInfo then colorGreen @ ''INF''
      else if level = LevelWarn then colorYellow @ ''WRN'' else if level = LevelError then colorRed @ ''ERR''
      else '''')"

text \<open>
  The line \<open>Handle\<close> prints, when no other line is built at the same time: the handler's buffer is
  not locked.
\<close>

definition log_line :: "attr arrays \<Rightarrow> text_handler \<Rightarrow> log_record \<Rightarrow> string" where
  "log_line A h r =
     colorGray @ lr_Time r @ colorReset @ '' '' @ level_text (lr_Level r) @ colorReset @ '' '' @ lr_Message r
     @ concat (map writeAttr (filter (\<lambda>a. fst a \<noteq> ''service'') (contents A (th_attrs h))))
     @ concat (map writeAttr (filter (\<lambda>a. fst a \<noteq> ''service'') (lr_Attrs r))) @ [CHR 0x0A]"

section \<open>Loggers\<close>

record log_config =
  lc_Level :: string
  lc_Format :: string
  lc_Output :: string
  lc_FilePath :: string
  lc_Service :: string

text \<open>slog's \<open>With\<close>: nothing to add is the same logger.\<close>

definition log_With ::
  "(nat \<Rightarrow> nat \<Rightarrow> nat) \<Rightarrow> log_handler \<Rightarrow> attr list \<Rightarrow> attr arrays \<Rightarrow> log_handler \<times> attr arrays" where
  "log_With grow l attrs A =
     (if attrs = [] then (l, A)
      else case l of
             Json_handler w level old \<Rightarrow> (Json_handler w level (old @ attrs), A)
           | Text_handler h \<Rightarrow> apfst Text_handler (WithAttrs grow h attrs A))"

definition NewLogger ::
  "(nat \<Rightarrow> nat \<Rightarrow> nat) \<Rightarrow> log_config option \<Rightarrow> attr arrays \<Rightarrow> log_handler \<times> attr arrays" where
  "NewLogger grow cfg A =
     (let c = (case cfg of
                 None \<Rightarrow> \<lparr>lc_Level = ''info'', lc_Format = ''text'', lc_Output = ''stdout'', lc_FilePath = '''',
                          lc_Service = ''kfc-crm''\<rparr>
               | Some c \<Rightarrow> c);
          level = parseLevel (lc_Level c);
          w = createWriter (lc_Output c) (lc_FilePath c)
      in if lc_Format c = ''json'' then (Json_handler w level [(''service'', lc_Service c)], A)
         else let (h, A1) = newTextHandler w level A
              in apfst Text_handler (WithAttrs grow h [(''service'', lc_Service c)] A1))"

definition WithRequestID ::
  "(nat \<Rightarrow> nat \<Rightarrow> nat) \<Rightarrow> log_handler \<Rightarrow> string \<Rightarrow> attr arrays \<Rightarrow> log_handler \<times> attr arrays" where
  "WithRequestID grow l requestID A =
     (if requestID = '''' then (l, A) else log_With grow l [(''request_id'', requestID)] A)"

definition LogWithError ::
  "(nat \<Rightarrow> nat \<Rightarrow> nat) \<Rightarrow> log_handler \<Rightarrow> go_error option \<Rightarrow> attr arrays \<Rightarrow> log_handler \<times> attr arrays" where
  "LogWithError grow l err A =
     (case err of None \<Rightarrow> (l, A) | Some e \<Rightarrow> log_With grow l [(''error'', error_text e)] A)"

section \<open>What a derived logger carries\<close>

text \<open>The new slice has the old elements and the new ones.\<close>

lemma append_contents:
  assumes "slice_ok A x" and "append_slice grow x ys A = (y, A1)"
  shows "contents A1 y = contents A x @ ys \<and> slice_ok A1 y"
  using assms by (auto simp: append_slice_def slice_ok_def contents_def Let_def split: if_splits)

text \<open>
  A slice keeps its elements when another one is appended to, unless both share the array and it reaches
  beyond the other's length.
\<close>

lemma append_keeps:
  assumes "slice_ok A z" and "append_slice grow x ys A = (y, A1)"
    and "sl_array z = sl_array x \<Longrightarrow> sl_len z \<le> sl_len x"
  shows "contents A1 z = contents A z"
  using assms by (auto simp: append_slice_def slice_ok_def contents_def Let_def min_def split: if_splits)

text \<open>
  Deriving a logger adds its attributes to those of its parent, and changes no logger except one that
  was derived before from the same parent into room the parent's array still had.
\<close>

lemma WithAttrs_carries:
  assumes "slice_ok A (th_attrs h)" and "WithAttrs grow h attrs A = (h1, A1)"
  shows "contents A1 (th_attrs h1) = contents A (th_attrs h) @ attrs \<and> slice_ok A1 (th_attrs h1)
    \<and> th_level h1 = th_level h \<and> contents A1 (th_attrs h) = contents A (th_attrs h)"
  using append_contents [OF assms(1), of grow attrs] append_keeps [OF assms(1), of grow "th_attrs h" attrs] assms(2)
  by (auto simp: WithAttrs_def split: prod.splits)

text \<open>
  That exception is real: of two loggers derived from a parent with room left, the first logs the
  attribute of the second.
\<close>

theorem siblings_clobber:
  assumes "slice_ok A (th_attrs h)" and "sl_len (th_attrs h) < sl_cap (th_attrs h)"
    and "WithAttrs grow h [a] A = (h1, A1)" and "WithAttrs grow h [b] A1 = (h2, A2)"
  shows "contents A2 (th_attrs h1) = contents A (th_attrs h) @ [b]"
  using assms by (auto simp: WithAttrs_def append_slice_def contents_def slice_ok_def Let_def)

text \<open>The levels a configuration may name.\<close>

lemma parseLevel_known:
  "parseLevel ''debug'' = LevelDebug" "parseLevel ''info'' = LevelInfo"
  "parseLevel ''warn'' = LevelWarn" "parseLevel ''error'' = LevelError"
  by code_simp+

end
