(* ===== verification/Process.thy ===== *)
theory Process
  imports App Logger
begin

text \<open>
  The process (cmd/userapi/main.go): it loads the configuration, builds the application, runs it until a
  signal or a failing transport, and shuts it down.  The logger is made first of all the parts of the
  application; what it prints on the way is left out.
\<close>

section \<open>main.go\<close>

text \<open>
  What the process is given by its surroundings: the order of ranging over a map, the environment and its
  files, the services outside, how the consumers start and what becomes of a running application, and
  what an application holds that has to be released.
\<close>

record 's process =
  pr_ord :: "(string \<times> string) list \<Rightarrow> (string \<times> string) list"
  pr_loader :: dotenv_loader
  pr_files :: file_system
  pr_env :: os_env
  pr_outside :: "'s outside"
  pr_consumers :: "'s app \<Rightarrow> ('s \<Rightarrow> 's) list"
  pr_runs :: "'s app \<Rightarrow> 's \<Rightarrow> (wake_up \<times> 's) option"
  pr_resources :: "'s app \<Rightarrow> 's resources"

text \<open>The logger \<open>New\<close> makes from the configuration.\<close>

definition app_logger :: "Config \<Rightarrow> log_config" where
  "app_logger cfg =
     \<lparr>lc_Level = log_Level (cfg_Logger cfg), lc_Format = log_Format (cfg_Logger cfg),
      lc_Output = log_Output (cfg_Logger cfg), lc_FilePath = log_FilePath (cfg_Logger cfg),
      lc_Service = log_Service (cfg_Logger cfg)\<rparr>"

text \<open>
  The exit status: 2 for a panic, 1 for \<open>log.Fatalf\<close>, 0 for returning.  An error of \<open>Start\<close> is only
  logged.  \<open>None\<close> is a process that runs on.
\<close>

definition main :: "'s process \<Rightarrow> 's \<Rightarrow> (nat \<times> 's) option" where
  "main P s =
     (case Load (pr_ord P) (pr_loader P) (pr_files P) (pr_env P) of
        Inl (Panics _) \<Rightarrow> Some (2, s)
      | Inl (Validation_failed _) \<Rightarrow> Some (1, s)
      | Inr cfg \<Rightarrow>
          (case NewApp (pr_outside P) cfg s of
             (Inl _, s1) \<Rightarrow> Some (1, s1)
           | (Inr a, s1) \<Rightarrow>
               (case StartApp (pr_consumers P a) (pr_runs P a) s1 of
                  None \<Rightarrow> None
                | Some (_, s2) \<Rightarrow>
                    (case ShutdownApp (pr_resources P a) s2 of
                       ([], s3) \<Rightarrow> Some (0, s3)
                     | (_ # _, s3) \<Rightarrow> Some (1, s3)))))"

section \<open>How the process ends\<close>

text \<open>
  The operations that release what the application holds, in their order, each with whether its error
  is reported; running them all; and whether every error that would be reported stays out.
\<close>

definition releases :: "'s resources \<Rightarrow> (bool \<times> ('s, unit) op) list" where
  "releases R = map (\<lambda>f. (True, f)) (res_consumers R)
     @ [(False, res_order R), (False, res_loyalty R), (False, res_notify R), (True, res_http R),
        (True, res_crm R), (True, res_grpc R), (True, res_redis R)]"

fun released :: "(bool \<times> ('s, unit) op) list \<Rightarrow> 's \<Rightarrow> 's" where
  "released [] s = s"
| "released ((reported, f) # fs) s = released fs (snd (f s))"

fun clean :: "(bool \<times> ('s, unit) op) list \<Rightarrow> 's \<Rightarrow> bool" where
  "clean [] s = True"
| "clean ((reported, f) # fs) s = ((reported \<longrightarrow> fst (f s) = Inr ()) \<and> clean fs (snd (f s)))"

lemma released_append [simp]: "released (fs @ gs) s = released gs (released fs s)"
  by (induction fs s rule: released.induct) auto

lemma clean_append [simp]: "clean (fs @ gs) s \<longleftrightarrow> clean fs s \<and> clean gs (released fs s)"
  by (induction fs s rule: clean.induct) auto

lemma closing_effect:
  "closing name f (errs, s) = (errs', s') \<Longrightarrow> s' = released [(True, f)] s \<and> (errs' = [] \<longleftrightarrow> errs = [] \<and> clean [(True, f)] s)"
  by (auto simp: closing_def split: prod.splits sum.splits)

lemma closing_all_effect:
  "fold (closing name) fs (errs, s) = (errs', s') \<Longrightarrow>
     s' = released (map (\<lambda>f. (True, f)) fs) s \<and> (errs' = [] \<longleftrightarrow> errs = [] \<and> clean (map (\<lambda>f. (True, f)) fs) s)"
proof (induction fs arbitrary: errs s)
  case (Cons f fs)
  obtain errs1 s1 where 1: "closing name f (errs, s) = (errs1, s1)" by force
  with Cons.prems have "fold (closing name) fs (errs1, s1) = (errs', s')" by simp
  from Cons.IH [OF this] closing_effect [OF 1] show ?case by auto
qed simp

lemma ShutdownApp_effect:
  assumes "ShutdownApp R s = (errs, s')"
  shows "s' = released (releases R) s \<and> (errs = [] \<longleftrightarrow> clean (releases R) s)"
proof -
  obtain e1 s1 where 1: "fold (closing ''kafka consumer'') (res_consumers R) ([], s) = (e1, s1)" by force
  obtain s2 where 2: "s2 = released [(False, res_order R), (False, res_loyalty R), (False, res_notify R)] s1" by blast
  obtain e3 s3 where 3: "closing ''http shutdown'' (res_http R) (e1, s2) = (e3, s3)" by force
  obtain e4 s4 where 4: "closing ''crm client'' (res_crm R) (e3, s3) = (e4, s4)" by force
  obtain e5 s5 where 5: "closing ''grpc shutdown'' (res_grpc R) (e4, s4) = (e5, s5)" by force
  have 6: "closing ''redis close'' (res_redis R) (e5, s5) = (errs, s')"
    using assms 1 2 3 4 5 by (simp add: ShutdownApp_def closing_quietly_def split_beta)
  show ?thesis
    using closing_all_effect [OF 1] 2 closing_effect [OF 3] closing_effect [OF 4] closing_effect [OF 5] closing_effect [OF 6]
    by (auto simp: releases_def)
qed


end
