(* ===== verification/Metrics.thy ===== *)
theory Metrics
  imports Grpc_Server Kafka
begin

text \<open>
  The metrics (pkg/metrics/metrics.go): what is counted and timed of HTTP requests, of gRPC calls and of
  Kafka messages.  The registry is a state of its own beside the world.  The lemmas show what a request
  adds to it, and that measuring changes neither the answer nor the world, which is why the other
  theories leave it out.  The text format of the scrape is the Prometheus library's.
\<close>

section \<open>The registry\<close>

text \<open>Counters by their labels, and the observations of the histograms in nanoseconds.\<close>

record registry =
  httpRequests :: "string \<times> string \<times> int \<Rightarrow> nat"
  httpDuration :: "string \<times> string \<Rightarrow> int list"
  grpcRequests :: "string \<times> grpc_code option \<Rightarrow> nat"
  grpcDuration :: "string \<Rightarrow> int list"
  KafkaMessages :: "string \<times> string \<Rightarrow> nat"

definition inc :: "'l \<Rightarrow> ('l \<Rightarrow> nat) \<Rightarrow> 'l \<Rightarrow> nat" where
  "inc l c = c(l := Suc (c l))"

definition observe :: "'l \<Rightarrow> int \<Rightarrow> ('l \<Rightarrow> int list) \<Rightarrow> 'l \<Rightarrow> int list" where
  "observe l x h = h(l := h l @ [x])"

definition new_registry :: registry where
  "new_registry =
     \<lparr>httpRequests = (\<lambda>_. 0), httpDuration = (\<lambda>_. []), grpcRequests = (\<lambda>_. 0), grpcDuration = (\<lambda>_. []),
      KafkaMessages = (\<lambda>_. 0)\<rparr>"

section \<open>HTTP\<close>

text \<open>
  What the rest of the chain comes to: the status of the response, and the error it returned, if any,
  one of fiber's with a status of its own or another.
\<close>

datatype handler_error = Fiber_error int | Other_error go_error

definition counted_status :: "int \<Rightarrow> handler_error option \<Rightarrow> int" where
  "counted_status status err =
     (case err of None \<Rightarrow> status | Some (Fiber_error code) \<Rightarrow> code | Some (Other_error _) \<Rightarrow> 500)"

definition route_label :: "string \<Rightarrow> string" where
  "route_label path = (if path = '''' \<or> path = ''/'' then ''unmatched'' else path)"

text \<open>
  \<open>c.Next()\<close> is an operation with its status and error; the path of the matched route, a template, is
  fiber's.
\<close>

definition FiberMetrics ::
  "'s clock \<Rightarrow> string \<Rightarrow> string \<Rightarrow> ('s \<Rightarrow> (int \<times> handler_error option) \<times> 's)
     \<Rightarrow> 's \<times> registry \<Rightarrow> (int \<times> handler_error option) \<times> 's \<times> registry" where
  "FiberMetrics now_of verb path nxt w =
     (let (s, G) = w;
          (start, s1) = now_of s;
          ((status, err), s2) = nxt s1;
          route = route_label path;
          G1 = G\<lparr>httpRequests := inc (verb, route, counted_status status err) (httpRequests G)\<rparr>;
          (stop, s3) = now_of s2
      in ((status, err), s3, G1\<lparr>httpDuration := observe (verb, route) (stop - start) (httpDuration G1)\<rparr>))"

section \<open>gRPC\<close>

text \<open>The code of a call, \<open>None\<close> for success.  A call that panics does not come back here.\<close>

definition UnaryServerInterceptor ::
  "'s clock \<Rightarrow> string \<Rightarrow> ('s \<Rightarrow> (status + 'a) option \<times> 's) \<Rightarrow> 's \<times> registry
     \<Rightarrow> (status + 'a) option \<times> 's \<times> registry" where
  "UnaryServerInterceptor now_of meth h w =
     (let (s, G) = w;
          (start, s1) = now_of s
      in case h s1 of
           (None, s2) \<Rightarrow> (None, s2, G)
         | (Some r, s2) \<Rightarrow>
             (let code = (case r of Inl (c, _) \<Rightarrow> Some c | Inr _ \<Rightarrow> None);
                  G1 = G\<lparr>grpcRequests := inc (meth, code) (grpcRequests G)\<rparr>;
                  (stop, s3) = now_of s2
              in (Some r, s3, G1\<lparr>grpcDuration := observe meth (stop - start) (grpcDuration G1)\<rparr>)))"

text \<open>\<open>serverOptions\<close>: recovery outside, metrics inside.\<close>

definition serverOptions ::
  "'s clock \<Rightarrow> string \<Rightarrow> ('s \<Rightarrow> (status + 'a) option \<times> 's) \<Rightarrow> ('s \<times> registry, 'a) grpc_call" where
  "serverOptions now_of meth h = recoverInterceptor (UnaryServerInterceptor now_of meth h)"

section \<open>Kafka\<close>

text \<open>A handled message is counted by its topic and result, before it is committed.\<close>

definition kafka_counted :: "'s kafka_consumer \<Rightarrow> kafka_message \<Rightarrow> ('s \<times> registry, unit) op" where
  "kafka_counted C msg w =
     (let (s, G) = w; (r, s1) = kafka_handle C msg s;
          result = (case r of Inl _ \<Rightarrow> ''failed'' | Inr _ \<Rightarrow> ''ok'')
      in (r, s1, G\<lparr>KafkaMessages := inc (msg_Topic msg, result) (KafkaMessages G)\<rparr>))"

section \<open>What measuring adds\<close>

lemma inc_same [simp]: "inc l c l = Suc (c l)"
  by (simp add: inc_def)

lemma inc_other [simp]: "k \<noteq> l \<Longrightarrow> inc l c k = c k"
  by (simp add: inc_def)

text \<open>A clock that is only read.\<close>

definition steady :: "'s clock \<Rightarrow> bool" where
  "steady now_of \<longleftrightarrow> (\<forall>s. snd (now_of s) = s)"

text \<open>Measuring is transparent: the answer and the world are those of the measured.\<close>

lemma steady_read:
  assumes "steady now_of"
  obtains t where "now_of = (\<lambda>s. (t s, s))"
proof
  show "now_of = (\<lambda>s. (fst (now_of s), s))"
    using assms by (intro ext) (simp add: steady_def prod_eq_iff)
qed

lemma FiberMetrics_transparent:
  assumes "steady now_of" and "FiberMetrics now_of verb path nxt (s, G) = (r, s', G')"
  shows "nxt s = (r, s')"
proof (rule steady_read [OF assms(1)])
  fix t
  assume "now_of = (\<lambda>s. (t s, s))"
  with assms(2) show ?thesis by (auto simp: FiberMetrics_def Let_def split: prod.splits)
qed

lemma serverOptions_transparent:
  assumes "steady now_of" and "serverOptions now_of meth h (s, G) = (r, s', G')"
  shows "recoverInterceptor h s = (r, s')"
proof (rule steady_read [OF assms(1)])
  fix t
  assume "now_of = (\<lambda>s. (t s, s))"
  with assms(2) show ?thesis
    by (auto simp: serverOptions_def recoverInterceptor_def UnaryServerInterceptor_def Let_def
        split: prod.splits option.splits)
qed

lemma kafka_counted_transparent:
  "kafka_counted C msg (s, G) = (r, s', G') \<Longrightarrow> kafka_handle C msg s = (r, s')"
  by (auto simp: kafka_counted_def Let_def split: prod.splits)

text \<open>A request is counted once, with what it came to.\<close>

lemma FiberMetrics_counts:
  assumes "FiberMetrics now_of verb path nxt (s, G) = ((status, err), s', G')"
  shows "httpRequests G' = inc (verb, route_label path, counted_status status err) (httpRequests G)"
  using assms by (auto simp: FiberMetrics_def Let_def split: prod.splits)

text \<open>A gRPC call that returns is counted once with its code; one that panics is answered, but not counted.\<close>

lemma serverOptions_counts:
  assumes "now_of s = (t, s1)" and "h s1 = (Some r, s2)"
  shows "fst (serverOptions now_of meth h (s, G)) = r
    \<and> grpcRequests (snd (snd (serverOptions now_of meth h (s, G))))
        = inc (meth, case r of Inl (c, _) \<Rightarrow> Some c | Inr _ \<Rightarrow> None) (grpcRequests G)"
  using assms
  by (auto simp: serverOptions_def recoverInterceptor_def UnaryServerInterceptor_def Let_def split: prod.split)

lemma panics_not_counted:
  assumes "now_of s = (t, s1)" and "h s1 = (None, s2)"
  shows "serverOptions now_of meth h (s, G) = (Inl (Internal, ''internal error''), s2, G)"
  using assms by (simp add: serverOptions_def recoverInterceptor_def UnaryServerInterceptor_def)

end
